theory Spec2Isabelle
  imports Complex_Main
begin

section \<open>Numbers and vectors\<close>

text \<open>
  A \<open>THREE.Vector3\<close> is its three components. Positions in the scene, and the lengths and
  areas computed from them (\<open>distanceTo\<close>, \<open>lengthSq\<close>, \<open>calculateArea\<close>), are written over
  the reals: what is proved of them is how the values are combined, and the session never
  branches on a computed length. \<open>calculateAngle\<close> is written in binary64 arithmetic
  (section below), because what is stated of it is the number it returns.
\<close>

datatype Vector3 = Vector3 (vx: real) (vy: real) (vz: real)

definition distanceTo :: "Vector3 \<Rightarrow> Vector3 \<Rightarrow> real" where
  "distanceTo a b =
     (let dx = vx a - vx b; dy = vy a - vy b; dz = vz a - vz b
      in sqrt (dx * dx + dy * dy + dz * dz))"

definition lengthSq :: "Vector3 \<Rightarrow> real" where
  "lengthSq v = vx v * vx v + vy v * vy v + vz v * vz v"

subsection \<open>Binary64 arithmetic\<close>

text \<open>
  A JavaScript number is an IEEE 754 binary64 value: a finite number, one of the two
  infinities, or NaN. \<open>Finite x\<close> is the number with the value \<open>x\<close>; the two zeros are one
  value here (the functions below never divide by a zero: \<open>angleTo\<close> tests its denominator
  first, and the other divisor is \<open>Math.PI\<close>).

  \<open>rnd\<close> is rounding to the nearest number with a significand of 53 bits, ties to the even
  significand, with the exponent bounded below (gradual underflow) and not above:
  \<open>exponent x\<close> is the exponent of the binade of \<open>x\<close>, at least -1022, \<open>ulp x\<close> the distance of
  two neighbouring numbers there. \<open>fl\<close> is the result of an operation whose exact value is
  \<open>x\<close>: the rounded value, or an infinity when that is \<open>2^1024\<close> or more in magnitude.
\<close>

datatype double = Finite real | PosInf | NegInf | NaN

definition round_even :: "real \<Rightarrow> int" where
  "round_even q =
     (let f = \<lfloor>q\<rfloor>; d = q - of_int f
      in if d < 1 / 2 then f else if 1 / 2 < d then f + 1 else if even f then f else f + 1)"

definition exponent :: "real \<Rightarrow> int" where
  "exponent x = max (- 1022) \<lfloor>log 2 \<bar>x\<bar>\<rfloor>"

definition ulp :: "real \<Rightarrow> real" where
  "ulp x = 2 powr (of_int (exponent x) - 52)"

definition rnd :: "real \<Rightarrow> real" where
  "rnd x = (if x = 0 then 0 else ulp x * of_int (round_even (x / ulp x)))"

definition fl :: "real \<Rightarrow> double" where
  "fl x =
     (let r = rnd x
      in if 2 ^ 1024 \<le> r then PosInf else if r \<le> - (2 ^ 1024) then NegInf else Finite r)"

text \<open>
  The operators \<^verbatim>\<open>+\<close>, \<^verbatim>\<open>-\<close>, \<^verbatim>\<open>*\<close>, \<^verbatim>\<open>/\<close> on numbers: the exact result rounded, and the
  rules of IEEE 754 for infinities and NaN.
\<close>

fun js_add :: "double \<Rightarrow> double \<Rightarrow> double" where
  "js_add (Finite a) (Finite b) = fl (a + b)"
| "js_add NaN b = NaN"
| "js_add a NaN = NaN"
| "js_add PosInf NegInf = NaN"
| "js_add NegInf PosInf = NaN"
| "js_add PosInf b = PosInf"
| "js_add a PosInf = PosInf"
| "js_add NegInf b = NegInf"
| "js_add a NegInf = NegInf"

fun js_sub :: "double \<Rightarrow> double \<Rightarrow> double" where
  "js_sub (Finite a) (Finite b) = fl (a - b)"
| "js_sub NaN b = NaN"
| "js_sub a NaN = NaN"
| "js_sub PosInf PosInf = NaN"
| "js_sub NegInf NegInf = NaN"
| "js_sub PosInf b = PosInf"
| "js_sub a PosInf = NegInf"
| "js_sub NegInf b = NegInf"
| "js_sub a NegInf = PosInf"

fun js_mul :: "double \<Rightarrow> double \<Rightarrow> double" where
  "js_mul (Finite a) (Finite b) = fl (a * b)"
| "js_mul NaN b = NaN"
| "js_mul a NaN = NaN"
| "js_mul PosInf (Finite b) = (if b = 0 then NaN else if 0 < b then PosInf else NegInf)"
| "js_mul NegInf (Finite b) = (if b = 0 then NaN else if 0 < b then NegInf else PosInf)"
| "js_mul (Finite a) PosInf = (if a = 0 then NaN else if 0 < a then PosInf else NegInf)"
| "js_mul (Finite a) NegInf = (if a = 0 then NaN else if 0 < a then NegInf else PosInf)"
| "js_mul PosInf PosInf = PosInf"
| "js_mul PosInf NegInf = NegInf"
| "js_mul NegInf PosInf = NegInf"
| "js_mul NegInf NegInf = PosInf"

fun js_div :: "double \<Rightarrow> double \<Rightarrow> double" where
  "js_div (Finite a) (Finite b) =
     (if b = 0 then (if a = 0 then NaN else if 0 < a then PosInf else NegInf) else fl (a / b))"
| "js_div NaN b = NaN"
| "js_div a NaN = NaN"
| "js_div (Finite a) PosInf = Finite 0"
| "js_div (Finite a) NegInf = Finite 0"
| "js_div PosInf (Finite b) = (if 0 \<le> b then PosInf else NegInf)"
| "js_div NegInf (Finite b) = (if 0 \<le> b then NegInf else PosInf)"
| "js_div PosInf b = NaN"
| "js_div NegInf b = NaN"

text \<open>
  The functions of \<open>Math\<close> that \<open>angleTo\<close> calls. \<open>Math.sqrt\<close> is the correctly rounded root.
  ECMAScript leaves the last bits of \<open>Math.acos\<close> to the implementation; it is the correctly
  rounded arc cosine here, and NaN outside \<open>[-1, 1]\<close>. \<open>Math.max\<close> and \<open>Math.min\<close> are NaN as
  soon as an argument is. \<open>Math.PI\<close> is the number nearest to \<open>\<pi>\<close>.
\<close>

fun Math_sqrt :: "double \<Rightarrow> double" where
  "Math_sqrt (Finite a) = (if a < 0 then NaN else fl (sqrt a))"
| "Math_sqrt PosInf = PosInf"
| "Math_sqrt NegInf = NaN"
| "Math_sqrt NaN = NaN"

fun Math_acos :: "double \<Rightarrow> double" where
  "Math_acos (Finite a) = (if - 1 \<le> a \<and> a \<le> 1 then fl (arccos a) else NaN)"
| "Math_acos PosInf = NaN"
| "Math_acos NegInf = NaN"
| "Math_acos NaN = NaN"

fun Math_max :: "double \<Rightarrow> double \<Rightarrow> double" where
  "Math_max (Finite a) (Finite b) = Finite (max a b)"
| "Math_max NaN b = NaN"
| "Math_max a NaN = NaN"
| "Math_max PosInf b = PosInf"
| "Math_max a PosInf = PosInf"
| "Math_max NegInf b = b"
| "Math_max a NegInf = a"

fun Math_min :: "double \<Rightarrow> double \<Rightarrow> double" where
  "Math_min (Finite a) (Finite b) = Finite (min a b)"
| "Math_min NaN b = NaN"
| "Math_min a NaN = NaN"
| "Math_min NegInf b = NegInf"
| "Math_min a NegInf = NegInf"
| "Math_min PosInf b = b"
| "Math_min a PosInf = a"

definition Math_PI :: double where
  "Math_PI = fl pi"

subsection \<open>calculateAngle\<close>

text \<open>
  A \<open>THREE.Vector3\<close> with its components as binary64 numbers, and the operations of three.js
  that \<open>calculateAngle\<close> goes through, written as three.js computes them: \<open>lengthSq\<close>,
  \<open>dot\<close>, \<open>MathUtils.clamp\<close> and \<open>angleTo\<close> (the angle between two vectors in radians, with
  the quotient clamped to \<open>[-1, 1]\<close>, and \<open>Math.PI / 2\<close> when the denominator is zero).
\<close>

datatype Vector3d = Vector3d (dvx: double) (dvy: double) (dvz: double)

definition lengthSq_d :: "Vector3d \<Rightarrow> double" where
  "lengthSq_d v =
     js_add (js_add (js_mul (dvx v) (dvx v)) (js_mul (dvy v) (dvy v))) (js_mul (dvz v) (dvz v))"

definition dot :: "Vector3d \<Rightarrow> Vector3d \<Rightarrow> double" where
  "dot a b =
     js_add (js_add (js_mul (dvx a) (dvx b)) (js_mul (dvy a) (dvy b))) (js_mul (dvz a) (dvz b))"

definition clamp :: "double \<Rightarrow> double \<Rightarrow> double \<Rightarrow> double" where
  "clamp v lo hi = Math_max lo (Math_min hi v)"

definition angleTo :: "Vector3d \<Rightarrow> Vector3d \<Rightarrow> double" where
  "angleTo a b =
     (let denominator = Math_sqrt (js_mul (lengthSq_d a) (lengthSq_d b))
      in if denominator = Finite 0 then js_div Math_PI (Finite 2)
         else let theta = js_div (dot a b) denominator
              in Math_acos (clamp theta (Finite (- 1)) (Finite 1)))"

definition calculateAngle :: "Vector3d \<Rightarrow> Vector3d \<Rightarrow> Vector3d \<Rightarrow> double" where
  "calculateAngle startPoint middlePoint endPoint =
     (let p0 = startPoint; p1 = middlePoint; p2 = endPoint;
          dir0 = Vector3d (js_sub (dvx p0) (dvx p1)) (js_sub (dvy p0) (dvy p1))
                   (js_sub (dvz p0) (dvz p1));
          dir1 = Vector3d (js_sub (dvx p2) (dvx p1)) (js_sub (dvy p2) (dvy p1))
                   (js_sub (dvz p2) (dvz p1));
          angle = angleTo dir0 dir1
      in js_div (js_mul angle (Finite 180)) Math_PI)"

text \<open>
  The point with given finite coordinates; \<open>sameSide t p0 p1 p2\<close>: the three points are
  collinear and \<open>p0\<close>, \<open>p2\<close> lie on the same side of \<open>p1\<close>, that is \<open>p2 - p1\<close> is the positive
  multiple \<open>t\<close> of the non-zero vector \<open>p0 - p1\<close> (in exact arithmetic); points with integer
  coordinates up to 2048 in magnitude; points with coordinates up to \<open>2^250\<close> in magnitude;
  a number of degrees between 0 and 180.
\<close>

definition of_Vector3 :: "Vector3 \<Rightarrow> Vector3d" where
  "of_Vector3 p = Vector3d (Finite (vx p)) (Finite (vy p)) (Finite (vz p))"

definition sameSide :: "real \<Rightarrow> Vector3 \<Rightarrow> Vector3 \<Rightarrow> Vector3 \<Rightarrow> bool" where
  "sameSide t p0 p1 p2 \<longleftrightarrow>
     0 < t \<and> p0 \<noteq> p1 \<and>
     vx p2 - vx p1 = t * (vx p0 - vx p1) \<and>
     vy p2 - vy p1 = t * (vy p0 - vy p1) \<and>
     vz p2 - vz p1 = t * (vz p0 - vz p1)"

definition is_int :: "real \<Rightarrow> bool" where
  "is_int x \<longleftrightarrow> of_int \<lfloor>x\<rfloor> = x"

definition small_integers :: "Vector3 \<Rightarrow> bool" where
  "small_integers p \<longleftrightarrow>
     is_int (vx p) \<and> \<bar>vx p\<bar> \<le> 2048 \<and> is_int (vy p) \<and> \<bar>vy p\<bar> \<le> 2048 \<and>
     is_int (vz p) \<and> \<bar>vz p\<bar> \<le> 2048"

definition bounded_point :: "Vector3 \<Rightarrow> bool" where
  "bounded_point p \<longleftrightarrow> \<bar>vx p\<bar> \<le> 2 ^ 250 \<and> \<bar>vy p\<bar> \<le> 2 ^ 250 \<and> \<bar>vz p\<bar> \<le> 2 ^ 250"

definition degrees :: "double \<Rightarrow> bool" where
  "degrees d = (case d of Finite r \<Rightarrow> 0 \<le> r \<and> r \<le> 180 | _ \<Rightarrow> False)"

text \<open>
  The value of \<open>Math.PI\<close> (3.141592653589793), a coordinate whose square is beyond the
  largest number, and finite numbers up to \<open>2^n\<close> in magnitude.
\<close>

definition PI_value :: real where
  "PI_value = 884279719003555 / 2 ^ 48"

definition huge :: real where
  "huge = 2 ^ 600"

definition finite_upto :: "nat \<Rightarrow> double \<Rightarrow> bool" where
  "finite_upto n d = (case d of Finite r \<Rightarrow> \<bar>r\<bar> \<le> 2 ^ n | _ \<Rightarrow> False)"

definition nonneg_upto :: "nat \<Rightarrow> double \<Rightarrow> bool" where
  "nonneg_upto n d = (case d of Finite r \<Rightarrow> 0 \<le> r \<and> r \<le> 2 ^ n | _ \<Rightarrow> False)"

subsection \<open>calculateArea\<close>

text \<open>
  The loop \<^verbatim>\<open>for (let i = 0, j = 1, k = 2; k < points.length; j++, k++)\<close> with its
  accumulator \<open>area\<close>. Every index it reads is below \<open>points.length\<close>.
\<close>

function calculateArea_loop :: "Vector3 list \<Rightarrow> nat \<Rightarrow> nat \<Rightarrow> nat \<Rightarrow> real \<Rightarrow> real" where
  "calculateArea_loop points i j k area =
     (if k < length points then
        (let a = distanceTo (points ! i) (points ! j);
             b = distanceTo (points ! j) (points ! k);
             c = distanceTo (points ! k) (points ! i);
             p = (a + b + c) / 2
         in calculateArea_loop points i (j + 1) (k + 1)
              (area + sqrt (p * (p - a) * (p - b) * (p - c))))
      else area)"
  by pat_completeness auto
termination
  by (relation "measure (\<lambda>(points, i, j, k, area). length points - k)") auto

declare calculateArea_loop.simps [simp del]

definition calculateArea :: "Vector3 list \<Rightarrow> real" where
  "calculateArea points = calculateArea_loop points 0 1 2 0"

text \<open>
  The specification's words: Heron's formula for one triangle, and the fan of triangles
  \<open>(points[0], points[j], points[j+1])\<close> for \<open>j\<close> from 1 to \<open>length - 2\<close>.
\<close>

definition heron :: "Vector3 \<Rightarrow> Vector3 \<Rightarrow> Vector3 \<Rightarrow> real" where
  "heron u v w =
     (let a = distanceTo u v; b = distanceTo v w; c = distanceTo w u; p = (a + b + c) / 2
      in sqrt (p * (p - a) * (p - b) * (p - c)))"

definition fan_area_spec :: "Vector3 list \<Rightarrow> real" where
  "fan_area_spec points =
     (\<Sum>j = 1..length points - 2. heron (points ! 0) (points ! j) (points ! (j + 1)))"

subsection \<open>numberToString\<close>

text \<open>
  \<open>Number.prototype.toFixed\<close> as ECMAScript defines it on the mathematical value of the
  number: the sign, then the integer \<open>n\<close> nearest to \<open>x * 10^f\<close> (the larger one on a tie),
  written in decimal and padded with zeros to at least \<open>f + 1\<close> digits, with the point
  before the last \<open>f\<close> digits. From \<open>10^21\<close> on it gives the default conversion instead.
  The default conversion \<open>Number.prototype.toString\<close> is the parameter \<open>toStr\<close>.
\<close>

function decimal_digits :: "nat \<Rightarrow> string" where
  "decimal_digits n =
     (if n < 10 then [''0123456789'' ! n]
      else decimal_digits (n div 10) @ [''0123456789'' ! (n mod 10)])"
  by pat_completeness auto
termination
  by (relation "measure id") auto

declare decimal_digits.simps [simp del]

definition toFixed :: "(real \<Rightarrow> string) \<Rightarrow> real \<Rightarrow> nat \<Rightarrow> string" where
  "toFixed toStr num f =
     (let s = (if num < 0 then ''-'' else '''');
          x = (if num < 0 then - num else num)
      in if 10 ^ 21 \<le> x then s @ toStr x
         else
           (let n = nat \<lfloor>x * 10 ^ f + 1 / 2\<rfloor>;
                m = decimal_digits n
            in if f \<noteq> 0 then
                 (let k = length m;
                      m' = (if k \<le> f then replicate (f + 1 - k) (CHR ''0'') @ m else m);
                      k' = (if k \<le> f then f + 1 else k)
                  in s @ take (k' - f) m' @ ''.'' @ drop (k' - f) m')
               else s @ m))"

definition numberToString :: "(real \<Rightarrow> string) \<Rightarrow> real \<Rightarrow> string" where
  "numberToString toStr num =
     (if num < 1 / 10000 then toStr num
      else
        (let fractionDigits = (if num < 1 / 100 then 4 else if num < 1 / 10 then 3 else 2)
         in toFixed toStr num fractionDigits))"

text \<open>
  What it is for a string to be a decimal numeral with \<open>k\<close> fraction digits: digits (at
  least one), a point, and exactly \<open>k\<close> digits; \<open>scaled_value k str\<close> is the number that its
  digits write, the point left out. \<open>exponential_1e21\<close> is a default conversion that gives
  \<^verbatim>\<open>1e+21\<close>, as \<open>Number.prototype.toString\<close> does for \<open>10^21\<close>.
\<close>

definition digit :: "char \<Rightarrow> bool" where
  "digit c \<longleftrightarrow> c \<in> set ''0123456789''"

definition digit_value :: "char \<Rightarrow> nat" where
  "digit_value c = of_char c - of_char (CHR ''0'')"

definition decimal_value :: "string \<Rightarrow> nat" where
  "decimal_value str = foldl (\<lambda>v c. 10 * v + digit_value c) 0 str"

definition fraction_digits :: "nat \<Rightarrow> string \<Rightarrow> bool" where
  "fraction_digits k str \<longleftrightarrow>
     k + 1 < length str \<and> str ! (length str - (k + 1)) = CHR ''.'' \<and>
     list_all digit (take (length str - (k + 1)) str) \<and>
     list_all digit (drop (length str - k) str)"

definition scaled_value :: "nat \<Rightarrow> string \<Rightarrow> nat" where
  "scaled_value k str =
     decimal_value (take (length str - (k + 1)) str @ drop (length str - k) str)"

definition exponential_1e21 :: "real \<Rightarrow> string" where
  "exponential_1e21 x = ''1e+21''"
section \<open>The measurement session\<close>

subsection \<open>Data\<close>

datatype MeasureMode = Distance | Area | Angle

text \<open>
  A three.js object is its identity and the name it is given when it is created; the name
  is never changed afterwards. \<open>new\<close> is modelled by the counter \<open>nextId\<close> of the state.
\<close>

datatype obj = Obj (oid: nat) (oname: string)

definition MAX_POINTS :: nat where
  "MAX_POINTS = 100"

definition MAX_DISTANCE :: real where
  "MAX_DISTANCE = 500"

definition OBJ_NAME :: string where
  "OBJ_NAME = ''object_for_measure''"

definition LABEL_NAME :: string where
  "LABEL_NAME = ''label_for_measure''"

text \<open>
  Event listeners: the event type a listener is registered for and the handler of the class
  (the arrow functions \<open>mousedown\<close>, \<open>mousemove\<close>, \<open>mouseup\<close>, \<open>dblclick\<close>, \<open>keydown\<close>).
\<close>

datatype eventType = Mousedown | Mousemove | Mouseup | Contextmenu | Dblclick | Keydown

datatype handler = H_mousedown | H_mousemove | H_mouseup | H_dblclick | H_keydown

text \<open>
  One entry of the result of \<open>raycaster.intersectObject(scene, true)\<close>: the name of the
  object that was hit, its distance from the camera and the point.
\<close>

datatype intersection = Intersection (iname: string) (idistance: real) (ipoint: Vector3)

text \<open>
  An event as a handler sees it, together with what the environment answers while the
  handler runs: the intersections of the ray through the pointer position (ordered by
  distance, as three.js returns them), the key of a keyboard event, and \<open>Date.now()\<close>.
\<close>

record event =
  ev_hits :: "intersection list"
  ev_key :: string
  ev_now :: int

datatype logLevel = Warn | Error

text \<open>
  The state: the fields of the class \<open>Measure\<close>, then the parts of the environment the
  class acts on. \<open>font\<close> and \<open>raycaster\<close> say whether the field is set. A field that holds
  \<open>undefined\<close> or \<open>null\<close> is \<open>None\<close> (the code only tests such fields for truth).
  \<open>camera\<close>, \<open>scene\<close>, \<open>controls\<close> and \<open>dragControls\<close> are set by the constructor and never
  unset. The scene graph is the list of children of the scene and the list of children of
  every object; geometry is the \<open>position\<close> array and the draw count (\<open>None\<close>: unbounded) of
  every object. The text and the position of a label, materials, and the output of
  \<open>console.log\<close> are not part of the state.
\<close>

record measure =
  mode :: MeasureMode
  font :: bool
  helpLabel :: "obj option"
  mouseMoved :: bool
  isCompleted :: bool
  points :: "obj option"
  polyline :: "obj option"
  faces :: "obj option"
  curve :: "obj option"
  tempPoints :: "obj option"
  tempLine :: "obj option"
  tempLineForArea :: "obj option"
  tempLabel :: "obj option"
  tempLineLabelArr :: "obj list"
  pointArray :: "Vector3 list"
  pointsArray :: "Vector3 list"
  fontSize :: real
  tempFontSize :: real
  lastClickTime :: "int option"
  raycaster :: bool
  canvasListeners :: "(eventType \<times> handler) list"
  windowListeners :: "(eventType \<times> handler) list"
  sceneChildren :: "obj list"
  childrenOf :: "obj \<Rightarrow> obj list"
  position :: "obj \<Rightarrow> real list"
  drawCount :: "obj \<Rightarrow> nat option"
  dragObjects :: "obj list"
  cursor :: string
  console :: "(logLevel \<times> string) list"
  nextId :: nat

subsection \<open>The environment: listeners, scene graph, geometry\<close>

text \<open>
  \<open>addEventListener\<close> ignores a listener that is already registered for the type;
  \<open>removeEventListener\<close> removes it, and does nothing when it is not registered.
\<close>

definition addListener :: "eventType \<times> handler \<Rightarrow> (eventType \<times> handler) list \<Rightarrow> (eventType \<times> handler) list" where
  "addListener l ls = (if l \<in> set ls then ls else ls @ [l])"

definition removeListener :: "eventType \<times> handler \<Rightarrow> (eventType \<times> handler) list \<Rightarrow> (eventType \<times> handler) list" where
  "removeListener l ls = removeAll l ls"

text \<open>
  \<open>Object3D.add\<close> detaches the object from its parent and appends it to the children;
  \<open>Object3D.remove\<close> deletes it from the children and does nothing when it is not among
  them. An object has at most one parent, so a list of children never holds it twice.
\<close>

definition removeFromParent :: "obj \<Rightarrow> measure \<Rightarrow> measure" where
  "removeFromParent x s =
     s\<lparr>sceneChildren := removeAll x (sceneChildren s),
       childrenOf := (\<lambda>p. removeAll x (childrenOf s p))\<rparr>"

definition scene_add :: "obj \<Rightarrow> measure \<Rightarrow> measure" where
  "scene_add x s =
     (let s = removeFromParent x s in s\<lparr>sceneChildren := sceneChildren s @ [x]\<rparr>)"

definition scene_remove :: "obj \<Rightarrow> measure \<Rightarrow> measure" where
  "scene_remove x s = s\<lparr>sceneChildren := removeAll x (sceneChildren s)\<rparr>"

text \<open>
  The idiom \<^verbatim>\<open>this.f && this.scene.remove(this.f)\<close> for a field \<open>f\<close>; when the field
  is not set, \<open>scene.remove\<close> of \<open>undefined\<close> or \<open>null\<close> removes nothing either.
\<close>

definition scene_remove_field :: "(measure \<Rightarrow> obj option) \<Rightarrow> measure \<Rightarrow> measure" where
  "scene_remove_field f s = (case f s of None \<Rightarrow> s | Some x \<Rightarrow> scene_remove x s)"

definition object_add :: "obj \<Rightarrow> obj \<Rightarrow> measure \<Rightarrow> measure" where
  "object_add parent x s =
     (let s = removeFromParent x s
      in s\<lparr>childrenOf := (childrenOf s)(parent := childrenOf s parent @ [x])\<rparr>)"

definition object_remove :: "obj \<Rightarrow> obj \<Rightarrow> measure \<Rightarrow> measure" where
  "object_remove parent x s =
     s\<lparr>childrenOf := (childrenOf s)(parent := removeAll x (childrenOf s parent))\<rparr>"

definition newObject :: "string \<Rightarrow> measure \<Rightarrow> obj \<times> measure" where
  "newObject nm s = (Obj (nextId s) nm, s\<lparr>nextId := nextId s + 1\<rparr>)"

text \<open>
  Writing vertex data: three consecutive components from offset \<open>i\<close>. A write outside a
  typed array is ignored by JavaScript, as a list update outside the list is here.
\<close>

definition writeVertex :: "obj \<Rightarrow> nat \<Rightarrow> Vector3 \<Rightarrow> measure \<Rightarrow> measure" where
  "writeVertex x i p s =
     s\<lparr>position := (position s)
         (x := (position s x)[i := vx p, i + 1 := vy p, i + 2 := vz p])\<rparr>"

definition setDrawRange :: "obj \<Rightarrow> nat \<Rightarrow> measure \<Rightarrow> measure" where
  "setDrawRange x n s = s\<lparr>drawCount := (drawCount s)(x := Some n)\<rparr>"

definition flatten :: "Vector3 list \<Rightarrow> real list" where
  "flatten ps = concat (map (\<lambda>p. [vx p, vy p, vz p]) ps)"

definition setFromPoints :: "obj \<Rightarrow> Vector3 list \<Rightarrow> measure \<Rightarrow> measure" where
  "setFromPoints x ps s = s\<lparr>position := (position s)(x := flatten ps)\<rparr>"

subsection \<open>Creating objects\<close>

text \<open>\<open>createPoints\<close> allocates \<open>MAX_POINTS * 3\<close> components whatever \<open>pointCount\<close> is.\<close>

definition createPoints :: "nat \<Rightarrow> measure \<Rightarrow> obj \<times> measure" where
  "createPoints pointCount s =
     (let (x, s) = newObject OBJ_NAME s;
          s = s\<lparr>position := (position s)(x := replicate (MAX_POINTS * 3) 0)\<rparr>;
          s = setDrawRange x 0 s
      in (x, s))"

definition createLine :: "nat \<Rightarrow> measure \<Rightarrow> obj \<times> measure" where
  "createLine pointCount s =
     (let (x, s) = newObject OBJ_NAME s;
          s = s\<lparr>position := (position s)(x := replicate (pointCount * 3) 0),
                 drawCount := (drawCount s)(x := None)\<rparr>
      in (x, s))"

definition createFaces :: "measure \<Rightarrow> obj \<times> measure" where
  "createFaces s =
     (let (x, s) = newObject OBJ_NAME s;
          s = s\<lparr>position := (position s)(x := []),
                 drawCount := (drawCount s)(x := None)\<rparr>
      in (x, s))"

definition createHelper :: "measure \<Rightarrow> obj \<times> measure" where
  "createHelper s = newObject LABEL_NAME s"

text \<open>
  \<open>createCurve\<close>: the five points of \<open>QuadraticBezierCurve3(p0, p1, p2).getPoints(4)\<close>.
\<close>

definition bezierPoint :: "Vector3 \<Rightarrow> Vector3 \<Rightarrow> Vector3 \<Rightarrow> real \<Rightarrow> Vector3" where
  "bezierPoint p0 p1 p2 t =
     (let k = 1 - t
      in Vector3 (k * k * vx p0 + 2 * k * t * vx p1 + t * t * vx p2)
                 (k * k * vy p0 + 2 * k * t * vy p1 + t * t * vy p2)
                 (k * k * vz p0 + 2 * k * t * vz p1 + t * t * vz p2))"

definition createCurve :: "Vector3 \<Rightarrow> Vector3 \<Rightarrow> Vector3 \<Rightarrow> measure \<Rightarrow> obj \<times> measure" where
  "createCurve p0 p1 p2 s =
     (let pts = map (bezierPoint p0 p1 p2) [0, 1 / 4, 2 / 4, 3 / 4, 1];
          (x, s) = newObject LABEL_NAME s;
          s = s\<lparr>drawCount := (drawCount s)(x := None)\<rparr>;
          s = setFromPoints x pts s
      in (x, s))"

text \<open>\<open>Vector3.normalize\<close> divides by the length, or by 1 when the length is 0.\<close>

definition normalize :: "Vector3 \<Rightarrow> Vector3" where
  "normalize v =
     (let l = sqrt (lengthSq v); d = (if l = 0 then 1 else l)
      in Vector3 (vx v / d) (vy v / d) (vz v / d))"

definition getAngleBisector :: "Vector3 \<Rightarrow> Vector3 \<Rightarrow> Vector3 \<Rightarrow> Vector3" where
  "getAngleBisector startPoint middlePoint endPoint =
     (let p0 = startPoint; p1 = middlePoint; p2 = endPoint;
          dir0 = normalize (Vector3 (vx p0 - vx p1) (vy p0 - vy p1) (vz p0 - vz p1));
          dir2 = normalize (Vector3 (vx p2 - vx p1) (vy p2 - vy p1) (vz p2 - vz p1))
      in normalize (Vector3 (vx dir0 + vx dir2) (vy dir0 + vy dir2) (vz dir0 + vz dir2)))"

subsection \<open>The drag registry and the labels\<close>

definition addDraggableObjects :: "obj \<Rightarrow> measure \<Rightarrow> measure" where
  "addDraggableObjects x s = s\<lparr>dragObjects := dragObjects s @ [x]\<rparr>"

definition clearDraggableObjects :: "measure \<Rightarrow> measure" where
  "clearDraggableObjects s = s\<lparr>dragObjects := []\<rparr>"

definition addHelpLabel :: "measure \<Rightarrow> measure" where
  "addHelpLabel s =
     (if helpLabel s = None then
        (let (l, s) = createHelper s;
             s = s\<lparr>helpLabel := Some l\<rparr>
         in scene_add l s)
      else s)"

definition addOrUpdateLabel :: "measure \<Rightarrow> measure" where
  "addOrUpdateLabel s =
     (if \<not> font s then s\<lparr>console := console s @ [(Warn, ''Font is not loaded yet!'')]\<rparr>
      else
        (let s = scene_remove_field tempLabel s;
             (l, s) = createHelper s;
             s = s\<lparr>tempLabel := Some l\<rparr>
         in scene_add l s))"

subsection \<open>close and open\<close>

definition addCanvasListener :: "eventType \<times> handler \<Rightarrow> measure \<Rightarrow> measure" where
  "addCanvasListener l s = s\<lparr>canvasListeners := addListener l (canvasListeners s)\<rparr>"

definition removeCanvasListener :: "eventType \<times> handler \<Rightarrow> measure \<Rightarrow> measure" where
  "removeCanvasListener l s = s\<lparr>canvasListeners := removeListener l (canvasListeners s)\<rparr>"

definition addWindowListener :: "eventType \<times> handler \<Rightarrow> measure \<Rightarrow> measure" where
  "addWindowListener l s = s\<lparr>windowListeners := addListener l (windowListeners s)\<rparr>"

definition removeWindowListener :: "eventType \<times> handler \<Rightarrow> measure \<Rightarrow> measure" where
  "removeWindowListener l s = s\<lparr>windowListeners := removeListener l (windowListeners s)\<rparr>"

text \<open>
  \<open>close()\<close>, statement by statement. The listener it removes for \<open>this.dblclick\<close> is the
  one of type \<open>'dblclick'\<close>, as in the source. The fields \<open>faces\<close>, \<open>curve\<close> and
  \<open>isCompleted\<close> are not reset.
\<close>

definition close_labels :: "measure \<Rightarrow> measure" where
  "close_labels s =
     (if length (tempLineLabelArr s) > 0 then
        fold (\<lambda>item s. case polyline s of None \<Rightarrow> s | Some l \<Rightarrow> object_remove l item s)
          (tempLineLabelArr s) s
      else s)"

definition close_reset :: "measure \<Rightarrow> measure" where
  "close_reset s =
     s\<lparr>tempLabel := None, helpLabel := None, pointArray := [], pointsArray := [],
       tempLineLabelArr := [], raycaster := False, tempPoints := None,
       tempLine := None, tempLineForArea := None, points := None, polyline := None,
       fontSize := 0, cursor := ''''\<rparr>"

definition close :: "measure \<Rightarrow> measure" where
  "close s =
     (let s = removeCanvasListener (Mousedown, H_mousedown) s;
          s = removeCanvasListener (Mousemove, H_mousemove) s;
          s = removeCanvasListener (Mouseup, H_mouseup) s;
          s = removeCanvasListener (Dblclick, H_dblclick) s;
          s = removeWindowListener (Keydown, H_keydown) s;
          s = scene_remove_field tempPoints s;
          s = scene_remove_field tempLine s;
          s = scene_remove_field tempLineForArea s;
          s = scene_remove_field points s;
          s = scene_remove_field polyline s;
          s = scene_remove_field faces s;
          s = scene_remove_field curve s;
          s = scene_remove_field helpLabel s;
          s = scene_remove_field tempLabel s;
          s = close_labels s;
          s = close_reset s
      in clearDraggableObjects s)"

text \<open>\<open>open(mode)\<close>: the mode when one is given, \<open>close()\<close>, then the new session.\<close>

definition open_mode :: "MeasureMode option \<Rightarrow> measure \<Rightarrow> measure" where
  "open_mode m s = (case m of None \<Rightarrow> s | Some md \<Rightarrow> s\<lparr>mode := md\<rparr>)"

definition open_reset :: "measure \<Rightarrow> measure" where
  "open_reset s =
     s\<lparr>pointArray := [], pointsArray := [], helpLabel := None, tempLabel := None,
       tempLineLabelArr := [], raycaster := True\<rparr>"

definition open_points :: "measure \<Rightarrow> measure" where
  "open_points s =
     (let (p, s) = createPoints MAX_POINTS s;
          s = s\<lparr>points := Some p\<rparr>
      in scene_add p s)"

definition open_polyline :: "measure \<Rightarrow> measure" where
  "open_polyline s =
     (let (l, s) = createLine MAX_POINTS s;
          s = s\<lparr>polyline := Some l\<rparr>
      in scene_add l s)"

definition open_faces :: "measure \<Rightarrow> measure" where
  "open_faces s =
     (if mode s = Area then
        (let (f, s) = createFaces s;
             s = s\<lparr>faces := Some f\<rparr>
         in scene_add f s)
      else s)"

definition open_finish :: "measure \<Rightarrow> measure" where
  "open_finish s = s\<lparr>isCompleted := False, cursor := ''crosshair'', fontSize := 0\<rparr>"

definition open_measure :: "MeasureMode option \<Rightarrow> measure \<Rightarrow> measure" where
  "open_measure m s =
     (let s = open_mode m s;
          s = close s;
          s = addCanvasListener (Mousedown, H_mousedown) s;
          s = addCanvasListener (Mousemove, H_mousemove) s;
          s = addCanvasListener (Mouseup, H_mouseup) s;
          s = addCanvasListener (Contextmenu, H_dblclick) s;
          s = addWindowListener (Keydown, H_keydown) s;
          s = open_reset s;
          s = open_points s;
          s = open_polyline s;
          s = open_faces s
      in open_finish s)"

definition cancel :: "measure \<Rightarrow> measure" where
  "cancel s = close s"

subsection \<open>complete\<close>

text \<open>
  The three blocks of \<open>complete()\<close> that depend on the mode. Each takes and returns the
  local flags \<open>clearPoints\<close> and \<open>clearPolyline\<close> with the state; \<open>count\<close> is
  \<open>pointArray.length\<close> at entry.
\<close>

definition complete_area :: "nat \<Rightarrow> bool \<times> bool \<times> measure \<Rightarrow> bool \<times> bool \<times> measure" where
  "complete_area count st =
     (let (clearPoints, clearPolyline, s) = st
      in case polyline s of
           None \<Rightarrow> st
         | Some line \<Rightarrow>
             if mode s = Area then
               (if count > 2 then
                  (let p0 = pointArray s ! 0;
                       s = (if count * 3 + 3 < MAX_POINTS then
                              setDrawRange line (count + 1) (writeVertex line (count * 3) p0 s)
                            else s);
                       s = addOrUpdateLabel s
                   in (clearPoints, clearPolyline, s))
                else (True, True, s))
             else st)"

definition complete_distance :: "nat \<Rightarrow> bool \<times> bool \<times> measure \<Rightarrow> bool \<times> bool \<times> measure" where
  "complete_distance count st =
     (let (clearPoints, clearPolyline, s) = st
      in if mode s = Distance then
           (if count < 2 then (True, clearPolyline, s) else st)
         else st)"

definition complete_angle :: "nat \<Rightarrow> bool \<times> bool \<times> measure \<Rightarrow> bool \<times> bool \<times> measure" where
  "complete_angle count st =
     (let (clearPoints, clearPolyline, s) = st
      in case polyline s of
           None \<Rightarrow> st
         | Some line \<Rightarrow>
             if mode s = Angle then
               (if count \<ge> 3 then
                  (let p0 = pointArray s ! 0;
                       p1 = pointArray s ! 1;
                       p2 = pointArray s ! 2;
                       dir0 = normalize (Vector3 (vx p0 - vx p1) (vy p0 - vy p1) (vz p0 - vz p1));
                       dir1 = getAngleBisector p0 p1 p2;
                       dir2 = normalize (Vector3 (vx p2 - vx p1) (vy p2 - vy p1) (vz p2 - vz p1));
                       distance = min (distanceTo p0 p1) (distanceTo p2 p1);
                       d = distance * (2 / 10);
                       position = Vector3 (vx p1 + vx dir1 * d) (vy p1 + vy dir1 * d) (vz p1 + vz dir1 * d);
                       s = addOrUpdateLabel s;
                       arcP0 = Vector3 (vx p1 + vx dir0 * d) (vy p1 + vy dir0 * d) (vz p1 + vz dir0 * d);
                       arcP2 = Vector3 (vx p1 + vx dir2 * d) (vy p1 + vy dir2 * d) (vz p1 + vz dir2 * d);
                       (c, s) = createCurve arcP0 position arcP2 s;
                       s = s\<lparr>curve := Some c\<rparr>;
                       s = scene_add c s
                   in (clearPoints, clearPolyline, s))
                else (True, True, s))
             else st)"

text \<open>The invalid case: the objects flagged by the blocks are removed and their fields unset.\<close>

definition complete_clear :: "bool \<Rightarrow> bool \<Rightarrow> measure \<Rightarrow> measure" where
  "complete_clear clearPoints clearPolyline s =
     (let s = (if clearPoints \<and> points s \<noteq> None then
                 (scene_remove_field points s)\<lparr>points := None\<rparr>
               else s)
      in if clearPolyline \<and> polyline s \<noteq> None then
           (scene_remove_field polyline s)\<lparr>polyline := None\<rparr>
         else s)"

text \<open>
  \<open>polyline.traverse\<close> visits the polyline and its descendants; only labels are ever added
  to a polyline, and nothing is added to a label.
\<close>

definition traverse :: "obj \<Rightarrow> measure \<Rightarrow> obj list" where
  "traverse x s = x # childrenOf s x"

definition complete_draggable :: "measure \<Rightarrow> measure" where
  "complete_draggable s =
     (case polyline s of
        None \<Rightarrow> s
      | Some l \<Rightarrow>
          fold (\<lambda>object s. if oname object = LABEL_NAME then addDraggableObjects object s else s)
            (traverse l s) s)"

definition complete_tempLine :: "measure \<Rightarrow> measure" where
  "complete_tempLine s =
     (if tempLine s \<noteq> None then
        (let s = scene_remove_field tempLine s
         in if mode s = Distance then scene_remove_field tempLabel s else s)
      else s)"

definition complete_measure :: "measure \<Rightarrow> measure" where
  "complete_measure s =
     (if isCompleted s then s
      else
        (let count = length (pointArray s);
             st = (False, False, s);
             st = complete_area count st;
             st = complete_distance count st;
             (clearPoints, clearPolyline, s) = complete_angle count st;
             s = complete_clear clearPoints clearPolyline s;
             s = complete_draggable s;
             s = s\<lparr>isCompleted := True, cursor := ''''\<rparr>;
             s = scene_remove_field tempPoints s;
             s = complete_tempLine s;
             s = scene_remove_field tempLineForArea s;
             s = scene_remove_field helpLabel s
         in s\<lparr>fontSize := 0\<rparr>))"

subsection \<open>The hit test and the handlers\<close>

definition getClosestIntersection :: "event \<Rightarrow> measure \<Rightarrow> Vector3 option" where
  "getClosestIntersection e s =
     (if \<not> raycaster s \<or> isCompleted s then None
      else
        (let intersects = ev_hits e
         in if length intersects > 0 then
              (let intersects = filter (\<lambda>item. iname item \<noteq> OBJ_NAME) intersects
               in if length intersects > 0 \<and> idistance (intersects ! 0) < MAX_DISTANCE
                  then Some (ipoint (intersects ! 0))
                  else None)
            else None))"

definition mousedown :: "event \<Rightarrow> measure \<Rightarrow> measure" where
  "mousedown e s = s\<lparr>mouseMoved := False\<rparr>"

text \<open>\<open>mousemove\<close>: the temporary point, the closing vertex in Area mode, the temporary line.\<close>

definition move_tempPoints :: "measure \<Rightarrow> measure" where
  "move_tempPoints s0 =
     (let (pts, s) = (case tempPoints s0 of None \<Rightarrow> createPoints 1 s0 | Some x \<Rightarrow> (x, s0))
      in if tempPoints s = None then (scene_add pts s)\<lparr>tempPoints := Some pts\<rparr> else s)"

definition move_area_first :: "measure \<Rightarrow> measure" where
  "move_area_first s0 =
     (if mode s0 = Area \<and> length (pointArray s0) > 0 then
        (let (line, s) = (case tempLine s0 of None \<Rightarrow> createLine 3 s0 | Some x \<Rightarrow> (x, s0))
         in writeVertex line 6 (pointArray s ! 0) s)
      else s0)"

definition move_line :: "Vector3 \<Rightarrow> measure \<Rightarrow> measure" where
  "move_line point s0 =
     (if length (pointArray s0) > 0 then
        (let s = addHelpLabel s0;
             p0 = pointArray s ! (length (pointArray s) - 1);
             (line, s) = (case tempLine s of None \<Rightarrow> createLine 3 s | Some x \<Rightarrow> (x, s));
             s = writeVertex line 0 p0 s;
             s = writeVertex line 3 point s;
             range = (if mode s = Area \<and> length (pointArray s) \<ge> 2 then 3 else 2);
             s = setDrawRange line range s;
             s = (if mode s = Distance then addOrUpdateLabel s else s)
         in if tempLine s = None then (scene_add line s)\<lparr>tempLine := Some line\<rparr> else s)
      else s0)"

definition mousemove :: "event \<Rightarrow> measure \<Rightarrow> measure" where
  "mousemove e s0 =
     (let s = s0\<lparr>mouseMoved := True\<rparr>
      in case getClosestIntersection e s of
           None \<Rightarrow> s
         | Some point \<Rightarrow>
             (let s = addHelpLabel s;
                  s = move_tempPoints s;
                  s = move_area_first s
              in move_line point s))"

text \<open>
  \<open>onMouseClicked\<close>. \<open>lastClickTime\<close> counts as set when it is neither \<open>undefined\<close> nor 0.
  The point is pushed onto \<open>pointArray\<close> whether or not the vertex was written.
\<close>

definition debounced :: "int \<Rightarrow> measure \<Rightarrow> bool" where
  "debounced now s = (case lastClickTime s of None \<Rightarrow> False | Some t \<Rightarrow> t \<noteq> 0 \<and> now - t < 500)"

definition click_polyline :: "Vector3 \<Rightarrow> nat \<Rightarrow> measure \<Rightarrow> measure" where
  "click_polyline point count s0 =
     (case polyline s0 of
        None \<Rightarrow> s0
      | Some line \<Rightarrow>
          if count * 3 + 3 < MAX_POINTS then
            (let i = count * 3;
                 s = writeVertex line i point s0;
                 s = setDrawRange line (count + 1) s;
                 s = (case tempLabel s of
                        None \<Rightarrow> s
                      | Some l \<Rightarrow> object_add line l (s\<lparr>tempLineLabelArr := tempLineLabelArr s @ [l]\<rparr>))
             in if fontSize s = 0 then s\<lparr>fontSize := tempFontSize s\<rparr> else s)
          else
            s0\<lparr>console := console s0 @
                [(Error, ''Failed to get attributes.position, or number of points exceeded MAX_POINTS!'')]\<rparr>)"

definition click_faces :: "Vector3 \<Rightarrow> measure \<Rightarrow> measure" where
  "click_faces point s0 =
     (case faces s0 of
        None \<Rightarrow> s0
      | Some f \<Rightarrow>
          if mode s0 = Area then
            (let len = length (pointArray s0);
                 s = (if len > 2 then
                        s0\<lparr>pointsArray := pointsArray s0 @
                            [pointArray s0 ! 0, point, pointArray s0 ! (len - 1)]\<rparr>
                      else s0\<lparr>pointsArray := pointsArray s0 @ [point]\<rparr>)
             in setFromPoints f (pointsArray s) s)
          else s0)"

definition click_push :: "Vector3 \<Rightarrow> measure \<Rightarrow> measure" where
  "click_push point s = s\<lparr>pointArray := pointArray s @ [point]\<rparr>"

definition click_auto :: "measure \<Rightarrow> measure" where
  "click_auto s = (if mode s = Angle \<and> length (pointArray s) \<ge> 3 then complete_measure s else s)"

definition onMouseClicked :: "event \<Rightarrow> measure \<Rightarrow> measure" where
  "onMouseClicked e s0 =
     (if \<not> raycaster s0 \<or> isCompleted s0 then s0
      else case getClosestIntersection e s0 of
             None \<Rightarrow> s0
           | Some point \<Rightarrow>
               if debounced (ev_now e) s0 then s0
               else
                 (let s = s0\<lparr>lastClickTime := Some (ev_now e)\<rparr>;
                      count = length (pointArray s);
                      s = click_polyline point count s;
                      s = click_faces point s;
                      s = click_push point s
                  in click_auto s))"

definition mouseup :: "event \<Rightarrow> measure \<Rightarrow> measure" where
  "mouseup e s = (if \<not> mouseMoved s then onMouseClicked e s else s)"

definition dblclick :: "event \<Rightarrow> measure \<Rightarrow> measure" where
  "dblclick e s = complete_measure s"

definition keydown :: "event \<Rightarrow> measure \<Rightarrow> measure" where
  "keydown e s =
     (if ev_key e = ''Enter'' then complete_measure s
      else if ev_key e = ''Escape'' then cancel s
      else s)"

subsection \<open>Events and calls from outside\<close>

fun handle :: "handler \<Rightarrow> event \<Rightarrow> measure \<Rightarrow> measure" where
  "handle H_mousedown e s = mousedown e s"
| "handle H_mousemove e s = mousemove e s"
| "handle H_mouseup e s = mouseup e s"
| "handle H_dblclick e s = dblclick e s"
| "handle H_keydown e s = keydown e s"

text \<open>
  Dispatching an event of a type runs the handlers registered for that type, in the order of
  registration.
\<close>

definition dispatch :: "(eventType \<times> handler) list \<Rightarrow> eventType \<Rightarrow> event \<Rightarrow> measure \<Rightarrow> measure" where
  "dispatch ls ty e s = fold (\<lambda>h. handle h e) (map snd (filter (\<lambda>l. fst l = ty) ls)) s"

text \<open>
  What can happen to a \<open>Measure\<close>: a call of a public method, an event on the canvas or on
  the window, and the font loader's callback.
\<close>

datatype action =
    Open "MeasureMode option"
  | Close
  | Cancel
  | Complete
  | CanvasEvent eventType event
  | WindowEvent eventType event
  | FontLoaded

fun step :: "action \<Rightarrow> measure \<Rightarrow> measure" where
  "step (Open m) s = open_measure m s"
| "step Close s = close s"
| "step Cancel s = cancel s"
| "step Complete s = complete_measure s"
| "step (CanvasEvent ty e) s = dispatch (canvasListeners s) ty e s"
| "step (WindowEvent ty e) s = dispatch (windowListeners s) ty e s"
| "step FontLoaded s = s\<lparr>font := True\<rparr>"

definition run :: "action list \<Rightarrow> measure \<Rightarrow> measure" where
  "run as s = fold step as s"

text \<open>
  The state after the constructor, for a scene that holds the objects \<open>scene0\<close>: the field
  initialisers of the class, no listener of the tool, and a counter above every identity in
  use.
\<close>

definition new_Measure :: "obj list \<Rightarrow> MeasureMode \<Rightarrow> measure" where
  "new_Measure scene0 md =
     \<lparr>mode = md, font = False, helpLabel = None, mouseMoved = False, isCompleted = False,
      points = None, polyline = None, faces = None, curve = None, tempPoints = None,
      tempLine = None, tempLineForArea = None, tempLabel = None, tempLineLabelArr = [],
      pointArray = [], pointsArray = [], fontSize = 0, tempFontSize = 0,
      lastClickTime = None, raycaster = False, canvasListeners = [], windowListeners = [],
      sceneChildren = scene0, childrenOf = (\<lambda>x. []), position = (\<lambda>x. []),
      drawCount = (\<lambda>x. None), dragObjects = [], cursor = '''', console = [],
      nextId = Suc (fold max (map oid scene0) 0)\<rparr>"

subsection \<open>Auxiliary notions for stating results\<close>

text \<open>
  What \<open>close()\<close> leaves of the scene's children and of the canvas listeners, and the
  children of objects after the labels \<open>xs\<close> are removed from the polyline \<open>pl\<close> or after
  \<open>x\<close> is detached from its parent.
\<close>

definition close_scene :: "measure \<Rightarrow> obj list" where
  "close_scene s =
     filter (\<lambda>y. Some y \<noteq> tempPoints s \<and> Some y \<noteq> tempLine s \<and>
        Some y \<noteq> tempLineForArea s \<and> Some y \<noteq> points s \<and> Some y \<noteq> polyline s \<and>
        Some y \<noteq> faces s \<and> Some y \<noteq> curve s \<and> Some y \<noteq> helpLabel s \<and>
        Some y \<noteq> tempLabel s) (sceneChildren s)"

definition close_listeners :: "(eventType \<times> handler) list \<Rightarrow> (eventType \<times> handler) list" where
  "close_listeners ls =
     filter (\<lambda>l. l \<noteq> (Mousedown, H_mousedown) \<and> l \<noteq> (Mousemove, H_mousemove) \<and>
          l \<noteq> (Mouseup, H_mouseup) \<and> l \<noteq> (Dblclick, H_dblclick)) ls"

definition drop_children :: "obj option \<Rightarrow> obj list \<Rightarrow> (obj \<Rightarrow> obj list) \<Rightarrow> obj \<Rightarrow> obj list" where
  "drop_children pl xs ch =
     (case pl of None \<Rightarrow> ch | Some l \<Rightarrow> ch(l := filter (\<lambda>y. y \<notin> set xs) (ch l)))"

definition detach :: "obj \<Rightarrow> (obj \<Rightarrow> obj list) \<Rightarrow> obj \<Rightarrow> obj list" where
  "detach x ch = (\<lambda>p. removeAll x (ch p))"

text \<open>The labels that \<open>complete()\<close> registers as draggable: those found by the traversal of the polyline.\<close>

definition drag_labels :: "obj option \<Rightarrow> (obj \<Rightarrow> obj list) \<Rightarrow> obj list" where
  "drag_labels pl ch =
     (case pl of None \<Rightarrow> [] | Some l \<Rightarrow> filter (\<lambda>object. oname object = LABEL_NAME) (l # ch l))"

text \<open>The mode of the session that \<open>open(m)\<close> starts.\<close>

definition open_mode_of :: "MeasureMode option \<Rightarrow> measure \<Rightarrow> MeasureMode" where
  "open_mode_of m s = (case m of None \<Rightarrow> mode s | Some md \<Rightarrow> md)"

text \<open>
  The geometry objects of a session (point cloud, polyline, and the filled polygon in Area
  mode), and the condition that \<open>new\<close> yields objects that are not in the scene yet.
\<close>

definition option_list :: "'a option \<Rightarrow> 'a list" where
  "option_list x = (case x of None \<Rightarrow> [] | Some y \<Rightarrow> [y])"

definition session_geometry :: "measure \<Rightarrow> obj list" where
  "session_geometry s =
     option_list (points s) @ option_list (polyline s) @
     (if mode s = Area then option_list (faces s) else [])"

definition fresh_ids :: "measure \<Rightarrow> bool" where
  "fresh_ids s = list_all (\<lambda>x. oid x < nextId s) (sceneChildren s)"

text \<open>
  A click is accepted when \<open>onMouseClicked\<close> gets past its guards: the session is open and
  not completed, the hit test finds a point, and the click is not suppressed.
\<close>

definition accepted :: "event \<Rightarrow> measure \<Rightarrow> bool" where
  "accepted e s \<longleftrightarrow>
     raycaster s \<and> \<not> isCompleted s \<and> getClosestIntersection e s \<noteq> None \<and>
     \<not> debounced (ev_now e) s"

text \<open>Sequences of actions without a call of \<open>open\<close>.\<close>

fun is_open :: "action \<Rightarrow> bool" where
  "is_open (Open m) = True"
| "is_open a = False"

definition no_open :: "action list \<Rightarrow> bool" where
  "no_open acts = list_all (\<lambda>a. \<not> is_open a) acts"

text \<open>
  \<open>clicked_since t s\<close>: a click has passed the guards of \<open>onMouseClicked\<close> at the time \<open>t\<close>
  or later, and \<open>lastClickTime\<close> holds the time of the last one.
\<close>

definition clicked_since :: "int \<Rightarrow> measure \<Rightarrow> bool" where
  "clicked_since t s = (case lastClickTime s of None \<Rightarrow> False | Some u \<Rightarrow> t \<le> u)"

text \<open>
  The listeners of an open session on a canvas that had none, an event whose ray hits an
  object of the scene at distance 1 in the point \<open>p\<close> at time \<open>t\<close>, and a primary click
  there: pointer down, then pointer up, without movement.
\<close>

definition tool_listeners :: "(eventType \<times> handler) list" where
  "tool_listeners =
     [(Mousedown, H_mousedown), (Mousemove, H_mousemove), (Mouseup, H_mouseup),
      (Contextmenu, H_dblclick)]"

definition hit_event :: "Vector3 \<Rightarrow> int \<Rightarrow> event" where
  "hit_event p t = \<lparr>ev_hits = [Intersection ''model'' 1 p], ev_key = [], ev_now = t\<rparr>"

definition click_at :: "Vector3 \<Rightarrow> int \<Rightarrow> action list" where
  "click_at p t = [CanvasEvent Mousedown (hit_event p t), CanvasEvent Mouseup (hit_event p t)]"

text \<open>
  \<open>n\<close> clicks one second apart, and the Distance session of a new \<open>Measure\<close> after them.
\<close>

definition clicks :: "nat \<Rightarrow> action list" where
  "clicks n = concat (map (\<lambda>i. click_at (Vector3 0 0 0) (1000 * (int i + 1))) [0..<n])"

definition distance_clicks :: "nat \<Rightarrow> measure" where
  "distance_clicks n = run (clicks n) (open_measure (Some Distance) (new_Measure [] Distance))"

definition capacity_error :: "logLevel \<times> string" where
  "capacity_error =
     (Error, ''Failed to get attributes.position, or number of points exceeded MAX_POINTS!'')"

text \<open>Clicks at 1000, 1300 and 1600 ms, and three clicks one second apart.\<close>

definition double_click :: "action list" where
  "double_click = click_at (Vector3 0 0 0) 1000 @ click_at (Vector3 0 0 0) 1300"

definition triple_click :: "action list" where
  "triple_click =
     click_at (Vector3 0 0 0) 1000 @ click_at (Vector3 0 0 0) 1300 @ click_at (Vector3 0 0 0) 1600"

definition three_clicks :: "action list" where
  "three_clicks =
     click_at (Vector3 1 0 0) 1000 @ click_at (Vector3 0 0 0) 2000 @ click_at (Vector3 0 1 0) 3000"

text \<open>
  What holds in an Angle session: at most three points, and three only when completed. And
  what holds once a session is completed with the points \<open>pa\<close>: it stays completed, with
  these points or (after \<open>close\<close>) none.
\<close>

definition angle_session :: "measure \<Rightarrow> bool" where
  "angle_session s \<longleftrightarrow>
     mode s = Angle \<and>
     (length (pointArray s) < 3 \<or> length (pointArray s) = 3 \<and> isCompleted s)"

definition completed_with :: "Vector3 list \<Rightarrow> measure \<Rightarrow> bool" where
  "completed_with pa s \<longleftrightarrow> isCompleted s \<and> (pointArray s = pa \<or> pointArray s = [])"

section \<open>Properties of the numeric functions\<close>

subsection \<open>Rounding\<close>

text \<open>
  \<open>round_even\<close> is within a half of its argument and monotone; \<open>rnd\<close> is monotone, odd, and
  leaves a number alone whose scaled value is an integer. The lemmas \<open>rnd_eval\<close> compute
  \<open>rnd\<close> of a given number from its binade.
\<close>

lemma round_even_int: "round_even (of_int n) = n"
  by (simp add: round_even_def)

lemma round_even_lower: "q - 1 / 2 \<le> of_int (round_even q)"
  unfolding round_even_def Let_def by (auto; linarith)

lemma round_even_upper: "of_int (round_even q) \<le> q + 1 / 2"
  unfolding round_even_def Let_def by (auto; linarith)

lemma round_even_floor: "\<lfloor>q\<rfloor> \<le> round_even q \<and> round_even q \<le> \<lfloor>q\<rfloor> + 1"
  unfolding round_even_def Let_def by auto

lemma round_even_mono: "q \<le> q' \<Longrightarrow> round_even q \<le> round_even q'"
proof -
  assume le: "q \<le> q'"
  have f: "\<lfloor>q\<rfloor> \<le> \<lfloor>q'\<rfloor>" using le by (rule floor_mono)
  show ?thesis
  proof (cases "\<lfloor>q\<rfloor> = \<lfloor>q'\<rfloor>")
    case True
    then show ?thesis using le unfolding round_even_def Let_def by auto
  next
    case False
    then have "\<lfloor>q\<rfloor> + 1 \<le> \<lfloor>q'\<rfloor>" using f by simp
    then show ?thesis using round_even_floor[of q] round_even_floor[of q'] by linarith
  qed
qed

lemma ulp_pos: "0 < ulp x"
  by (simp add: ulp_def)

lemma exponent_eq:
  assumes "2 powr of_int e \<le> \<bar>x\<bar>" "\<bar>x\<bar> < 2 powr (of_int e + 1)" "- 1022 \<le> e"
  shows "exponent x = e"
proof -
  have p: "0 < \<bar>x\<bar>" using assms(1) by (smt (verit) powr_gt_zero)
  have "of_int e \<le> log 2 \<bar>x\<bar>" using assms(1) p by (simp add: le_log_iff)
  moreover have "log 2 \<bar>x\<bar> < of_int e + 1" using assms(2) p by (simp add: log_less_iff)
  ultimately have "\<lfloor>log 2 \<bar>x\<bar>\<rfloor> = e" by linarith
  then show ?thesis using assms(3) by (simp add: exponent_def)
qed

lemma exponent_mono:
  assumes "0 < x" "x \<le> y"
  shows "exponent x \<le> exponent y"
proof -
  have "log 2 \<bar>x\<bar> \<le> log 2 \<bar>y\<bar>" using assms by simp
  then have "\<lfloor>log 2 \<bar>x\<bar>\<rfloor> \<le> \<lfloor>log 2 \<bar>y\<bar>\<rfloor>" by (rule floor_mono)
  then show ?thesis by (simp add: exponent_def)
qed

text \<open>The scaled value lies below \<open>2^53\<close>, and from \<open>2^52\<close> on for a normal number.\<close>

lemma scaled_upper:
  assumes "0 < x"
  shows "x / ulp x < 2 ^ 53"
proof -
  have "log 2 x < of_int \<lfloor>log 2 x\<rfloor> + 1" by linarith
  also have "\<dots> \<le> of_int (exponent x) + 1" using assms by (simp add: exponent_def)
  finally have "x < 2 powr (of_int (exponent x) + 1)"
    using assms by (simp add: log_less_iff)
  also have "\<dots> = ulp x * 2 ^ 53"
    by (simp add: ulp_def powr_diff powr_add)
  finally show ?thesis using ulp_pos[of x] by (simp add: pos_divide_less_eq mult.commute)
qed

lemma scaled_lower:
  assumes "0 < x" "- 1022 \<le> \<lfloor>log 2 x\<rfloor>"
  shows "2 ^ 52 \<le> x / ulp x"
proof -
  have e: "exponent x = \<lfloor>log 2 x\<rfloor>" using assms by (simp add: exponent_def)
  have "2 powr of_int \<lfloor>log 2 x\<rfloor> \<le> x"
    using assms(1) by (subst le_log_iff[symmetric]) simp_all
  then have "2 powr of_int (exponent x) \<le> x" by (simp only: e)
  moreover have "2 powr of_int (exponent x) = ulp x * 2 ^ 52"
    by (simp add: ulp_def powr_diff)
  ultimately show ?thesis using ulp_pos[of x] by (simp add: pos_le_divide_eq mult.commute)
qed

lemma rnd_nonneg: "0 \<le> x \<Longrightarrow> 0 \<le> rnd x"
proof -
  assume "0 \<le> x"
  then have "0 \<le> x / ulp x" using ulp_pos[of x] by simp
  then have "round_even 0 \<le> round_even (x / ulp x)" by (rule round_even_mono)
  then have "0 \<le> round_even (x / ulp x)" by (simp add: round_even_def)
  then show ?thesis using ulp_pos[of x] by (simp add: rnd_def)
qed

lemma rnd_upper:
  assumes "0 < x"
  shows "rnd x \<le> 2 powr (of_int (exponent x) + 1)"
proof -
  have "round_even (x / ulp x) \<le> round_even (of_int (2 ^ 53))"
    using scaled_upper[OF assms] by (intro round_even_mono) simp
  then have "round_even (x / ulp x) \<le> 2 ^ 53" by (simp only: round_even_int)
  then have "of_int (round_even (x / ulp x)) \<le> (2 ^ 53 :: real)"
    by (metis of_int_le_iff of_int_numeral of_int_power)
  then have "ulp x * of_int (round_even (x / ulp x)) \<le> ulp x * 2 ^ 53"
    using ulp_pos[of x] by simp
  also have "\<dots> = 2 powr (of_int (exponent x) + 1)"
    by (simp add: ulp_def powr_diff powr_add)
  finally show ?thesis using assms by (simp add: rnd_def)
qed

lemma rnd_lower:
  assumes "0 < x" "- 1022 \<le> \<lfloor>log 2 x\<rfloor>"
  shows "2 powr of_int (exponent x) \<le> rnd x"
proof -
  have "round_even (of_int (2 ^ 52)) \<le> round_even (x / ulp x)"
    using scaled_lower[OF assms] by (intro round_even_mono) simp
  then have "2 ^ 52 \<le> round_even (x / ulp x)" by (simp only: round_even_int)
  then have "(2 ^ 52 :: real) \<le> of_int (round_even (x / ulp x))"
    by (metis of_int_le_iff of_int_numeral of_int_power)
  then have "ulp x * 2 ^ 52 \<le> ulp x * of_int (round_even (x / ulp x))"
    using ulp_pos[of x] by simp
  moreover have "ulp x * 2 ^ 52 = 2 powr of_int (exponent x)"
    by (simp add: ulp_def powr_diff)
  ultimately show ?thesis using assms by (simp add: rnd_def)
qed

lemma rnd_mono_pos:
  assumes "0 < x" "x \<le> y"
  shows "rnd x \<le> rnd y"
proof (cases "exponent x = exponent y")
  case True
  then have u: "ulp x = ulp y" by (simp add: ulp_def)
  have "x / ulp y \<le> y / ulp y" using assms ulp_pos[of y] by (simp add: divide_right_mono)
  then have "round_even (x / ulp y) \<le> round_even (y / ulp y)" by (rule round_even_mono)
  then show ?thesis using assms ulp_pos[of y] by (simp add: rnd_def u)
next
  case False
  then have lt: "exponent x < exponent y" using exponent_mono[OF assms] by simp
  have y: "0 < y" using assms by simp
  have n: "- 1022 \<le> \<lfloor>log 2 y\<rfloor>"
    using lt y by (simp add: exponent_def max_def split: if_splits)
  have e: "exponent x + 1 \<le> exponent y" using lt by simp
  have "rnd x \<le> 2 powr (of_int (exponent x) + 1)" using assms(1) by (rule rnd_upper)
  also have "\<dots> \<le> 2 powr of_int (exponent y)"
  proof (rule powr_mono)
    show "real_of_int (exponent x) + 1 \<le> real_of_int (exponent y)" using e by linarith
  qed simp
  also have "\<dots> \<le> rnd y" using y n by (rule rnd_lower)
  finally show ?thesis .
qed

lemma rnd_mono: "0 \<le> x \<Longrightarrow> x \<le> y \<Longrightarrow> rnd x \<le> rnd y"
  using rnd_mono_pos[of x y] rnd_nonneg[of y] by (cases "x = 0") (auto simp: rnd_def)

text \<open>A number whose scaled value is an integer is its own rounding.\<close>

lemma rnd_exact:
  assumes "x / ulp x = of_int k"
  shows "rnd x = x"
proof -
  have "ulp x * of_int (round_even (x / ulp x)) = ulp x * (x / ulp x)"
    by (simp only: assms round_even_int)
  also have "\<dots> = x" using ulp_pos[of x] by simp
  finally show ?thesis by (simp add: rnd_def)
qed


lemma round_even_eqI:
  assumes "of_int k - 1 / 2 < q" "q < of_int k + 1 / 2"
  shows "round_even q = k"
proof -
  have "\<lfloor>q\<rfloor> = k \<or> \<lfloor>q\<rfloor> = k - 1" using assms by linarith
  then show ?thesis
  proof
    assume f: "\<lfloor>q\<rfloor> = k"
    then show ?thesis using assms unfolding round_even_def Let_def by auto
  next
    assume f: "\<lfloor>q\<rfloor> = k - 1"
    then show ?thesis using assms unfolding round_even_def Let_def by auto
  qed
qed

lemma rnd_eval:
  assumes "2 powr of_int e \<le> \<bar>x\<bar>" "\<bar>x\<bar> < 2 powr (of_int e + 1)" "- 1022 \<le> e"
    and "round_even (x / 2 powr (of_int e - 52)) = k"
  shows "rnd x = 2 powr (of_int e - 52) * of_int k"
proof -
  have e: "exponent x = e" using assms(1-3) by (rule exponent_eq)
  have "x \<noteq> 0" using assms(1) by (smt (verit) powr_gt_zero)
  then show ?thesis using assms(4) by (simp add: rnd_def ulp_def e)
qed

lemma pow2_int: "2 powr of_int (int e) = (2 :: real) ^ e"
  by (simp add: powr_realpow)

lemma pow2_int_Suc: "2 powr (of_int (int e) + 1) = (2 :: real) * 2 ^ e"
  by (simp add: powr_add powr_realpow)

lemma pow2_neg: "2 powr (- real m) = 1 / (2 :: real) ^ m"
  by (simp add: powr_minus powr_realpow inverse_eq_divide)

lemma rnd_eval_hi:
  assumes "2 ^ e \<le> \<bar>x\<bar>" "\<bar>x\<bar> < 2 * 2 ^ e" "52 \<le> e"
    and "round_even (x / 2 ^ (e - 52)) = k"
  shows "rnd x = 2 ^ (e - 52) * of_int k"
proof -
  have "of_int (int e) - 52 = real (e - 52)" using assms(3) by simp
  then have u: "2 powr (of_int (int e) - 52) = (2 :: real) ^ (e - 52)"
    by (simp only: powr_realpow[of 2, simplified])
  have "rnd x = 2 powr (of_int (int e) - 52) * of_int k"
  proof (rule rnd_eval)
    show "2 powr of_int (int e) \<le> \<bar>x\<bar>" using assms(1) by (simp only: pow2_int)
    show "\<bar>x\<bar> < 2 powr (of_int (int e) + 1)" using assms(2) by (simp only: pow2_int_Suc)
    show "- 1022 \<le> int e" by simp
    show "round_even (x / 2 powr (of_int (int e) - 52)) = k" using assms(4) by (simp only: u)
  qed
  then show ?thesis by (simp only: u)
qed

lemma rnd_eval_lo:
  assumes "2 ^ e \<le> \<bar>x\<bar>" "\<bar>x\<bar> < 2 * 2 ^ e" "e \<le> 52"
    and "round_even (x * 2 ^ (52 - e)) = k"
  shows "rnd x = of_int k / 2 ^ (52 - e)"
proof -
  have "of_int (int e) - 52 = - real (52 - e)" using assms(3) by simp
  then have u: "2 powr (of_int (int e) - 52) = 1 / (2 :: real) ^ (52 - e)"
    by (simp only: pow2_neg)
  have "rnd x = 2 powr (of_int (int e) - 52) * of_int k"
  proof (rule rnd_eval)
    show "2 powr of_int (int e) \<le> \<bar>x\<bar>" using assms(1) by (simp only: pow2_int)
    show "\<bar>x\<bar> < 2 powr (of_int (int e) + 1)" using assms(2) by (simp only: pow2_int_Suc)
    show "- 1022 \<le> int e" by simp
    show "round_even (x / 2 powr (of_int (int e) - 52)) = k" using assms(4) unfolding u by simp
  qed
  then show ?thesis unfolding u by simp
qed

lemma rnd_eval_neg:
  assumes "1 / 2 ^ m \<le> \<bar>x\<bar>" "\<bar>x\<bar> < 2 / 2 ^ m" "m \<le> 1022"
    and "round_even (x * 2 ^ (52 + m)) = k"
  shows "rnd x = of_int k / 2 ^ (52 + m)"
proof -
  have "of_int (- int m) - 52 = - real (52 + m)" by simp
  then have u: "2 powr (of_int (- int m) - 52) = 1 / (2 :: real) ^ (52 + m)"
    by (simp only: pow2_neg)
  have a: "2 powr of_int (- int m) = 1 / (2 :: real) ^ m"
    using pow2_neg[of m] by simp
  have b: "2 powr (of_int (- int m) + 1) = 2 / (2 :: real) ^ m"
    by (simp add: powr_diff powr_realpow)
  have "rnd x = 2 powr (of_int (- int m) - 52) * of_int k"
  proof (rule rnd_eval)
    show "2 powr of_int (- int m) \<le> \<bar>x\<bar>" using assms(1) by (simp only: a)
    show "\<bar>x\<bar> < 2 powr (of_int (- int m) + 1)" using assms(2) by (simp only: b)
    show "- 1022 \<le> - int m" using assms(3) by simp
    show "round_even (x / 2 powr (of_int (- int m) - 52)) = k" using assms(4) unfolding u by simp
  qed
  then show ?thesis unfolding u by simp
qed

lemma round_even_minus: "round_even (- q) = - round_even q"
proof (cases "q = of_int \<lfloor>q\<rfloor>")
  case True
  then obtain n where n: "q = of_int n" ..
  have "round_even (of_int (- n)) = - round_even (of_int n)" by (simp only: round_even_int)
  then show ?thesis by (simp add: n)
next
  case False
  then have f: "\<lfloor>- q\<rfloor> = - \<lfloor>q\<rfloor> - 1" by (simp add: floor_minus ceiling_altdef)
  have d: "0 < q - of_int \<lfloor>q\<rfloor>" using False by linarith
  show ?thesis
    unfolding round_even_def Let_def f using d by (auto simp: algebra_simps)
qed

lemma exponent_minus: "exponent (- x) = exponent x"
  by (simp add: exponent_def)

lemma rnd_minus: "rnd (- x) = - rnd x"
  by (simp add: rnd_def ulp_def exponent_minus round_even_minus)

lemma rnd_abs_le:
  assumes "\<bar>x\<bar> \<le> y"
  shows "\<bar>rnd x\<bar> \<le> rnd y"
proof (cases "0 \<le> x")
  case True
  then have "rnd x \<le> rnd y" using assms by (intro rnd_mono) simp_all
  then show ?thesis using rnd_nonneg[OF True] by simp
next
  case False
  then have "rnd (- x) \<le> rnd y" using assms by (intro rnd_mono) simp_all
  moreover have "0 \<le> rnd (- x)" using False by (intro rnd_nonneg) simp
  ultimately show ?thesis by (simp add: rnd_minus)
qed

text \<open>
  Bounds of \<open>\<pi>\<close> from Machin's formula and the alternating series of the arc tangent,
  close enough to round \<open>\<pi>\<close>.
\<close>

lemma arctan_series_bounds:
  assumes "0 \<le> x" "x \<le> 1"
  shows "(\<Sum>k<2 * n. (- 1) ^ k * (1 / real (k * 2 + 1) * x ^ (k * 2 + 1))) \<le> arctan x"
    and "arctan x \<le> (\<Sum>k<2 * n + 1. (- 1) ^ k * (1 / real (k * 2 + 1) * x ^ (k * 2 + 1)))"
proof -
  let ?a = "\<lambda>k. 1 / real (k * 2 + 1) * x ^ (k * 2 + 1)"
  have z: "?a \<longlonglongrightarrow> 0" using assms by (intro zeroseq_arctan_series) simp
  have p: "0 \<le> ?a k" for k using assms by simp
  have m: "?a (Suc k) \<le> ?a k" for k
  proof -
    have "x ^ (Suc k * 2 + 1) \<le> x ^ (k * 2 + 1)"
      using assms by (intro power_decreasing) simp_all
    moreover have "1 / real (Suc k * 2 + 1) \<le> 1 / real (k * 2 + 1)"
      by (simp add: field_simps)
    ultimately show ?thesis
      using assms by (intro mult_mono) simp_all
  qed
  have s: "arctan x = (\<Sum>k. (- 1) ^ k * ?a k)"
    using assms by (intro arctan_series) simp
  show "(\<Sum>k<2 * n. (- 1) ^ k * ?a k) \<le> arctan x"
    unfolding s by (rule summable_Leibniz'(2)[of ?a, OF z p m])
  show "arctan x \<le> (\<Sum>k<2 * n + 1. (- 1) ^ k * ?a k)"
    unfolding s by (rule summable_Leibniz'(4)[of ?a, OF z p m])
qed

lemma pi_machin: "pi = 16 * arctan (1 / 5) - 4 * arctan (1 / 239)"
  using machin by simp

lemma pi_bounds:
  "7074237752028439.9 / 2 ^ 51 < pi" "pi < 7074237752028440.4 / 2 ^ 51"
proof -
  have l5: "(\<Sum>k<2 * 6. (- 1) ^ k * (1 / real (k * 2 + 1) * (1 / 5) ^ (k * 2 + 1))) \<le> arctan (1 / 5)"
    by (rule arctan_series_bounds) simp_all
  have u5: "arctan (1 / 5) \<le> (\<Sum>k<2 * 6 + 1. (- 1) ^ k * (1 / real (k * 2 + 1) * (1 / 5) ^ (k * 2 + 1)))"
    by (rule arctan_series_bounds) simp_all
  have l239: "(\<Sum>k<2 * 2. (- 1) ^ k * (1 / real (k * 2 + 1) * (1 / 239) ^ (k * 2 + 1))) \<le> arctan (1 / 239)"
    by (rule arctan_series_bounds) simp_all
  have u239: "arctan (1 / 239) \<le> (\<Sum>k<2 * 2 + 1. (- 1) ^ k * (1 / real (k * 2 + 1) * (1 / 239) ^ (k * 2 + 1)))"
    by (rule arctan_series_bounds) simp_all
  have L: "7074237752028439.9 / 2 ^ 51 <
      16 * (\<Sum>k<2 * 6. (- 1) ^ k * (1 / real (k * 2 + 1) * (1 / 5) ^ (k * 2 + 1)))
      - 4 * (\<Sum>k<2 * 2 + 1. (- 1) ^ k * (1 / real (k * 2 + 1) * (1 / 239) ^ (k * 2 + 1)))"
    by (simp add: eval_nat_numeral)
  have U: "16 * (\<Sum>k<2 * 6 + 1. (- 1) ^ k * (1 / real (k * 2 + 1) * (1 / 5) ^ (k * 2 + 1)))
      - 4 * (\<Sum>k<2 * 2. (- 1) ^ k * (1 / real (k * 2 + 1) * (1 / 239) ^ (k * 2 + 1)))
      < 7074237752028440.4 / 2 ^ 51"
    by (simp add: eval_nat_numeral)
  show "7074237752028439.9 / 2 ^ 51 < pi" using L l5 u239 unfolding pi_machin by linarith
  show "pi < 7074237752028440.4 / 2 ^ 51" using U u5 l239 unfolding pi_machin by linarith
qed

subsection \<open>calculateAngle\<close>

lemma js_mul_commute: "js_mul a b = js_mul b a"
  by (cases a; cases b) (simp_all add: mult.commute)

lemma dot_commute: "dot a b = dot b a"
  by (simp add: dot_def js_mul_commute)

lemma angleTo_commute: "angleTo a b = angleTo b a"
  by (simp only: angleTo_def dot_commute[of a b] js_mul_commute[of "lengthSq_d a" "lengthSq_d b"])

lemma calculateAngle_sym: "calculateAngle p0 p1 p2 = calculateAngle p2 p1 p0"
  by (simp add: calculateAngle_def Let_def angleTo_commute)

lemma fl_Finite: "rnd x = r \<Longrightarrow> \<bar>r\<bar> < 2 ^ 1024 \<Longrightarrow> fl x = Finite r"
  by (auto simp: fl_def Let_def)

lemma fl_0 [simp]: "fl 0 = Finite 0"
  by (simp add: fl_def rnd_def)

lemma rnd_pi: "rnd pi = PI_value"
proof -
  have "round_even (pi * 2 ^ (52 - 1)) = 7074237752028440"
  proof (rule round_even_eqI)
    show "of_int 7074237752028440 - 1 / 2 < pi * 2 ^ (52 - 1)"
      using pi_bounds(1) by (simp add: field_simps)
    show "pi * 2 ^ (52 - 1) < of_int 7074237752028440 + 1 / 2"
      using pi_bounds(2) by (simp add: field_simps)
  qed
  moreover have "2 ^ 1 \<le> \<bar>pi\<bar>" using pi_ge_two by simp
  moreover have "\<bar>pi\<bar> < 2 * 2 ^ 1" using pi_less_4 by simp
  ultimately have "rnd pi = of_int 7074237752028440 / 2 ^ (52 - 1)"
    by (intro rnd_eval_lo) simp_all
  then show ?thesis by (simp add: PI_value_def)
qed

lemma PI_value_bounds: "3 < PI_value" "PI_value < 4"
  by (simp_all add: PI_value_def)

lemma Math_PI_eq: "Math_PI = Finite PI_value"
  unfolding Math_PI_def using rnd_pi by (rule fl_Finite) (simp add: PI_value_def)

lemma rnd_pi_180: "rnd (PI_value * 180) = 4974073419394997 / 2 ^ 43"
  unfolding PI_value_def
  using rnd_eval_lo[of 9 "884279719003555 / 2 ^ 48 * 180" 4974073419394997] by (simp add: round_even_def)

lemma rnd_180: "rnd (4974073419394997 / 2 ^ 43 / PI_value) = 180"
  unfolding PI_value_def
  using rnd_eval_lo[of 7 "4974073419394997 / 2 ^ 43 / (884279719003555 / 2 ^ 48)" "180 * 2 ^ 45"]
  by (simp add: round_even_def)

lemma rnd_half_pi: "rnd (PI_value / 2) = PI_value / 2"
  unfolding PI_value_def
  using rnd_eval_lo[of 0 "884279719003555 / 2 ^ 48 / 2" 7074237752028440] by (simp add: round_even_def)

lemma fl_between:
  assumes "0 \<le> x" "x \<le> y" "rnd y = b" "b < 2 ^ 1024"
  shows "\<exists>r. fl x = Finite r \<and> 0 \<le> r \<and> r \<le> b"
proof -
  have "0 \<le> rnd x" using assms(1) by (rule rnd_nonneg)
  moreover have "rnd x \<le> b" using rnd_mono[OF assms(1,2)] assms(3) by simp
  ultimately show ?thesis using assms(4) by (simp add: fl_def)
qed

lemma clamp_cases:
  "clamp v (Finite (- 1)) (Finite 1) = NaN \<or>
   (\<exists>c. clamp v (Finite (- 1)) (Finite 1) = Finite c \<and> - 1 \<le> c \<and> c \<le> 1)"
  by (cases v) (simp_all add: clamp_def)

lemma Math_acos_range:
  assumes "v = NaN \<or> (\<exists>c. v = Finite c \<and> - 1 \<le> c \<and> c \<le> 1)"
  shows "Math_acos v = NaN \<or> (\<exists>r. Math_acos v = Finite r \<and> 0 \<le> r \<and> r \<le> PI_value)"
  using assms
proof
  assume "v = NaN" then show ?thesis by simp
next
  assume "\<exists>c. v = Finite c \<and> - 1 \<le> c \<and> c \<le> 1"
  then obtain c where c: "v = Finite c" "- 1 \<le> c" "c \<le> 1" by blast
  have "\<exists>r. fl (arccos c) = Finite r \<and> 0 \<le> r \<and> r \<le> PI_value"
    using arccos_lbound[OF c(2,3)] arccos_ubound[OF c(2,3)] rnd_pi
    by (rule fl_between) (simp add: PI_value_def)
  then show ?thesis using c by simp
qed

lemma angleTo_range:
  "angleTo a b = NaN \<or> (\<exists>r. angleTo a b = Finite r \<and> 0 \<le> r \<and> r \<le> PI_value)"
proof (cases "Math_sqrt (js_mul (lengthSq_d a) (lengthSq_d b)) = Finite 0")
  case True
  have "fl (PI_value / 2) = Finite (PI_value / 2)"
    using rnd_half_pi by (rule fl_Finite) (simp add: PI_value_def)
  then have "angleTo a b = Finite (PI_value / 2)"
    using True by (simp add: angleTo_def Math_PI_eq)
  moreover have "0 \<le> PI_value / 2" "PI_value / 2 \<le> PI_value" using PI_value_bounds by simp_all
  ultimately show ?thesis by blast
next
  case False
  then show ?thesis
    using Math_acos_range[OF clamp_cases] by (simp add: angleTo_def Let_def)
qed

lemma degrees_of_radians:
  assumes "0 \<le> r" "r \<le> PI_value"
  shows "degrees (js_div (js_mul (Finite r) (Finite 180)) Math_PI)"
proof -
  have "\<exists>q. fl (r * 180) = Finite q \<and> 0 \<le> q \<and> q \<le> 4974073419394997 / 2 ^ 43"
  proof (rule fl_between)
    show "0 \<le> r * 180" using assms(1) by simp
    show "r * 180 \<le> PI_value * 180" using assms(2) by simp
    show "rnd (PI_value * 180) = 4974073419394997 / 2 ^ 43" by (rule rnd_pi_180)
  qed simp
  then obtain q where q: "fl (r * 180) = Finite q" "0 \<le> q" "q \<le> 4974073419394997 / 2 ^ 43"
    by blast
  have "\<exists>d. fl (q / PI_value) = Finite d \<and> 0 \<le> d \<and> d \<le> 180"
  proof (rule fl_between)
    show "0 \<le> q / PI_value" using q(2) PI_value_bounds by simp
    show "q / PI_value \<le> 4974073419394997 / 2 ^ 43 / PI_value"
      using q(3) PI_value_bounds by (intro divide_right_mono) simp_all
    show "rnd (4974073419394997 / 2 ^ 43 / PI_value) = 180" by (rule rnd_180)
  qed simp
  then obtain d where d: "fl (q / PI_value) = Finite d" "0 \<le> d" "d \<le> 180"
    by blast
  have "js_div (js_mul (Finite r) (Finite 180)) Math_PI = Finite d"
    using PI_value_bounds by (simp add: Math_PI_eq q(1) d(1))
  then show ?thesis using d by (simp add: degrees_def)
qed

lemma calculateAngle_range:
  "calculateAngle p0 p1 p2 = NaN \<or> degrees (calculateAngle p0 p1 p2)"
proof -
  define a where "a = angleTo
     (Vector3d (js_sub (dvx p0) (dvx p1)) (js_sub (dvy p0) (dvy p1)) (js_sub (dvz p0) (dvz p1)))
     (Vector3d (js_sub (dvx p2) (dvx p1)) (js_sub (dvy p2) (dvy p1)) (js_sub (dvz p2) (dvz p1)))"
  have c: "calculateAngle p0 p1 p2 = js_div (js_mul a (Finite 180)) Math_PI"
    by (simp add: calculateAngle_def a_def)
  have "a = NaN \<or> (\<exists>r. a = Finite r \<and> 0 \<le> r \<and> r \<le> PI_value)"
    unfolding a_def by (rule angleTo_range)
  then show ?thesis
  proof
    assume "a = NaN"
    then show ?thesis by (simp add: c)
  next
    assume "\<exists>r. a = Finite r \<and> 0 \<le> r \<and> r \<le> PI_value"
    then obtain r where r: "a = Finite r" "0 \<le> r" "r \<le> PI_value" by blast
    show ?thesis unfolding c r(1) using degrees_of_radians[OF r(2,3)] by simp
  qed
qed


text \<open>Integers up to \<open>2^53\<close> in magnitude are their own rounding.\<close>

lemma is_int_add: "is_int x \<Longrightarrow> is_int y \<Longrightarrow> is_int (x + y)"
  unfolding is_int_def by (metis of_int_add floor_of_int)

lemma is_int_diff: "is_int x \<Longrightarrow> is_int y \<Longrightarrow> is_int (x - y)"
  unfolding is_int_def by (metis of_int_diff floor_of_int)

lemma is_int_mult: "is_int x \<Longrightarrow> is_int y \<Longrightarrow> is_int (x * y)"
  unfolding is_int_def by (metis of_int_mult floor_of_int)

lemma rnd_int:
  assumes "is_int x" "\<bar>x\<bar> \<le> 2 ^ 53"
  shows "rnd x = x"
proof (cases "x = 0")
  case True
  then show ?thesis by (simp add: rnd_def)
next
  case False
  obtain n where n: "x = of_int n" using assms(1) by (auto simp: is_int_def)
  have n0: "n \<noteq> 0" using False n by simp
  then have x1: "1 \<le> \<bar>x\<bar>" using n by (simp add: n flip: of_int_abs)
  have l0: "0 \<le> log 2 \<bar>x\<bar>" using x1 by simp
  have l1: "log 2 \<bar>x\<bar> \<le> 53"
    using x1 assms(2) by (simp add: log_le_iff powr_realpow[symmetric])
  define e where "e = \<lfloor>log 2 \<bar>x\<bar>\<rfloor>"
  have e0: "0 \<le> e" using l0 by (simp add: e_def)
  have e1: "e \<le> 53" using l1 by (simp add: e_def floor_le_iff)
  have ex: "exponent x = e" using e0 by (simp add: exponent_def e_def)
  show ?thesis
  proof (cases "e \<le> 52")
    case True
    define m where "m = nat (52 - e)"
    have "of_int e - 52 = - real m" using True by (simp add: m_def)
    then have u: "ulp x = 1 / 2 ^ m" by (simp only: ulp_def ex pow2_neg)
    have "x / ulp x = of_int (n * 2 ^ m)" unfolding u by (simp add: n)
    then show ?thesis by (rule rnd_exact)
  next
    case False
    then have e: "e = 53" using e1 by simp
    have "53 \<le> log 2 \<bar>x\<bar>" using e unfolding e_def by linarith
    then have "2 ^ 53 \<le> \<bar>x\<bar>" using x1 by (simp add: le_log_iff powr_realpow[symmetric])
    then have a: "\<bar>x\<bar> = 2 ^ 53" using assms(2) by simp
    have u: "ulp x = 2" by (simp add: ulp_def ex e)
    have "x = 2 ^ 53 \<or> x = - (2 ^ 53)" using a by linarith
    then have "x / ulp x = of_int (2 ^ 52) \<or> x / ulp x = of_int (- (2 ^ 52))"
      by (auto simp: u)
    then show ?thesis using rnd_exact by blast
  qed
qed

lemma fl_int: "is_int x \<Longrightarrow> \<bar>x\<bar> \<le> 2 ^ 53 \<Longrightarrow> fl x = Finite x"
  using rnd_int[of x] by (intro fl_Finite) simp_all


text \<open>
  On vectors with integer components up to 4096 in magnitude every operation of \<open>dot\<close> is
  exact, and the angle between such a vector and a positive multiple of it is 0.
\<close>

lemma sq_bound: "\<bar>a\<bar> \<le> 4096 \<Longrightarrow> \<bar>b\<bar> \<le> 4096 \<Longrightarrow> \<bar>a * b\<bar> \<le> (16777216 :: real)"
proof -
  assume "\<bar>a\<bar> \<le> 4096" "\<bar>b\<bar> \<le> 4096"
  then have "\<bar>a\<bar> * \<bar>b\<bar> \<le> 4096 * 4096" by (intro mult_mono) simp_all
  then show ?thesis by (simp add: abs_mult)
qed

lemma dot_int:
  assumes "is_int a1" "is_int a2" "is_int a3" "is_int b1" "is_int b2" "is_int b3"
    and "\<bar>a1\<bar> \<le> 4096" "\<bar>a2\<bar> \<le> 4096" "\<bar>a3\<bar> \<le> 4096"
    and "\<bar>b1\<bar> \<le> 4096" "\<bar>b2\<bar> \<le> 4096" "\<bar>b3\<bar> \<le> 4096"
  shows "dot (Vector3d (Finite a1) (Finite a2) (Finite a3)) (Vector3d (Finite b1) (Finite b2) (Finite b3))
     = Finite (a1 * b1 + a2 * b2 + a3 * b3)"
proof -
  have b: "\<bar>a1 * b1\<bar> \<le> 16777216" "\<bar>a2 * b2\<bar> \<le> 16777216" "\<bar>a3 * b3\<bar> \<le> 16777216"
    using assms by (simp_all add: sq_bound)
  have i: "is_int (a1 * b1)" "is_int (a2 * b2)" "is_int (a3 * b3)"
    using assms by (simp_all add: is_int_mult)
  have p: "fl (a1 * b1) = Finite (a1 * b1)" "fl (a2 * b2) = Finite (a2 * b2)"
      "fl (a3 * b3) = Finite (a3 * b3)"
    using b i by (simp_all add: fl_int)
  have s1: "fl (a1 * b1 + a2 * b2) = Finite (a1 * b1 + a2 * b2)"
    using b i by (intro fl_int is_int_add) simp_all
  have s2: "fl (a1 * b1 + a2 * b2 + a3 * b3) = Finite (a1 * b1 + a2 * b2 + a3 * b3)"
    using b i by (intro fl_int is_int_add) simp_all
  show ?thesis by (simp add: dot_def p s1 s2)
qed

lemma lengthSq_d_dot: "lengthSq_d v = dot v v"
  by (simp add: lengthSq_d_def dot_def)

lemma angleTo_int_scaled:
  assumes i: "is_int a1" "is_int a2" "is_int a3" "is_int (t * a1)" "is_int (t * a2)" "is_int (t * a3)"
    and b: "\<bar>a1\<bar> \<le> 4096" "\<bar>a2\<bar> \<le> 4096" "\<bar>a3\<bar> \<le> 4096"
      "\<bar>t * a1\<bar> \<le> 4096" "\<bar>t * a2\<bar> \<le> 4096" "\<bar>t * a3\<bar> \<le> 4096"
    and t: "0 < t" and nz: "a1 \<noteq> 0 \<or> a2 \<noteq> 0 \<or> a3 \<noteq> 0"
  shows "angleTo (Vector3d (Finite a1) (Finite a2) (Finite a3))
           (Vector3d (Finite (t * a1)) (Finite (t * a2)) (Finite (t * a3))) = Finite 0"
proof -
  define L where "L = a1 * a1 + a2 * a2 + a3 * a3"
  define D where "D = t * L"
  have Lpos: "0 < L"
    unfolding L_def using nz
    by (metis add_pos_nonneg add_nonneg_pos not_real_square_gt_zero zero_le_square add_nonneg_nonneg)
  have Dpos: "0 < D" using t Lpos by (simp add: D_def)
  have l0: "lengthSq_d (Vector3d (Finite a1) (Finite a2) (Finite a3)) = Finite L"
    unfolding lengthSq_d_dot L_def using i b by (intro dot_int) simp_all
  have l1: "lengthSq_d (Vector3d (Finite (t * a1)) (Finite (t * a2)) (Finite (t * a3)))
      = Finite (t * a1 * (t * a1) + t * a2 * (t * a2) + t * a3 * (t * a3))"
    unfolding lengthSq_d_dot using i b by (intro dot_int) simp_all
  have l1': "t * a1 * (t * a1) + t * a2 * (t * a2) + t * a3 * (t * a3) = t * D"
    by (simp add: D_def L_def algebra_simps)
  have d: "dot (Vector3d (Finite a1) (Finite a2) (Finite a3))
             (Vector3d (Finite (t * a1)) (Finite (t * a2)) (Finite (t * a3)))
      = Finite (a1 * (t * a1) + a2 * (t * a2) + a3 * (t * a3))"
    using i b by (intro dot_int) simp_all
  have d': "a1 * (t * a1) + a2 * (t * a2) + a3 * (t * a3) = D"
    by (simp add: D_def L_def algebra_simps)
  have Di: "is_int D"
    unfolding d'[symmetric]
    using is_int_mult[OF i(1) i(4)] is_int_mult[OF i(2) i(5)] is_int_mult[OF i(3) i(6)]
    by (simp add: is_int_add)
  have Db: "\<bar>D\<bar> \<le> 3 * 16777216"
  proof -
    have "\<bar>a1 * (t * a1)\<bar> \<le> 16777216" "\<bar>a2 * (t * a2)\<bar> \<le> 16777216" "\<bar>a3 * (t * a3)\<bar> \<le> 16777216"
      using b by (simp_all add: sq_bound)
    then show ?thesis unfolding d'[symmetric] by linarith
  qed
  have LtD: "L * (t * D) = D * D" by (simp add: D_def)
  have DDb: "\<bar>D * D\<bar> \<le> 2 ^ 53"
  proof -
    have "\<bar>D\<bar> * \<bar>D\<bar> \<le> (3 * 16777216) * (3 * 16777216)"
      using Db by (intro mult_mono) simp_all
    then show ?thesis by (simp add: abs_mult)
  qed
  have prod: "fl (L * (t * D)) = Finite (D * D)"
    unfolding LtD using Di DDb by (intro fl_int is_int_mult)
  have sq: "sqrt (D * D) = D" using Dpos by simp
  have "fl D = Finite D" using Di Db by (intro fl_int) simp_all
  then have den: "Math_sqrt (Finite (D * D)) = Finite D"
    using Dpos by (simp add: sq)
  have one: "fl 1 = Finite 1" by (rule fl_int) (simp_all add: is_int_def)
  have A: "js_mul (lengthSq_d (Vector3d (Finite a1) (Finite a2) (Finite a3)))
      (lengthSq_d (Vector3d (Finite (t * a1)) (Finite (t * a2)) (Finite (t * a3)))) = Finite (D * D)"
    by (simp only: l0 l1 l1' js_mul.simps prod)
  have q: "js_div (Finite D) (Finite D) = Finite 1" using Dpos by (simp add: one)
  have z: "Math_acos (clamp (Finite 1) (Finite (- 1)) (Finite 1)) = Finite 0"
    by (simp add: clamp_def)
  have nz': "Finite D \<noteq> Finite 0" using Dpos by simp
  show ?thesis
    unfolding angleTo_def Let_def A den d d' q z using nz' by simp
qed

lemma rnd_pi_half: "rnd (pi / 2) = PI_value / 2"
proof -
  have "round_even (pi / 2 * 2 ^ (52 - 0)) = 7074237752028440"
  proof (rule round_even_eqI)
    show "of_int 7074237752028440 - 1 / 2 < pi / 2 * 2 ^ (52 - 0)"
      using pi_bounds(1) by (simp add: field_simps)
    show "pi / 2 * 2 ^ (52 - 0) < of_int 7074237752028440 + 1 / 2"
      using pi_bounds(2) by (simp add: field_simps)
  qed
  moreover have "2 ^ 0 \<le> \<bar>pi / 2\<bar>" using pi_ge_two by simp
  moreover have "\<bar>pi / 2\<bar> < 2 * 2 ^ 0" using pi_less_4 by simp
  ultimately have "rnd (pi / 2) = of_int 7074237752028440 / 2 ^ (52 - 0)"
    by (intro rnd_eval_lo) simp_all
  then show ?thesis by (simp add: PI_value_def)
qed

lemma rnd_pi_90: "rnd (PI_value / 2 * 180) = 4974073419394997 / 2 ^ 44"
  unfolding PI_value_def
  using rnd_eval_lo[of 8 "884279719003555 / 2 ^ 48 / 2 * 180" 4974073419394997]
  by (simp add: round_even_def)

lemma rnd_90: "rnd (4974073419394997 / 2 ^ 44 / PI_value) = 90"
  unfolding PI_value_def
  using rnd_eval_lo[of 6 "4974073419394997 / 2 ^ 44 / (884279719003555 / 2 ^ 48)" "90 * 2 ^ 46"]
  by (simp add: round_even_def)

lemma diff_bound: "\<bar>x\<bar> \<le> 2048 \<Longrightarrow> \<bar>y\<bar> \<le> 2048 \<Longrightarrow> \<bar>x - y\<bar> \<le> (4096 :: real)"
  by linarith

lemma calculateAngle_collinear:
  assumes s: "sameSide t p0 p1 p2"
    and i: "small_integers p0" "small_integers p1" "small_integers p2"
  shows "calculateAngle (of_Vector3 p0) (of_Vector3 p1) (of_Vector3 p2) = Finite 0"
proof -
  define a1 where "a1 = vx p0 - vx p1"
  define a2 where "a2 = vy p0 - vy p1"
  define a3 where "a3 = vz p0 - vz p1"
  have t: "0 < t" using s by (simp add: sameSide_def)
  have e: "vx p2 - vx p1 = t * a1" "vy p2 - vy p1 = t * a2" "vz p2 - vz p1 = t * a3"
    using s by (simp_all add: sameSide_def a1_def a2_def a3_def)
  have ai: "is_int a1" "is_int a2" "is_int a3"
    using i unfolding a1_def a2_def a3_def small_integers_def by (simp_all add: is_int_diff)
  have c: "\<bar>vx p0\<bar> \<le> 2048" "\<bar>vy p0\<bar> \<le> 2048" "\<bar>vz p0\<bar> \<le> 2048"
      "\<bar>vx p1\<bar> \<le> 2048" "\<bar>vy p1\<bar> \<le> 2048" "\<bar>vz p1\<bar> \<le> 2048"
      "\<bar>vx p2\<bar> \<le> 2048" "\<bar>vy p2\<bar> \<le> 2048" "\<bar>vz p2\<bar> \<le> 2048"
    using i by (simp_all add: small_integers_def)
  have ab: "\<bar>a1\<bar> \<le> 4096" "\<bar>a2\<bar> \<le> 4096" "\<bar>a3\<bar> \<le> 4096"
    unfolding a1_def a2_def a3_def by (simp_all add: diff_bound c)
  have bi: "is_int (t * a1)" "is_int (t * a2)" "is_int (t * a3)"
    using i unfolding e[symmetric] small_integers_def by (simp_all add: is_int_diff)
  have bb: "\<bar>t * a1\<bar> \<le> 4096" "\<bar>t * a2\<bar> \<le> 4096" "\<bar>t * a3\<bar> \<le> 4096"
    unfolding e[symmetric] by (simp_all add: diff_bound c)
  have nz: "a1 \<noteq> 0 \<or> a2 \<noteq> 0 \<or> a3 \<noteq> 0"
    using s by (cases p0; cases p1) (auto simp: sameSide_def a1_def a2_def a3_def)
  have d0: "js_sub (Finite (vx p0)) (Finite (vx p1)) = Finite a1"
      "js_sub (Finite (vy p0)) (Finite (vy p1)) = Finite a2"
      "js_sub (Finite (vz p0)) (Finite (vz p1)) = Finite a3"
    using ai ab by (simp_all add: fl_int flip: a1_def a2_def a3_def)
  have d1: "js_sub (Finite (vx p2)) (Finite (vx p1)) = Finite (t * a1)"
      "js_sub (Finite (vy p2)) (Finite (vy p1)) = Finite (t * a2)"
      "js_sub (Finite (vz p2)) (Finite (vz p1)) = Finite (t * a3)"
    using bi bb by (simp_all add: fl_int e)
  have a: "angleTo (Vector3d (Finite a1) (Finite a2) (Finite a3))
             (Vector3d (Finite (t * a1)) (Finite (t * a2)) (Finite (t * a3))) = Finite 0"
    using ai bi ab bb t nz by (rule angleTo_int_scaled)
  show ?thesis
    unfolding calculateAngle_def Let_def of_Vector3_def Vector3d.sel d0 d1 a
    using PI_value_bounds by (simp add: Math_PI_eq)
qed

text \<open>
  Overflow: the square of \<open>huge\<close> is an infinity, and the quotient of two infinities is NaN.
\<close>

lemma rnd_pow2: "rnd (2 ^ n) = 2 ^ n"
proof -
  have e: "exponent (2 ^ n) = int n"
    by (rule exponent_eq) (simp_all add: powr_realpow powr_add)
  have "ulp (2 ^ n) * 2 ^ 52 = 2 powr (of_int (int n) - 52) * 2 powr 52"
    by (simp add: ulp_def e)
  also have "\<dots> = 2 powr of_int (int n)"
    by (simp only: powr_add[symmetric]) simp
  finally have "ulp (2 ^ n) * 2 ^ 52 = 2 ^ n" by (simp only: pow2_int)
  then have "2 ^ n / ulp (2 ^ n) = of_int (2 ^ 52)"
    using ulp_pos[of "2 ^ n"] by (simp add: field_simps)
  then show ?thesis by (rule rnd_exact)
qed

lemma fl_huge: "fl huge = Finite huge"
  unfolding huge_def
proof (rule fl_Finite[OF rnd_pow2])
  have "(2 :: real) ^ 600 < 2 ^ 1024" by (rule power_strict_increasing) simp_all
  moreover have "0 \<le> (2 :: real) ^ 600" by (rule zero_le_power) simp
  ultimately show "\<bar>(2 :: real) ^ 600\<bar> < 2 ^ 1024" by (simp only: abs_of_nonneg)
qed

lemma fl_huge_sq: "fl (huge * huge) = PosInf"
proof -
  have h: "huge * huge = 2 ^ 1200" by (simp only: huge_def power_add[symmetric]) simp
  have "(2 :: real) ^ 1024 \<le> 2 ^ 1200" by (rule power_increasing) simp_all
  then show ?thesis by (simp only: h fl_def Let_def rnd_pow2 if_True)
qed

lemma calculateAngle_overflow:
  "calculateAngle (of_Vector3 (Vector3 huge 0 0)) (of_Vector3 (Vector3 0 0 0)) (of_Vector3 (Vector3 huge 0 0)) = NaN"
proof -
  have l: "lengthSq_d (Vector3d (Finite huge) (Finite 0) (Finite 0)) = PosInf"
    by (simp add: lengthSq_d_def fl_huge_sq)
  have d: "dot (Vector3d (Finite huge) (Finite 0) (Finite 0))
      (Vector3d (Finite huge) (Finite 0) (Finite 0)) = PosInf"
    by (simp add: dot_def fl_huge_sq)
  have "angleTo (Vector3d (Finite huge) (Finite 0) (Finite 0))
      (Vector3d (Finite huge) (Finite 0) (Finite 0)) = NaN"
    by (simp add: angleTo_def l d clamp_def)
  then show ?thesis
    by (simp add: calculateAngle_def of_Vector3_def fl_huge)
qed

text \<open>
  The arc cosine of the number just below 1 is positive, and so is what \<open>calculateAngle\<close>
  makes of it.
\<close>

lemma arccos_lower:
  assumes "- 1 \<le> c" "c \<le> 1 - 1 / 2 ^ 53"
  shows "1 / 2 ^ 27 \<le> arccos c"
proof (rule ccontr)
  define x where "x = arccos c"
  assume "\<not> 1 / 2 ^ 27 \<le> arccos c"
  then have lt: "x < 1 / 2 ^ 27" by (simp add: x_def)
  have c1: "c \<le> 1" using assms(2) by simp
  have x0: "0 \<le> x" unfolding x_def using assms(1) c1 by (rule arccos_lbound)
  have cx: "cos x = c" unfolding x_def using assms(1) c1 by (rule cos_arccos)
  have "\<bar>sin (x / 2)\<bar> \<le> \<bar>x / 2\<bar>" by (rule abs_sin_x_le_abs_x)
  then have "\<bar>sin (x / 2)\<bar> \<le> 1 / 2 ^ 28" using lt x0 by simp
  then have "\<bar>sin (x / 2)\<bar> * \<bar>sin (x / 2)\<bar> \<le> (1 / 2 ^ 28) * (1 / 2 ^ 28)"
    by (intro mult_mono) simp_all
  then have "(sin (x / 2))\<^sup>2 \<le> 1 / 2 ^ 56" by (simp add: power2_eq_square)
  moreover have "cos x = 1 - 2 * (sin (x / 2))\<^sup>2" using cos_double_sin[of "x / 2"] by simp
  ultimately have "1 - 2 / 2 ^ 56 \<le> cos x" by simp
  then show False using assms(2) by (simp add: cx)
qed

lemma fl_between2:
  assumes "0 < a" "a \<le> x" "x \<le> y" "rnd a = a'" "rnd y = b" "b < 2 ^ 1024"
  shows "\<exists>r. fl x = Finite r \<and> a' \<le> r \<and> r \<le> b"
proof -
  have "a' \<le> rnd x" using rnd_mono_pos[OF assms(1,2)] assms(4) by simp
  moreover have x: "0 \<le> x" using assms(1,2) by simp
  have "0 \<le> rnd x" using x by (rule rnd_nonneg)
  moreover have "rnd x \<le> b" using rnd_mono[OF x assms(3)] assms(5) by simp
  ultimately show ?thesis using assms(6) by (simp add: fl_def)
qed

lemma rnd_small: "rnd (1 / 2 ^ 27) = 1 / 2 ^ 27" "rnd (1 / 2 ^ 29) = 1 / 2 ^ 29"
  using rnd_eval_neg[of 27 "1 / 2 ^ 27" "2 ^ 52"] rnd_eval_neg[of 29 "1 / 2 ^ 29" "2 ^ 52"]
  by (simp_all add: round_even_def)

lemma degrees_positive:
  assumes "- 1 \<le> c" "c \<le> 1 - 1 / 2 ^ 53"
  shows "\<exists>d. js_div (js_mul (Math_acos (Finite c)) (Finite 180)) Math_PI = Finite d \<and>
       1 / 2 ^ 29 \<le> d \<and> d \<le> 180"
proof -
  have c1: "c \<le> 1" using assms(2) by simp
  have "\<exists>r. fl (arccos c) = Finite r \<and> 1 / 2 ^ 27 \<le> r \<and> r \<le> PI_value"
  proof (rule fl_between2)
    show "1 / 2 ^ 27 \<le> arccos c" using assms by (rule arccos_lower)
    show "arccos c \<le> pi" using assms(1) c1 by (rule arccos_ubound)
    show "rnd (1 / 2 ^ 27) = 1 / 2 ^ 27" by (rule rnd_small)
    show "rnd pi = PI_value" by (rule rnd_pi)
  qed (simp_all add: PI_value_def)
  then obtain r where r: "fl (arccos c) = Finite r" "1 / 2 ^ 27 \<le> r" "r \<le> PI_value"
    by blast
  have "\<exists>q. fl (r * 180) = Finite q \<and> 1 / 2 ^ 27 \<le> q \<and> q \<le> 4974073419394997 / 2 ^ 43"
  proof (rule fl_between2)
    show "1 / 2 ^ 27 \<le> r * 180" using r(2) by simp
    show "r * 180 \<le> PI_value * 180" using r(3) by simp
    show "rnd (1 / 2 ^ 27) = 1 / 2 ^ 27" by (rule rnd_small)
    show "rnd (PI_value * 180) = 4974073419394997 / 2 ^ 43" by (rule rnd_pi_180)
  qed simp_all
  then obtain q where q: "fl (r * 180) = Finite q" "1 / 2 ^ 27 \<le> q" "q \<le> 4974073419394997 / 2 ^ 43"
    by blast
  have "\<exists>d. fl (q / PI_value) = Finite d \<and> 1 / 2 ^ 29 \<le> d \<and> d \<le> 180"
  proof (rule fl_between2)
    have "1 / 2 ^ 29 * PI_value \<le> 1 / 2 ^ 29 * 4" using PI_value_bounds by simp
    also have "\<dots> \<le> q" using q(2) by simp
    finally show "1 / 2 ^ 29 \<le> q / PI_value" using PI_value_bounds by (simp add: pos_le_divide_eq)
    show "q / PI_value \<le> 4974073419394997 / 2 ^ 43 / PI_value"
      using q(3) PI_value_bounds by (intro divide_right_mono) simp_all
    show "rnd (1 / 2 ^ 29) = 1 / 2 ^ 29" by (rule rnd_small)
    show "rnd (4974073419394997 / 2 ^ 43 / PI_value) = 180" by (rule rnd_180)
  qed simp_all
  then obtain d where d: "fl (q / PI_value) = Finite d" "1 / 2 ^ 29 \<le> d" "d \<le> 180"
    by blast
  have a: "Math_acos (Finite c) = Finite r" using r(1) assms(1) c1 by simp
  have "js_div (js_mul (Math_acos (Finite c)) (Finite 180)) Math_PI = Finite d"
    unfolding a Math_PI_eq using PI_value_bounds by (simp add: q(1) d(1))
  then show ?thesis using d by blast
qed

text \<open>
  Numbers up to \<open>2^n\<close> in magnitude stay finite through the operations as long as the bound
  stays below \<open>2^1024\<close>; so \<open>calculateAngle\<close> is a number of degrees on points with
  coordinates up to \<open>2^250\<close>.
\<close>

lemma finite_uptoE: "finite_upto n d \<Longrightarrow> (\<And>r. d = Finite r \<Longrightarrow> \<bar>r\<bar> \<le> 2 ^ n \<Longrightarrow> P) \<Longrightarrow> P"
  by (cases d) (simp_all add: finite_upto_def)

lemma nonneg_uptoE: "nonneg_upto n d \<Longrightarrow> (\<And>r. d = Finite r \<Longrightarrow> 0 \<le> r \<Longrightarrow> r \<le> 2 ^ n \<Longrightarrow> P) \<Longrightarrow> P"
  by (cases d) (simp_all add: nonneg_upto_def)

lemma fl_finite_upto:
  assumes "\<bar>x\<bar> \<le> 2 ^ n" "n < 1024"
  shows "finite_upto n (fl x)"
proof -
  have "\<bar>rnd x\<bar> \<le> rnd (2 ^ n)" using assms(1) by (rule rnd_abs_le)
  then have b: "\<bar>rnd x\<bar> \<le> 2 ^ n" by (simp only: rnd_pow2)
  have "(2 :: real) ^ n < 2 ^ 1024" using assms(2) by (intro power_strict_increasing) simp_all
  then have "\<bar>rnd x\<bar> < 2 ^ 1024" using b by linarith
  then have "fl x = Finite (rnd x)" by (intro fl_Finite) simp_all
  then show ?thesis using b by (simp add: finite_upto_def)
qed

lemma fl_nonneg_upto:
  assumes "0 \<le> x" "x \<le> 2 ^ n" "n < 1024"
  shows "nonneg_upto n (fl x)"
proof -
  have "finite_upto n (fl x)" using assms by (intro fl_finite_upto) simp_all
  then obtain r where r: "fl x = Finite r" "\<bar>r\<bar> \<le> 2 ^ n" by (rule finite_uptoE)
  have "fl x = PosInf \<or> fl x = NegInf \<or> fl x = Finite (rnd x)"
    by (simp add: fl_def Let_def)
  then have "r = rnd x" using r(1) by auto
  then have "0 \<le> r" using rnd_nonneg[OF assms(1)] by simp
  then show ?thesis using r by (simp add: nonneg_upto_def)
qed

lemma finite_upto_sub:
  assumes "finite_upto n a" "finite_upto n b" "Suc n < 1024"
  shows "finite_upto (Suc n) (js_sub a b)"
proof -
  obtain x where x: "a = Finite x" "\<bar>x\<bar> \<le> 2 ^ n" using assms(1) by (rule finite_uptoE)
  obtain y where y: "b = Finite y" "\<bar>y\<bar> \<le> 2 ^ n" using assms(2) by (rule finite_uptoE)
  have "\<bar>x - y\<bar> \<le> 2 ^ Suc n" using x(2) y(2) by simp
  then show ?thesis unfolding x(1) y(1) js_sub.simps using assms(3) by (rule fl_finite_upto)
qed

lemma finite_upto_mul:
  assumes "finite_upto n a" "finite_upto m b" "n + m < 1024"
  shows "finite_upto (n + m) (js_mul a b)"
proof -
  obtain x where x: "a = Finite x" "\<bar>x\<bar> \<le> 2 ^ n" using assms(1) by (rule finite_uptoE)
  obtain y where y: "b = Finite y" "\<bar>y\<bar> \<le> 2 ^ m" using assms(2) by (rule finite_uptoE)
  have "\<bar>x\<bar> * \<bar>y\<bar> \<le> 2 ^ n * 2 ^ m" using x(2) y(2) by (intro mult_mono) simp_all
  then have "\<bar>x * y\<bar> \<le> 2 ^ (n + m)" by (simp add: abs_mult power_add)
  then show ?thesis unfolding x(1) y(1) js_mul.simps using assms(3) by (rule fl_finite_upto)
qed

lemma finite_upto_add:
  assumes "finite_upto n a" "finite_upto n b" "Suc n < 1024"
  shows "finite_upto (Suc n) (js_add a b)"
proof -
  obtain x where x: "a = Finite x" "\<bar>x\<bar> \<le> 2 ^ n" using assms(1) by (rule finite_uptoE)
  obtain y where y: "b = Finite y" "\<bar>y\<bar> \<le> 2 ^ n" using assms(2) by (rule finite_uptoE)
  have "\<bar>x + y\<bar> \<le> 2 ^ Suc n" using x(2) y(2) by simp
  then show ?thesis unfolding x(1) y(1) js_add.simps using assms(3) by (rule fl_finite_upto)
qed

lemma finite_upto_mono: "finite_upto n a \<Longrightarrow> n \<le> m \<Longrightarrow> finite_upto m a"
proof -
  assume a: "finite_upto n a" and le: "n \<le> m"
  obtain x where x: "a = Finite x" "\<bar>x\<bar> \<le> 2 ^ n" using a by (rule finite_uptoE)
  have "(2 :: real) ^ n \<le> 2 ^ m" using le by (intro power_increasing) simp_all
  then have "\<bar>x\<bar> \<le> 2 ^ m" using x(2) by linarith
  then show ?thesis using x by (simp add: finite_upto_def)
qed

lemma nonneg_upto_finite_upto: "nonneg_upto n a \<Longrightarrow> finite_upto n a"
  by (cases a) (simp_all add: nonneg_upto_def finite_upto_def)

lemma nonneg_upto_sq:
  assumes "finite_upto n a" "n + n < 1024"
  shows "nonneg_upto (n + n) (js_mul a a)"
proof -
  obtain x where x: "a = Finite x" "\<bar>x\<bar> \<le> 2 ^ n" using assms(1) by (rule finite_uptoE)
  have "\<bar>x\<bar> * \<bar>x\<bar> \<le> 2 ^ n * 2 ^ n" using x(2) by (intro mult_mono) simp_all
  then have "x * x \<le> 2 ^ (n + n)" by (simp add: power_add)
  then show ?thesis unfolding x(1) js_mul.simps using assms(2) by (intro fl_nonneg_upto) simp_all
qed

lemma nonneg_upto_add:
  assumes "nonneg_upto n a" "nonneg_upto n b" "Suc n < 1024"
  shows "nonneg_upto (Suc n) (js_add a b)"
proof -
  obtain x where x: "a = Finite x" "0 \<le> x" "x \<le> 2 ^ n" using assms(1) by (rule nonneg_uptoE)
  obtain y where y: "b = Finite y" "0 \<le> y" "y \<le> 2 ^ n" using assms(2) by (rule nonneg_uptoE)
  have "x + y \<le> 2 ^ Suc n" using x(3) y(3) by simp
  then show ?thesis unfolding x(1) y(1) js_add.simps using assms(3) x(2) y(2)
    by (intro fl_nonneg_upto) simp_all
qed

lemma nonneg_upto_mono: "nonneg_upto n a \<Longrightarrow> n \<le> m \<Longrightarrow> nonneg_upto m a"
proof -
  assume a: "nonneg_upto n a" and le: "n \<le> m"
  obtain x where x: "a = Finite x" "0 \<le> x" "x \<le> 2 ^ n" using a by (rule nonneg_uptoE)
  have "(2 :: real) ^ n \<le> 2 ^ m" using le by (intro power_increasing) simp_all
  then have "x \<le> 2 ^ m" using x(3) by linarith
  then show ?thesis using x by (simp add: nonneg_upto_def)
qed

lemma nonneg_upto_mul:
  assumes "nonneg_upto n a" "nonneg_upto m b" "n + m < 1024"
  shows "nonneg_upto (n + m) (js_mul a b)"
proof -
  obtain x where x: "a = Finite x" "0 \<le> x" "x \<le> 2 ^ n" using assms(1) by (rule nonneg_uptoE)
  obtain y where y: "b = Finite y" "0 \<le> y" "y \<le> 2 ^ m" using assms(2) by (rule nonneg_uptoE)
  have "x * y \<le> 2 ^ n * 2 ^ m" using x y by (intro mult_mono) simp_all
  then have "x * y \<le> 2 ^ (n + m)" by (simp add: power_add)
  then show ?thesis unfolding x(1) y(1) js_mul.simps using assms(3) x(2) y(2)
    by (intro fl_nonneg_upto) simp_all
qed

lemma nonneg_upto_sqrt:
  assumes "nonneg_upto n a" "n < 1024"
  shows "nonneg_upto n (Math_sqrt a)"
proof -
  obtain x where x: "a = Finite x" "0 \<le> x" "x \<le> 2 ^ n" using assms(1) by (rule nonneg_uptoE)
  have "sqrt x \<le> 2 ^ n"
  proof (cases "x \<le> 1")
    case True
    then have "sqrt x \<le> 1" by simp
    then show ?thesis by (smt (verit) one_le_power)
  next
    case False
    then have "sqrt x \<le> x" using sqrt_le_D[of x x] real_le_lsqrt[of x x]
      by (simp add: power2_eq_square)
    then show ?thesis using x(3) by simp
  qed
  then show ?thesis using x assms(2) by (simp add: fl_nonneg_upto)
qed

lemma fl_not_NaN [simp]: "fl x \<noteq> NaN"
  by (simp add: fl_def Let_def)

lemma clamp_not_NaN:
  "v \<noteq> NaN \<Longrightarrow> \<exists>c. clamp v (Finite (- 1)) (Finite 1) = Finite c \<and> - 1 \<le> c \<and> c \<le> 1"
  by (cases v) (simp_all add: clamp_def)

lemma Math_acos_Finite:
  assumes "- 1 \<le> c" "c \<le> 1"
  shows "\<exists>r. Math_acos (Finite c) = Finite r \<and> 0 \<le> r \<and> r \<le> PI_value"
  using Math_acos_range[of "Finite c"] assms by simp

lemma lengthSq_d_finite_upto:
  assumes "finite_upto 251 a" "finite_upto 251 b" "finite_upto 251 c"
  shows "nonneg_upto 504 (lengthSq_d (Vector3d a b c))"
proof -
  have s: "nonneg_upto 502 (js_mul a a)" "nonneg_upto 502 (js_mul b b)" "nonneg_upto 502 (js_mul c c)"
    using nonneg_upto_sq[OF assms(1)] nonneg_upto_sq[OF assms(2)] nonneg_upto_sq[OF assms(3)]
    by simp_all
  have "nonneg_upto (Suc 502) (js_add (js_mul a a) (js_mul b b))"
    using s by (intro nonneg_upto_add) simp_all
  moreover have "nonneg_upto (Suc 502) (js_mul c c)"
    using s(3) by (rule nonneg_upto_mono) simp
  ultimately have "nonneg_upto (Suc (Suc 502)) (js_add (js_add (js_mul a a) (js_mul b b)) (js_mul c c))"
    by (rule nonneg_upto_add) simp
  then show ?thesis by (simp add: lengthSq_d_def)
qed

lemma dot_finite_upto:
  assumes "finite_upto 251 a" "finite_upto 251 b" "finite_upto 251 c" "finite_upto 251 a'" "finite_upto 251 b'" "finite_upto 251 c'"
  shows "finite_upto 504 (dot (Vector3d a b c) (Vector3d a' b' c'))"
proof -
  have s: "finite_upto 502 (js_mul a a')" "finite_upto 502 (js_mul b b')" "finite_upto 502 (js_mul c c')"
    using finite_upto_mul[OF assms(1) assms(4)] finite_upto_mul[OF assms(2) assms(5)]
      finite_upto_mul[OF assms(3) assms(6)]
    by simp_all
  have "finite_upto (Suc 502) (js_add (js_mul a a') (js_mul b b'))"
    using s by (intro finite_upto_add) simp_all
  moreover have "finite_upto (Suc 502) (js_mul c c')"
    using s(3) by (rule finite_upto_mono) simp
  ultimately have "finite_upto (Suc (Suc 502)) (js_add (js_add (js_mul a a') (js_mul b b')) (js_mul c c'))"
    by (rule finite_upto_add) simp
  then show ?thesis by (simp add: dot_def)
qed

lemma angleTo_finite_upto:
  assumes "finite_upto 251 a" "finite_upto 251 b" "finite_upto 251 c" "finite_upto 251 a'" "finite_upto 251 b'" "finite_upto 251 c'"
  shows "\<exists>r. angleTo (Vector3d a b c) (Vector3d a' b' c') = Finite r \<and> 0 \<le> r \<and> r \<le> PI_value"
proof -
  let ?u = "Vector3d a b c" and ?v = "Vector3d a' b' c'"
  have "nonneg_upto (504 + 504) (js_mul (lengthSq_d ?u) (lengthSq_d ?v))"
    using assms by (intro nonneg_upto_mul lengthSq_d_finite_upto) simp_all
  then have "nonneg_upto (504 + 504) (Math_sqrt (js_mul (lengthSq_d ?u) (lengthSq_d ?v)))"
    by (rule nonneg_upto_sqrt) simp
  then obtain den where den: "Math_sqrt (js_mul (lengthSq_d ?u) (lengthSq_d ?v)) = Finite den"
    by (rule nonneg_uptoE)
  have "finite_upto 504 (dot ?u ?v)" using assms by (rule dot_finite_upto)
  then obtain d where d: "dot ?u ?v = Finite d" by (rule finite_uptoE)
  show ?thesis
  proof (cases "den = 0")
    case True
    then show ?thesis using angleTo_range[of ?u ?v] den by (auto simp: angleTo_def Math_PI_eq)
  next
    case False
    then have "js_div (Finite d) (Finite den) \<noteq> NaN" by simp
    then obtain c where c: "clamp (js_div (Finite d) (Finite den)) (Finite (- 1)) (Finite 1) = Finite c"
        "- 1 \<le> c" "c \<le> 1"
      using clamp_not_NaN by blast
    have "angleTo ?u ?v = Math_acos (Finite c)"
      unfolding angleTo_def Let_def den d c(1) using False by simp
    then show ?thesis using Math_acos_Finite[OF c(2,3)] by simp
  qed
qed

lemma calculateAngle_bounded:
  assumes "bounded_point p0" "bounded_point p1" "bounded_point p2"
  shows "degrees (calculateAngle (of_Vector3 p0) (of_Vector3 p1) (of_Vector3 p2))"
proof -
  have w: "finite_upto 250 (Finite (vx p0))" "finite_upto 250 (Finite (vy p0))" "finite_upto 250 (Finite (vz p0))"
      "finite_upto 250 (Finite (vx p1))" "finite_upto 250 (Finite (vy p1))" "finite_upto 250 (Finite (vz p1))"
      "finite_upto 250 (Finite (vx p2))" "finite_upto 250 (Finite (vy p2))" "finite_upto 250 (Finite (vz p2))"
    using assms by (simp_all add: bounded_point_def finite_upto_def)
  have s: "finite_upto (Suc 250) (js_sub (Finite (vx p0)) (Finite (vx p1)))"
      "finite_upto (Suc 250) (js_sub (Finite (vy p0)) (Finite (vy p1)))"
      "finite_upto (Suc 250) (js_sub (Finite (vz p0)) (Finite (vz p1)))"
      "finite_upto (Suc 250) (js_sub (Finite (vx p2)) (Finite (vx p1)))"
      "finite_upto (Suc 250) (js_sub (Finite (vy p2)) (Finite (vy p1)))"
      "finite_upto (Suc 250) (js_sub (Finite (vz p2)) (Finite (vz p1)))"
    by (rule finite_upto_sub, rule w, rule w, simp)+
  have e: "Suc 250 = 251" by simp
  obtain r where r: "angleTo
       (Vector3d (js_sub (Finite (vx p0)) (Finite (vx p1))) (js_sub (Finite (vy p0)) (Finite (vy p1)))
          (js_sub (Finite (vz p0)) (Finite (vz p1))))
       (Vector3d (js_sub (Finite (vx p2)) (Finite (vx p1))) (js_sub (Finite (vy p2)) (Finite (vy p1)))
          (js_sub (Finite (vz p2)) (Finite (vz p1)))) = Finite r" "0 \<le> r" "r \<le> PI_value"
    using angleTo_finite_upto[OF s[unfolded e]] by blast
  show ?thesis
    unfolding calculateAngle_def Let_def of_Vector3_def Vector3d.sel r(1)
    using r(2,3) by (rule degrees_of_radians)
qed

text \<open>
  The points \<open>(1073741825, 0, 0)\<close>, \<open>(0, 0, 0)\<close>, \<open>(1073741858, 0, 0)\<close>, operation by
  operation: the squared lengths, their product and the dot product are rounded, and the
  quotient is the number just below 1.
\<close>

lemma rnd_sq0: "rnd (1073741825 * 1073741825) = 1152921506754330624"
  using rnd_eval_hi[of 60 "1073741825 * 1073741825" 4503599635759104] by (simp add: round_even_def)

lemma rnd_sq1: "rnd (1073741858 * 1073741858) = 1152921577621292288"
  using rnd_eval_hi[of 60 "1073741858 * 1073741858" 4503599912583173] by (simp add: round_even_def)

lemma rnd_prod:
  "rnd (1152921506754330624 * 1152921577621292288) = 1329228082440720393767857379335995392"
  using rnd_eval_hi[of 120 "1152921506754330624 * 1152921577621292288" 4503599920971782]
  by (simp add: round_even_def)

lemma rnd_dot: "rnd (1073741825 * 1073741858) = 1152921542187810816"
  using rnd_eval_hi[of 60 "1073741825 * 1073741858" 4503599774171136] by (simp add: round_even_def)

lemma rnd_sqrt: "rnd (sqrt 1329228082440720393767857379335995392) = 1152921542187811072"
proof -
  let ?p = "1329228082440720393767857379335995392 :: real"
  have lo: "2 ^ 60 \<le> \<bar>sqrt ?p\<bar>"
  proof -
    have "(2 ^ 60)\<^sup>2 \<le> ?p" by simp
    then have "2 ^ 60 \<le> sqrt ?p" by (rule real_le_rsqrt)
    then show ?thesis by simp
  qed
  have hi: "\<bar>sqrt ?p\<bar> < 2 * 2 ^ 60"
  proof -
    have "sqrt ?p < 2 * 2 ^ 60" by (rule real_less_lsqrt) simp_all
    then show ?thesis by simp
  qed
  have k: "round_even (sqrt ?p / 2 ^ (60 - 52)) = 4503599774171137"
  proof (rule round_even_eqI)
    have "((of_int 4503599774171137 - 1 / 2) * 2 ^ 8)\<^sup>2 < ?p" by (simp add: power2_eq_square)
    then have "(of_int 4503599774171137 - 1 / 2) * 2 ^ 8 < sqrt ?p" by (rule real_less_rsqrt)
    then show "of_int 4503599774171137 - 1 / 2 < sqrt ?p / 2 ^ (60 - 52)"
      by (simp add: field_simps)
    have "sqrt ?p < (of_int 4503599774171137 + 1 / 2) * 2 ^ 8"
      by (rule real_less_lsqrt) (simp_all add: power2_eq_square)
    then show "sqrt ?p / 2 ^ (60 - 52) < of_int 4503599774171137 + 1 / 2"
      by (simp add: field_simps)
  qed
  have "rnd (sqrt ?p) = 2 ^ (60 - 52) * of_int 4503599774171137"
    using lo hi _ k by (rule rnd_eval_hi) simp
  then show ?thesis by simp
qed

lemma rnd_quot: "rnd (1152921542187810816 / 1152921542187811072) = 1 - 1 / 2 ^ 52"
  using rnd_eval_neg[of 1 "1152921542187810816 / 1152921542187811072" "2 ^ 53 - 2"]
  by (simp add: round_even_def)

lemma rnd_repr:
  "rnd 1152921506754330624 = 1152921506754330624"
  "rnd 1152921577621292288 = 1152921577621292288"
  "rnd 1152921542187810816 = 1152921542187810816"
  using rnd_eval_hi[of 60 1152921506754330624 4503599635759104]
    rnd_eval_hi[of 60 1152921577621292288 4503599912583173]
    rnd_eval_hi[of 60 1152921542187810816 4503599774171136]
  by (simp_all add: round_even_def)

lemma fl_values:
  "fl (1073741825 * 1073741825) = Finite 1152921506754330624"
  "fl (1073741858 * 1073741858) = Finite 1152921577621292288"
  "fl (1152921506754330624 * 1152921577621292288) = Finite 1329228082440720393767857379335995392"
  "fl (1073741825 * 1073741858) = Finite 1152921542187810816"
  "fl (sqrt 1329228082440720393767857379335995392) = Finite 1152921542187811072"
  "fl (1152921542187810816 / 1152921542187811072) = Finite (1 - 1 / 2 ^ 52)"
  "fl 1152921506754330624 = Finite 1152921506754330624"
  "fl 1152921577621292288 = Finite 1152921577621292288"
  "fl 1152921542187810816 = Finite 1152921542187810816"
  "fl 1073741825 = Finite 1073741825"
  "fl 1073741858 = Finite 1073741858"
  using rnd_sq0 rnd_sq1 rnd_prod rnd_dot rnd_sqrt rnd_quot rnd_repr
  by (simp_all add: fl_Finite fl_int is_int_def)

lemma angleTo_rounding:
  "angleTo (Vector3d (Finite 1073741825) (Finite 0) (Finite 0))
     (Vector3d (Finite 1073741858) (Finite 0) (Finite 0)) = Math_acos (Finite (1 - 1 / 2 ^ 52))"
proof -
  have l0: "lengthSq_d (Vector3d (Finite 1073741825) (Finite 0) (Finite 0)) = Finite 1152921506754330624"
    unfolding lengthSq_d_def Vector3d.sel js_mul.simps mult_zero_left fl_0 fl_values js_add.simps
      add_0_right fl_values ..
  have l1: "lengthSq_d (Vector3d (Finite 1073741858) (Finite 0) (Finite 0)) = Finite 1152921577621292288"
    unfolding lengthSq_d_def Vector3d.sel js_mul.simps mult_zero_left fl_0 fl_values js_add.simps
      add_0_right fl_values ..
  have d: "dot (Vector3d (Finite 1073741825) (Finite 0) (Finite 0))
      (Vector3d (Finite 1073741858) (Finite 0) (Finite 0)) = Finite 1152921542187810816"
    unfolding dot_def Vector3d.sel js_mul.simps mult_zero_left fl_0 fl_values js_add.simps
      add_0_right fl_values ..
  have s: "Math_sqrt (Finite 1329228082440720393767857379335995392) = Finite 1152921542187811072"
    by (simp add: fl_values)
  have q: "js_div (Finite 1152921542187810816) (Finite 1152921542187811072) = Finite (1 - 1 / 2 ^ 52)"
    using fl_values(6) by simp
  have c: "clamp (Finite (1 - 1 / 2 ^ 52)) (Finite (- 1)) (Finite 1) = Finite (1 - 1 / 2 ^ 52)"
    by (simp add: clamp_def)
  have nz: "Finite 1152921542187811072 \<noteq> Finite 0" by simp
  show ?thesis
    unfolding angleTo_def Let_def l0 l1 d js_mul.simps fl_values s q c using nz by simp
qed

lemma calculateAngle_rounding:
  "\<exists>d. calculateAngle (of_Vector3 (Vector3 1073741825 0 0)) (of_Vector3 (Vector3 0 0 0))
          (of_Vector3 (Vector3 1073741858 0 0)) = Finite d \<and> 1 / 2 ^ 29 \<le> d \<and> d \<le> 180"
proof -
  have s: "js_sub (Finite 1073741825) (Finite 0) = Finite 1073741825"
      "js_sub (Finite 1073741858) (Finite 0) = Finite 1073741858"
      "js_sub (Finite 0) (Finite 0) = Finite 0"
    by (simp_all add: fl_values)
  show ?thesis
    unfolding calculateAngle_def Let_def of_Vector3_def Vector3.sel Vector3d.sel s angleTo_rounding
    by (rule degrees_positive) simp_all
qed

text \<open>
  The points \<open>(a, 0, 0)\<close>, \<open>(0, 0, 0)\<close>, \<open>(b, 0, 0)\<close> for the numbers \<open>a\<close> and \<open>b\<close> nearest
  to 0.1 and 0.3, operation by operation: the quotient is the number just below 1 again.
\<close>

lemma rnd_tenths:
  "rnd (3602879701896397 / 2 ^ 55) = 3602879701896397 / 2 ^ 55"
  "rnd (5404319552844595 / 2 ^ 54) = 5404319552844595 / 2 ^ 54"
  using rnd_eval_neg[of 4 "3602879701896397 / 2 ^ 55" 7205759403792794]
    rnd_eval_neg[of 2 "5404319552844595 / 2 ^ 54" 5404319552844595]
  by (simp_all add: round_even_def)

lemma rnd_tenths_sq0: "rnd (3602879701896397 / 2 ^ 55 * (3602879701896397 / 2 ^ 55)) = 1441151880758559 / 2 ^ 57"
  using rnd_eval_neg[of 7 "3602879701896397 / 2 ^ 55 * (3602879701896397 / 2 ^ 55)" 5764607523034236] by (simp add: round_even_def)

lemma rnd_tenths_sq1: "rnd (5404319552844595 / 2 ^ 54 * (5404319552844595 / 2 ^ 54)) = 3242591731706757 / 2 ^ 55"
  using rnd_eval_neg[of 4 "5404319552844595 / 2 ^ 54 * (5404319552844595 / 2 ^ 54)" 6485183463413514] by (simp add: round_even_def)

lemma rnd_tenths_prod: "rnd (1441151880758559 / 2 ^ 57 * (3242591731706757 / 2 ^ 55)) = 2075258708292325 / 2 ^ 61"
  using rnd_eval_neg[of 11 "1441151880758559 / 2 ^ 57 * (3242591731706757 / 2 ^ 55)" 8301034833169300] by (simp add: round_even_def)

lemma rnd_tenths_dot: "rnd (3602879701896397 / 2 ^ 55 * (5404319552844595 / 2 ^ 54)) = 1080863910568919 / 2 ^ 55"
  using rnd_eval_neg[of 6 "3602879701896397 / 2 ^ 55 * (5404319552844595 / 2 ^ 54)" 8646911284551352] by (simp add: round_even_def)

lemma rnd_tenths_sqrt: "rnd (sqrt (2075258708292325 / 2 ^ 61)) = 8646911284551353 / 2 ^ 58"
proof -
  let ?p = "2075258708292325 / 2 ^ 61 :: real"
  have lo: "1 / 2 ^ 6 \<le> \<bar>sqrt ?p\<bar>"
  proof -
    have "(1 / 2 ^ 6)\<^sup>2 \<le> ?p" by (simp add: power2_eq_square)
    then have "1 / 2 ^ 6 \<le> sqrt ?p" by (rule real_le_rsqrt)
    then show ?thesis by simp
  qed
  have hi: "\<bar>sqrt ?p\<bar> < 2 / 2 ^ 6"
  proof -
    have "sqrt ?p < 2 / 2 ^ 6" by (rule real_less_lsqrt) (simp_all add: power2_eq_square)
    then show ?thesis by simp
  qed
  have k: "round_even (sqrt ?p * 2 ^ (52 + 6)) = 8646911284551353"
  proof (rule round_even_eqI)
    have "((of_int 8646911284551353 - 1 / 2) / 2 ^ 58)\<^sup>2 < ?p" by (simp add: power2_eq_square)
    then have "(of_int 8646911284551353 - 1 / 2) / 2 ^ 58 < sqrt ?p" by (rule real_less_rsqrt)
    then show "of_int 8646911284551353 - 1 / 2 < sqrt ?p * 2 ^ (52 + 6)"
      by (simp add: field_simps)
    have "sqrt ?p < (of_int 8646911284551353 + 1 / 2) / 2 ^ 58"
      by (rule real_less_lsqrt) (simp_all add: power2_eq_square)
    then show "sqrt ?p * 2 ^ (52 + 6) < of_int 8646911284551353 + 1 / 2"
      by (simp add: field_simps)
  qed
  have "rnd (sqrt ?p) = of_int 8646911284551353 / 2 ^ (52 + 6)"
    using lo hi _ k by (rule rnd_eval_neg) simp
  then show ?thesis by simp
qed

lemma rnd_tenths_quot: "rnd (1080863910568919 / 2 ^ 55 / (8646911284551353 / 2 ^ 58)) = 1 - 1 / 2 ^ 53"
  using rnd_eval_neg[of 1 "1080863910568919 / 2 ^ 55 / (8646911284551353 / 2 ^ 58)" "2 ^ 53 - 1"] by (simp add: round_even_def)

lemma rnd_tenths_repr:
  "rnd (1441151880758559 / 2 ^ 57) = 1441151880758559 / 2 ^ 57"
  "rnd (3242591731706757 / 2 ^ 55) = 3242591731706757 / 2 ^ 55"
  "rnd (1080863910568919 / 2 ^ 55) = 1080863910568919 / 2 ^ 55"
  using rnd_eval_neg[of 7 "1441151880758559 / 2 ^ 57" 5764607523034236]
    rnd_eval_neg[of 4 "3242591731706757 / 2 ^ 55" 6485183463413514]
    rnd_eval_neg[of 6 "1080863910568919 / 2 ^ 55" 8646911284551352]
  by (simp_all add: round_even_def)

lemma fl_tenths:
  "fl (3602879701896397 / 2 ^ 55 * (3602879701896397 / 2 ^ 55)) = Finite (1441151880758559 / 2 ^ 57)"
  "fl (5404319552844595 / 2 ^ 54 * (5404319552844595 / 2 ^ 54)) = Finite (3242591731706757 / 2 ^ 55)"
  "fl (1441151880758559 / 2 ^ 57 * (3242591731706757 / 2 ^ 55)) = Finite (2075258708292325 / 2 ^ 61)"
  "fl (3602879701896397 / 2 ^ 55 * (5404319552844595 / 2 ^ 54)) = Finite (1080863910568919 / 2 ^ 55)"
  "fl (sqrt (2075258708292325 / 2 ^ 61)) = Finite (8646911284551353 / 2 ^ 58)"
  "fl (1080863910568919 / 2 ^ 55 / (8646911284551353 / 2 ^ 58)) = Finite (1 - 1 / 2 ^ 53)"
  "fl (1441151880758559 / 2 ^ 57) = Finite (1441151880758559 / 2 ^ 57)"
  "fl (3242591731706757 / 2 ^ 55) = Finite (3242591731706757 / 2 ^ 55)"
  "fl (1080863910568919 / 2 ^ 55) = Finite (1080863910568919 / 2 ^ 55)"
  "fl (3602879701896397 / 2 ^ 55) = Finite (3602879701896397 / 2 ^ 55)"
  "fl (5404319552844595 / 2 ^ 54) = Finite (5404319552844595 / 2 ^ 54)"
  using rnd_tenths rnd_tenths_sq0 rnd_tenths_sq1 rnd_tenths_prod rnd_tenths_dot rnd_tenths_sqrt
    rnd_tenths_quot rnd_tenths_repr
  by (simp_all add: fl_Finite)

lemma angleTo_tenths:
  "angleTo (Vector3d (Finite (3602879701896397 / 2 ^ 55)) (Finite 0) (Finite 0))
     (Vector3d (Finite (5404319552844595 / 2 ^ 54)) (Finite 0) (Finite 0)) = Math_acos (Finite (1 - 1 / 2 ^ 53))"
proof -
  have l0: "lengthSq_d (Vector3d (Finite (3602879701896397 / 2 ^ 55)) (Finite 0) (Finite 0)) = Finite (1441151880758559 / 2 ^ 57)"
    unfolding lengthSq_d_def Vector3d.sel js_mul.simps mult_zero_left fl_0 fl_tenths js_add.simps
      add_0_right fl_tenths ..
  have l1: "lengthSq_d (Vector3d (Finite (5404319552844595 / 2 ^ 54)) (Finite 0) (Finite 0)) = Finite (3242591731706757 / 2 ^ 55)"
    unfolding lengthSq_d_def Vector3d.sel js_mul.simps mult_zero_left fl_0 fl_tenths js_add.simps
      add_0_right fl_tenths ..
  have d: "dot (Vector3d (Finite (3602879701896397 / 2 ^ 55)) (Finite 0) (Finite 0))
      (Vector3d (Finite (5404319552844595 / 2 ^ 54)) (Finite 0) (Finite 0)) = Finite (1080863910568919 / 2 ^ 55)"
    unfolding dot_def Vector3d.sel js_mul.simps mult_zero_left fl_0 fl_tenths js_add.simps
      add_0_right fl_tenths ..
  have s: "Math_sqrt (Finite (2075258708292325 / 2 ^ 61)) = Finite (8646911284551353 / 2 ^ 58)"
    using fl_tenths(5) by simp
  have q: "js_div (Finite (1080863910568919 / 2 ^ 55)) (Finite (8646911284551353 / 2 ^ 58)) = Finite (1 - 1 / 2 ^ 53)"
    using fl_tenths(6) by simp
  have c: "clamp (Finite (1 - 1 / 2 ^ 53)) (Finite (- 1)) (Finite 1) = Finite (1 - 1 / 2 ^ 53)"
    by (simp add: clamp_def)
  have nz: "Finite (8646911284551353 / 2 ^ 58) \<noteq> Finite 0" by simp
  show ?thesis
    unfolding angleTo_def Let_def l0 l1 d js_mul.simps fl_tenths s q c using nz by simp
qed

lemma calculateAngle_tenths:
  "\<exists>d. calculateAngle (of_Vector3 (Vector3 (3602879701896397 / 2 ^ 55) 0 0)) (of_Vector3 (Vector3 0 0 0))
          (of_Vector3 (Vector3 (5404319552844595 / 2 ^ 54) 0 0)) = Finite d \<and> 1 / 2 ^ 29 \<le> d \<and> d \<le> 180"
proof -
  have s: "js_sub (Finite (3602879701896397 / 2 ^ 55)) (Finite 0) = Finite (3602879701896397 / 2 ^ 55)"
      "js_sub (Finite (5404319552844595 / 2 ^ 54)) (Finite 0) = Finite (5404319552844595 / 2 ^ 54)"
      "js_sub (Finite 0) (Finite 0) = Finite 0"
    using fl_tenths(10,11) by simp_all
  show ?thesis
    unfolding calculateAngle_def Let_def of_Vector3_def Vector3.sel Vector3d.sel s angleTo_tenths
    by (rule degrees_positive) simp_all
qed

text \<open>A right angle: \<open>(0, 3, 0)\<close>, \<open>(0, 0, 0)\<close>, \<open>(4, 0, 0)\<close> gives exactly 90.\<close>

lemma calculateAngle_right_angle:
  "calculateAngle (of_Vector3 (Vector3 0 3 0)) (of_Vector3 (Vector3 0 0 0)) (of_Vector3 (Vector3 4 0 0))
     = Finite 90"
proof -
  have i: "fl 3 = Finite 3" "fl 4 = Finite 4" "fl 9 = Finite 9" "fl 16 = Finite 16"
      "fl 144 = Finite 144" "fl 12 = Finite 12"
    by (simp_all add: fl_int is_int_def)
  have s: "sqrt 144 = 12" by (rule real_sqrt_unique) simp_all
  have l0: "lengthSq_d (Vector3d (Finite 0) (Finite 3) (Finite 0)) = Finite 9"
    by (simp add: lengthSq_d_def i)
  have l1: "lengthSq_d (Vector3d (Finite 4) (Finite 0) (Finite 0)) = Finite 16"
    by (simp add: lengthSq_d_def i)
  have d: "dot (Vector3d (Finite 0) (Finite 3) (Finite 0)) (Vector3d (Finite 4) (Finite 0) (Finite 0))
      = Finite 0"
    by (simp add: dot_def)
  have h: "fl (pi / 2) = Finite (PI_value / 2)"
    using rnd_pi_half by (rule fl_Finite) (simp add: PI_value_def)
  have a: "angleTo (Vector3d (Finite 0) (Finite 3) (Finite 0)) (Vector3d (Finite 4) (Finite 0) (Finite 0))
      = Finite (PI_value / 2)"
    by (simp add: angleTo_def l0 l1 d i s clamp_def arccos_0 h)
  have m: "fl (PI_value / 2 * 180) = Finite (4974073419394997 / 2 ^ 44)"
    using rnd_pi_90 by (rule fl_Finite) simp
  have q: "fl (4974073419394997 / 2 ^ 44 / PI_value) = Finite 90"
    using rnd_90 by (rule fl_Finite) simp
  have sub: "js_sub (Finite 0) (Finite 0) = Finite 0" "js_sub (Finite 3) (Finite 0) = Finite 3"
      "js_sub (Finite 4) (Finite 0) = Finite 4"
    by (simp_all add: i)
  have "js_div (js_mul (Finite (PI_value / 2)) (Finite 180)) Math_PI = Finite 90"
    unfolding js_mul.simps m Math_PI_eq using PI_value_bounds q by simp
  then show ?thesis
    unfolding calculateAngle_def Let_def of_Vector3_def Vector3.sel Vector3d.sel sub a .
qed

text \<open>
  C8, as stated, fails, on three triples of points that are collinear with the outer two on
  the same side of the middle one. For \<open>(huge, 0, 0)\<close>, \<open>(0, 0, 0)\<close>, \<open>(huge, 0, 0)\<close> with
  \<open>huge = 2^600\<close>, \<open>calculateAngle\<close> returns NaN, which is neither in \<open>[0, 180]\<close> nor 0: the
  squared lengths overflow. For \<open>(1073741825, 0, 0)\<close>, \<open>(0, 0, 0)\<close>, \<open>(1073741858, 0, 0)\<close>,
  and for \<open>(a, 0, 0)\<close>, \<open>(0, 0, 0)\<close>, \<open>(b, 0, 0)\<close> with \<open>a\<close> and \<open>b\<close> the numbers nearest to 0.1
  and 0.3, it returns a number of degrees other than 0: the quotient of the rounded dot
  product and the rounded denominator is the number just below 1.
\<close>

theorem calculateAngle_not_exact:
  "sameSide 1 (Vector3 huge 0 0) (Vector3 0 0 0) (Vector3 huge 0 0) \<and>
   calculateAngle (of_Vector3 (Vector3 huge 0 0)) (of_Vector3 (Vector3 0 0 0))
     (of_Vector3 (Vector3 huge 0 0)) = NaN \<and>
   sameSide (1073741858 / 1073741825) (Vector3 1073741825 0 0) (Vector3 0 0 0)
     (Vector3 1073741858 0 0) \<and>
   degrees (calculateAngle (of_Vector3 (Vector3 1073741825 0 0)) (of_Vector3 (Vector3 0 0 0))
     (of_Vector3 (Vector3 1073741858 0 0))) \<and>
   calculateAngle (of_Vector3 (Vector3 1073741825 0 0)) (of_Vector3 (Vector3 0 0 0))
     (of_Vector3 (Vector3 1073741858 0 0)) \<noteq> Finite 0 \<and>
   sameSide (5404319552844595 / 2 ^ 54 / (3602879701896397 / 2 ^ 55)) (Vector3 (3602879701896397 / 2 ^ 55) 0 0) (Vector3 0 0 0)
     (Vector3 (5404319552844595 / 2 ^ 54) 0 0) \<and>
   degrees (calculateAngle (of_Vector3 (Vector3 (3602879701896397 / 2 ^ 55) 0 0)) (of_Vector3 (Vector3 0 0 0))
     (of_Vector3 (Vector3 (5404319552844595 / 2 ^ 54) 0 0))) \<and>
   calculateAngle (of_Vector3 (Vector3 (3602879701896397 / 2 ^ 55) 0 0)) (of_Vector3 (Vector3 0 0 0))
     (of_Vector3 (Vector3 (5404319552844595 / 2 ^ 54) 0 0)) \<noteq> Finite 0"
proof -
  have h: "huge \<noteq> 0" by (simp add: huge_def)
  have s1: "sameSide 1 (Vector3 huge 0 0) (Vector3 0 0 0) (Vector3 huge 0 0)"
    using h by (simp add: sameSide_def)
  have s2: "sameSide (1073741858 / 1073741825) (Vector3 1073741825 0 0) (Vector3 0 0 0)
      (Vector3 1073741858 0 0)"
    by (simp add: sameSide_def)
  have s3: "sameSide (5404319552844595 / 2 ^ 54 / (3602879701896397 / 2 ^ 55)) (Vector3 (3602879701896397 / 2 ^ 55) 0 0) (Vector3 0 0 0)
      (Vector3 (5404319552844595 / 2 ^ 54) 0 0)"
    by (simp add: sameSide_def)
  obtain d where d: "calculateAngle (of_Vector3 (Vector3 1073741825 0 0)) (of_Vector3 (Vector3 0 0 0))
      (of_Vector3 (Vector3 1073741858 0 0)) = Finite d" "1 / 2 ^ 29 \<le> d" "d \<le> 180"
    using calculateAngle_rounding by blast
  have p: "0 < d" using d(2) by (rule less_le_trans[rotated]) simp
  obtain e where e: "calculateAngle (of_Vector3 (Vector3 (3602879701896397 / 2 ^ 55) 0 0)) (of_Vector3 (Vector3 0 0 0))
      (of_Vector3 (Vector3 (5404319552844595 / 2 ^ 54) 0 0)) = Finite e" "1 / 2 ^ 29 \<le> e" "e \<le> 180"
    using calculateAngle_tenths by blast
  have q: "0 < e" using e(2) by (rule less_le_trans[rotated]) simp
  have r1: "degrees (Finite d) \<and> Finite d \<noteq> Finite 0" using p d(3) by (simp add: degrees_def)
  have r2: "degrees (Finite e) \<and> Finite e \<noteq> Finite 0" using q e(3) by (simp add: degrees_def)
  show ?thesis
    unfolding d(1) e(1) using s1 s2 s3 calculateAngle_overflow r1 r2 by blast
qed

text \<open>
  C8, as amended. For all points \<open>p0\<close>, \<open>p1\<close>, \<open>p2\<close> (of any numbers, infinities and NaN
  included) \<open>calculateAngle p0 p1 p2\<close> is NaN or a number in \<open>[0, 180]\<close>, and it is unchanged
  when \<open>p0\<close> and \<open>p2\<close> are swapped. On points with coordinates up to \<open>2^250\<close> in magnitude
  it is a number in \<open>[0, 180]\<close>. It is 0 on points with integer coordinates up to 2048 in
  magnitude that are collinear with \<open>p0\<close> and \<open>p2\<close> on the same side of \<open>p1\<close>.
\<close>

theorem calculateAngle_binary64:
  "(calculateAngle p0 p1 p2 = NaN \<or> degrees (calculateAngle p0 p1 p2)) \<and>
   calculateAngle p0 p1 p2 = calculateAngle p2 p1 p0 \<and>
   (bounded_point q0 \<and> bounded_point q1 \<and> bounded_point q2 \<longrightarrow>
      degrees (calculateAngle (of_Vector3 q0) (of_Vector3 q1) (of_Vector3 q2))) \<and>
   (sameSide t q0 q1 q2 \<and> small_integers q0 \<and> small_integers q1 \<and> small_integers q2 \<longrightarrow>
      calculateAngle (of_Vector3 q0) (of_Vector3 q1) (of_Vector3 q2) = Finite 0)"
  using calculateAngle_range[of p0 p1 p2] calculateAngle_sym[of p0 p1 p2]
    calculateAngle_bounded[of q0 q1 q2] calculateAngle_collinear[of t q0 q1 q2]
  by blast

theorem calculateAngle_binary64_witness:
  "bounded_point (Vector3 0 3 0) \<and> bounded_point (Vector3 0 0 0) \<and> bounded_point (Vector3 4 0 0) \<and>
   degrees (calculateAngle (of_Vector3 (Vector3 0 3 0)) (of_Vector3 (Vector3 0 0 0))
     (of_Vector3 (Vector3 4 0 0))) \<and>
   calculateAngle (of_Vector3 (Vector3 0 3 0)) (of_Vector3 (Vector3 0 0 0))
     (of_Vector3 (Vector3 4 0 0)) = Finite 90 \<and>
   sameSide 2 (Vector3 1 2 2) (Vector3 0 0 0) (Vector3 2 4 4) \<and>
   small_integers (Vector3 1 2 2) \<and> small_integers (Vector3 0 0 0) \<and>
   small_integers (Vector3 2 4 4) \<and>
   calculateAngle (of_Vector3 (Vector3 1 2 2)) (of_Vector3 (Vector3 0 0 0))
     (of_Vector3 (Vector3 2 4 4)) = Finite 0"
proof -
  have b: "bounded_point (Vector3 0 3 0)" "bounded_point (Vector3 0 0 0)"
      "bounded_point (Vector3 4 0 0)"
    by (simp_all add: bounded_point_def)
  have s: "sameSide 2 (Vector3 1 2 2) (Vector3 0 0 0) (Vector3 2 4 4)"
    by (simp add: sameSide_def)
  have i: "small_integers (Vector3 1 2 2)" "small_integers (Vector3 0 0 0)"
      "small_integers (Vector3 2 4 4)"
    by (simp_all add: small_integers_def is_int_def)
  have d: "degrees (calculateAngle (of_Vector3 (Vector3 0 3 0)) (of_Vector3 (Vector3 0 0 0))
      (of_Vector3 (Vector3 4 0 0)))"
    using calculateAngle_binary64[of "of_Vector3 (Vector3 0 3 0)" "of_Vector3 (Vector3 0 0 0)"
        "of_Vector3 (Vector3 4 0 0)" "Vector3 0 3 0" "Vector3 0 0 0" "Vector3 4 0 0" 2] b
    by blast
  have z: "calculateAngle (of_Vector3 (Vector3 1 2 2)) (of_Vector3 (Vector3 0 0 0))
      (of_Vector3 (Vector3 2 4 4)) = Finite 0"
    using calculateAngle_binary64[of "of_Vector3 (Vector3 1 2 2)" "of_Vector3 (Vector3 0 0 0)"
        "of_Vector3 (Vector3 2 4 4)" "Vector3 1 2 2" "Vector3 0 0 0" "Vector3 2 4 4" 2] s i
    by blast
  show ?thesis using b s i d z calculateAngle_right_angle by blast
qed

subsection \<open>calculateArea\<close>

lemma calculateArea_loop_sum:
  "j + 1 = k \<Longrightarrow> 1 \<le> j \<Longrightarrow>
   calculateArea_loop ps 0 j k area =
     area + (\<Sum>m = j..length ps - 2. heron (ps ! 0) (ps ! m) (ps ! (m + 1)))"
proof (induction ps "0::nat" j k area rule: calculateArea_loop.induct)
  case (1 ps j k area)
  show ?case
  proof (cases "k < length ps")
    case True
    have rng: "{j..length ps - 2} = insert j {j + 1..length ps - 2}"
      using True 1(2) by auto
    have "calculateArea_loop ps 0 j k area =
          calculateArea_loop ps 0 (j + 1) (k + 1)
            (area + heron (ps ! 0) (ps ! j) (ps ! k))"
      using True by (subst calculateArea_loop.simps) (simp add: heron_def Let_def)
    also have "\<dots> = area + heron (ps ! 0) (ps ! j) (ps ! k)
        + (\<Sum>m = j + 1..length ps - 2. heron (ps ! 0) (ps ! m) (ps ! (m + 1)))"
      using 1(1)[OF True refl refl refl refl] 1(2) 1(3) by (simp add: heron_def Let_def)
    finally show ?thesis
      using 1(2) by (simp add: rng)
  next
    case False
    then have "{j..length ps - 2} = {}" using 1(2) 1(3) by auto
    then show ?thesis using False
      by (subst calculateArea_loop.simps) simp
  qed
qed

lemma calculateArea_right_triangle:
  "calculateArea [Vector3 0 0 0, Vector3 3 0 0, Vector3 0 4 0] = 6"
proof -
  have s25: "sqrt 25 = 5" by (rule real_sqrt_unique) simp_all
  have s36: "sqrt 36 = 6" by (rule real_sqrt_unique) simp_all
  have s9: "sqrt 9 = 3" by (rule real_sqrt_unique) simp_all
  have s16: "sqrt 16 = 4" by (rule real_sqrt_unique) simp_all
  show ?thesis
    by (simp add: calculateArea_def calculateArea_loop.simps[of _ _ _ 2]
        calculateArea_loop.simps[of _ _ _ 3] distanceTo_def Let_def s25 s36 s9 s16)
qed

text \<open>
  C9. \<open>calculateArea\<close> is the triangulation fan from the first vertex: the sum of the
  Heron areas of the triangles \<open>(points[0], points[j], points[j+1])\<close> for \<open>j\<close> from 1 to
  \<open>length - 2\<close>; on the right triangle \<open>(0,0,0), (3,0,0), (0,4,0)\<close> it returns 6.
\<close>

theorem calculateArea_fan:
  "calculateArea ps = fan_area_spec ps \<and>
   calculateArea [Vector3 0 0 0, Vector3 3 0 0, Vector3 0 4 0] = 6"
  using calculateArea_loop_sum[of 1 2 ps 0] calculateArea_right_triangle
  by (simp add: calculateArea_def fan_area_spec_def)

subsection \<open>numberToString\<close>

lemma replicate_numeral: "replicate (numeral k) x = x # replicate (pred_numeral k) x"
  by (simp add: numeral_eq_Suc)

lemma digit_nth: "n < 10 \<Longrightarrow> digit (''0123456789'' ! n)"
  unfolding digit_def by (rule nth_mem) simp

lemma digit_value_nth: "n < 10 \<Longrightarrow> digit_value (''0123456789'' ! n) = n"
proof -
  assume "n < 10"
  then have "n \<in> {0, 1, 2, 3, 4, 5, 6, 7, 8, 9}" by auto
  then show ?thesis by (auto simp: digit_value_def)
qed

lemma decimal_digits_digit: "list_all digit (decimal_digits n)"
proof (induction n rule: decimal_digits.induct)
  case (1 n)
  show ?case
  proof (cases "n < 10")
    case True
    then show ?thesis by (subst decimal_digits.simps) (simp add: digit_nth)
  next
    case False
    then show ?thesis using 1 by (subst decimal_digits.simps) (simp add: digit_nth)
  qed
qed

lemma decimal_value_snoc: "decimal_value (xs @ [c]) = 10 * decimal_value xs + digit_value c"
  by (simp add: decimal_value_def)

lemma decimal_value_digits: "decimal_value (decimal_digits n) = n"
proof (induction n rule: decimal_digits.induct)
  case (1 n)
  show ?case
  proof (cases "n < 10")
    case True
    then show ?thesis
      by (subst decimal_digits.simps) (simp add: decimal_value_def digit_value_nth)
  next
    case False
    then show ?thesis
      using 1 by (subst decimal_digits.simps) (simp add: decimal_value_snoc digit_value_nth)
  qed
qed

lemma decimal_value_zeros: "decimal_value (replicate j (CHR ''0'') @ m) = decimal_value m"
proof -
  have "foldl (\<lambda>v c. 10 * v + digit_value c) 0 (replicate j (CHR ''0'')) = 0"
    by (induction j) (simp_all add: digit_value_def)
  then show ?thesis by (simp add: decimal_value_def)
qed

text \<open>
  Below \<open>10^21\<close>, \<open>toFixed\<close> with \<open>f > 0\<close> writes digits, a point and exactly \<open>f\<close> digits,
  and the digits are those of the integer nearest to \<open>x * 10^f\<close>.
\<close>

lemma toFixed_fraction_digits:
  assumes "0 \<le> x" "x < 10 ^ 21" "0 < f"
  shows "fraction_digits f (toFixed toStr x f)"
    and "scaled_value f (toFixed toStr x f) = nat \<lfloor>x * 10 ^ f + 1 / 2\<rfloor>"
proof -
  define m where "m = decimal_digits (nat \<lfloor>x * 10 ^ f + 1 / 2\<rfloor>)"
  define m' where "m' = (if length m \<le> f then replicate (f + 1 - length m) (CHR ''0'') @ m else m)"
  define k' where "k' = (if length m \<le> f then f + 1 else length m)"
  define a where "a = take (k' - f) m'"
  define b where "b = drop (k' - f) m'"
  have len: "length m' = k'" by (simp add: m'_def k'_def)
  have k: "f < k'" by (simp add: k'_def)
  have eq: "toFixed toStr x f = a @ ''.'' @ b"
    using assms by (simp add: toFixed_def Let_def m_def m'_def k'_def a_def b_def)
  have la: "length a = k' - f" using len by (simp add: a_def)
  have lb: "length b = f" using len k by (simp add: b_def)
  have ab: "a @ b = m'" by (simp add: a_def b_def)
  have dm: "list_all digit m" unfolding m_def by (rule decimal_digits_digit)
  have dm': "list_all digit m'" using dm by (simp add: m'_def digit_def list_all_iff)
  have da: "list_all digit a" and db: "list_all digit b"
    using dm' unfolding ab[symmetric] by simp_all
  have l: "length (a @ ''.'' @ b) - (f + 1) = length a" using la lb k by simp
  have l': "length (a @ ''.'' @ b) - f = length a + 1" using la lb k by simp
  have a0: "0 < length a" using la k by simp
  show "fraction_digits f (toFixed toStr x f)"
    unfolding eq fraction_digits_def l l' using da db a0 lb by (simp add: nth_append)
  have "decimal_value m' = decimal_value m" by (simp add: m'_def decimal_value_zeros)
  then have "decimal_value (a @ b) = nat \<lfloor>x * 10 ^ f + 1 / 2\<rfloor>"
    by (simp add: ab m_def decimal_value_digits)
  then show "scaled_value f (toFixed toStr x f) = nat \<lfloor>x * 10 ^ f + 1 / 2\<rfloor>"
    unfolding eq scaled_value_def l l' by simp
qed

lemma numberToString_examples:
  "numberToString toStr (5 / 100000) = toStr (5 / 100000) \<and>
   numberToString toStr (5 / 1000) = ''0.0050'' \<and>
   numberToString toStr (5 / 100) = ''0.050'' \<and>
   numberToString toStr (123456 / 100000) = ''1.23''"
  by (simp add: numberToString_def toFixed_def Let_def decimal_digits.simps replicate_numeral)

lemma numberToString_fixed:
  assumes "1 / 10000 \<le> n" "n < 10 ^ 21"
    and "k = (if n < 1 / 100 then 4 else if n < 1 / 10 then 3 else 2)"
  shows "numberToString toStr n = toFixed toStr n k \<and>
     fraction_digits k (numberToString toStr n) \<and>
     scaled_value k (numberToString toStr n) = nat \<lfloor>n * 10 ^ k + 1 / 2\<rfloor>"
proof -
  have e: "numberToString toStr n = toFixed toStr n k"
    using assms(1,3) by (simp add: numberToString_def)
  have n0: "0 \<le> n" using assms(1) by simp
  have k0: "0 < k" using assms(3) by simp
  show ?thesis
    unfolding e using toFixed_fraction_digits[OF n0 assms(2) k0] by simp
qed

lemma numberToString_branches:
  "(n < 1 / 10000 \<longrightarrow> numberToString toStr n = toStr n) \<and>
   (1 / 10000 \<le> n \<and> n < 1 / 100 \<longrightarrow>
      numberToString toStr n = toFixed toStr n 4 \<and> fraction_digits 4 (numberToString toStr n) \<and>
      scaled_value 4 (numberToString toStr n) = nat \<lfloor>n * 10 ^ 4 + 1 / 2\<rfloor>) \<and>
   (1 / 100 \<le> n \<and> n < 1 / 10 \<longrightarrow>
      numberToString toStr n = toFixed toStr n 3 \<and> fraction_digits 3 (numberToString toStr n) \<and>
      scaled_value 3 (numberToString toStr n) = nat \<lfloor>n * 10 ^ 3 + 1 / 2\<rfloor>) \<and>
   (1 / 10 \<le> n \<and> n < 10 ^ 21 \<longrightarrow>
      numberToString toStr n = toFixed toStr n 2 \<and> fraction_digits 2 (numberToString toStr n) \<and>
      scaled_value 2 (numberToString toStr n) = nat \<lfloor>n * 10 ^ 2 + 1 / 2\<rfloor>)"
proof (intro conjI impI)
  show "numberToString toStr n = toStr n" if "n < 1 / 10000"
    using that by (simp add: numberToString_def)
next
  assume a: "1 / 10000 \<le> n \<and> n < 1 / 100"
  then have "n < 10 ^ 21" by simp
  then have r: "numberToString toStr n = toFixed toStr n 4 \<and>
     fraction_digits 4 (numberToString toStr n) \<and>
     scaled_value 4 (numberToString toStr n) = nat \<lfloor>n * 10 ^ 4 + 1 / 2\<rfloor>"
    using a by (intro numberToString_fixed) simp_all
  show "numberToString toStr n = toFixed toStr n 4" using r by blast
  show "fraction_digits 4 (numberToString toStr n)" using r by blast
  show "scaled_value 4 (numberToString toStr n) = nat \<lfloor>n * 10 ^ 4 + 1 / 2\<rfloor>" using r by blast
next
  assume a: "1 / 100 \<le> n \<and> n < 1 / 10"
  then have "n < 10 ^ 21" by simp
  then have r: "numberToString toStr n = toFixed toStr n 3 \<and>
     fraction_digits 3 (numberToString toStr n) \<and>
     scaled_value 3 (numberToString toStr n) = nat \<lfloor>n * 10 ^ 3 + 1 / 2\<rfloor>"
    using a by (intro numberToString_fixed) simp_all
  show "numberToString toStr n = toFixed toStr n 3" using r by blast
  show "fraction_digits 3 (numberToString toStr n)" using r by blast
  show "scaled_value 3 (numberToString toStr n) = nat \<lfloor>n * 10 ^ 3 + 1 / 2\<rfloor>" using r by blast
next
  assume a: "1 / 10 \<le> n \<and> n < 10 ^ 21"
  then have r: "numberToString toStr n = toFixed toStr n 2 \<and>
     fraction_digits 2 (numberToString toStr n) \<and>
     scaled_value 2 (numberToString toStr n) = nat \<lfloor>n * 10 ^ 2 + 1 / 2\<rfloor>"
    by (intro numberToString_fixed) simp_all
  show "numberToString toStr n = toFixed toStr n 2" using r by blast
  show "fraction_digits 2 (numberToString toStr n)" using r by blast
  show "scaled_value 2 (numberToString toStr n) = nat \<lfloor>n * 10 ^ 2 + 1 / 2\<rfloor>" using r by blast
qed

text \<open>
  C7, as stated, fails. For \<open>10^21\<close>, which is not below 0.1, the label text is the default
  conversion of the number (\<^verbatim>\<open>1e+21\<close>), which is not a numeral with 2 fraction digits:
  from \<open>10^21\<close> on \<open>toFixed\<close> gives the default conversion.
\<close>

theorem numberToString_default:
  "numberToString exponential_1e21 (10 ^ 21) = ''1e+21'' \<and> \<not> fraction_digits 2 ''1e+21''"
  by (simp add: numberToString_def toFixed_def exponential_1e21_def fraction_digits_def)

text \<open>
  C7, as amended. For every number \<open>n\<close> below \<open>10^21\<close> (in particular every non-negative
  one): below 0.0001 the label text is the default conversion of \<open>n\<close>; from 0.0001 and
  below 0.01 it is \<open>n.toFixed(4)\<close>, a numeral with 4 fraction digits; from 0.01 and below
  0.1 it is \<open>n.toFixed(3)\<close>, with 3 fraction digits; from 0.1 on it is \<open>n.toFixed(2)\<close>, with
  2 fraction digits. In each case the digits are those of the integer nearest to \<open>n\<close> times
  the power of ten (the larger one on a tie). So 0.00005 gives its default string, 0.005
  gives "0.0050", 0.05 gives "0.050" and 1.23456 gives "1.23".
\<close>

theorem numberToString_format:
  "(n < 1 / 10000 \<longrightarrow> numberToString toStr n = toStr n) \<and>
   (1 / 10000 \<le> n \<and> n < 1 / 100 \<longrightarrow>
      numberToString toStr n = toFixed toStr n 4 \<and> fraction_digits 4 (numberToString toStr n) \<and>
      scaled_value 4 (numberToString toStr n) = nat \<lfloor>n * 10 ^ 4 + 1 / 2\<rfloor>) \<and>
   (1 / 100 \<le> n \<and> n < 1 / 10 \<longrightarrow>
      numberToString toStr n = toFixed toStr n 3 \<and> fraction_digits 3 (numberToString toStr n) \<and>
      scaled_value 3 (numberToString toStr n) = nat \<lfloor>n * 10 ^ 3 + 1 / 2\<rfloor>) \<and>
   (1 / 10 \<le> n \<and> n < 10 ^ 21 \<longrightarrow>
      numberToString toStr n = toFixed toStr n 2 \<and> fraction_digits 2 (numberToString toStr n) \<and>
      scaled_value 2 (numberToString toStr n) = nat \<lfloor>n * 10 ^ 2 + 1 / 2\<rfloor>) \<and>
   numberToString toStr (5 / 100000) = toStr (5 / 100000) \<and>
   numberToString toStr (5 / 1000) = ''0.0050'' \<and>
   numberToString toStr (5 / 100) = ''0.050'' \<and>
   numberToString toStr (123456 / 100000) = ''1.23''"
  using numberToString_branches[of n toStr] numberToString_examples[of toStr] by blast

theorem numberToString_format_witness:
  "(1 / 10000 \<le> (3 / 1000 :: real) \<and> (3 / 1000 :: real) < 1 / 100) \<and>
   numberToString exponential_1e21 (3 / 1000) = ''0.0030'' \<and>
   fraction_digits 4 ''0.0030'' \<and> scaled_value 4 ''0.0030'' = 30 \<and>
   (1 / 100 \<le> (7 / 100 :: real) \<and> (7 / 100 :: real) < 1 / 10) \<and>
   numberToString exponential_1e21 (7 / 100) = ''0.070'' \<and>
   (1 / 10 \<le> (25 / 2 :: real) \<and> (25 / 2 :: real) < 10 ^ 21) \<and>
   numberToString exponential_1e21 (25 / 2) = ''12.50'' \<and>
   fraction_digits 2 ''12.50'' \<and> scaled_value 2 ''12.50'' = 1250 \<and>
   ((0 :: real) < 1 / 10000) \<and>
   numberToString exponential_1e21 0 = exponential_1e21 0"
proof -
  have a: "toFixed exponential_1e21 (3 / 1000) 4 = ''0.0030''"
    by (simp add: toFixed_def Let_def decimal_digits.simps replicate_numeral)
  have b: "toFixed exponential_1e21 (7 / 100) 3 = ''0.070''"
    by (simp add: toFixed_def Let_def decimal_digits.simps replicate_numeral)
  have c: "toFixed exponential_1e21 (25 / 2) 2 = ''12.50''"
    by (simp add: toFixed_def Let_def decimal_digits.simps replicate_numeral)
  have f: "(nat \<lfloor>(3 / 1000 :: real) * 10 ^ 4 + 1 / 2\<rfloor>) = 30"
       "(nat \<lfloor>(25 / 2 :: real) * 10 ^ 2 + 1 / 2\<rfloor>) = 1250"
    by simp_all
  have p: "1 / 10000 \<le> (3 / 1000 :: real) \<and> (3 / 1000 :: real) < 1 / 100"
      "1 / 100 \<le> (7 / 100 :: real) \<and> (7 / 100 :: real) < 1 / 10"
      "1 / 10 \<le> (25 / 2 :: real) \<and> (25 / 2 :: real) < 10 ^ 21"
      "(0 :: real) < 1 / 10000"
    by simp_all
  have r1: "numberToString exponential_1e21 (3 / 1000) = toFixed exponential_1e21 (3 / 1000) 4 \<and>
      fraction_digits 4 (numberToString exponential_1e21 (3 / 1000)) \<and>
      scaled_value 4 (numberToString exponential_1e21 (3 / 1000)) = nat \<lfloor>(3 / 1000 :: real) * 10 ^ 4 + 1 / 2\<rfloor>"
    using numberToString_format[of "3 / 1000" exponential_1e21] p(1) by blast
  have r2: "numberToString exponential_1e21 (7 / 100) = toFixed exponential_1e21 (7 / 100) 3"
    using numberToString_format[of "7 / 100" exponential_1e21] p(2) by blast
  have r3: "numberToString exponential_1e21 (25 / 2) = toFixed exponential_1e21 (25 / 2) 2 \<and>
      fraction_digits 2 (numberToString exponential_1e21 (25 / 2)) \<and>
      scaled_value 2 (numberToString exponential_1e21 (25 / 2)) = nat \<lfloor>(25 / 2 :: real) * 10 ^ 2 + 1 / 2\<rfloor>"
    using numberToString_format[of "25 / 2" exponential_1e21] p(3) by blast
  have r4: "numberToString exponential_1e21 0 = exponential_1e21 0"
    using numberToString_format[of 0 exponential_1e21] p(4) by blast
  have e1: "numberToString exponential_1e21 (3 / 1000) = ''0.0030''"
      "fraction_digits 4 ''0.0030''" "scaled_value 4 ''0.0030'' = 30"
    using r1 a f(1) by metis+
  have e2: "numberToString exponential_1e21 (7 / 100) = ''0.070''"
    using r2 b by metis
  have e3: "numberToString exponential_1e21 (25 / 2) = ''12.50''"
      "fraction_digits 2 ''12.50''" "scaled_value 2 ''12.50'' = 1250"
    using r3 c f(2) by metis+
  show ?thesis using p e1 e2 e3 r4 by blast
qed

section \<open>How the operations change the state\<close>

subsection \<open>Lists\<close>

lemma removeAll_as_filter: "removeAll x xs = filter (\<lambda>y. y \<noteq> x) xs"
  by (induction xs) auto

subsection \<open>The simple steps as record updates\<close>

lemma scene_remove_field_eq:
  "scene_remove_field f s = s\<lparr>sceneChildren := filter (\<lambda>y. Some y \<noteq> f s) (sceneChildren s)\<rparr>"
  by (cases "f s") (simp_all add: scene_remove_field_def scene_remove_def removeAll_as_filter)

lemma scene_add_eq:
  "scene_add x s =
     s\<lparr>sceneChildren := removeAll x (sceneChildren s) @ [x], childrenOf := detach x (childrenOf s)\<rparr>"
  by (simp add: scene_add_def removeFromParent_def detach_def Let_def)

lemma object_add_eq:
  "object_add p x s =
     s\<lparr>sceneChildren := removeAll x (sceneChildren s),
       childrenOf := (detach x (childrenOf s))(p := removeAll x (childrenOf s p) @ [x])\<rparr>"
  by (simp add: object_add_def removeFromParent_def detach_def Let_def)

lemma createPoints_eq:
  "createPoints n s =
     (Obj (nextId s) OBJ_NAME,
      s\<lparr>position := (position s)(Obj (nextId s) OBJ_NAME := replicate (MAX_POINTS * 3) 0),
        drawCount := (drawCount s)(Obj (nextId s) OBJ_NAME := Some 0),
        nextId := Suc (nextId s)\<rparr>)"
  by (simp add: createPoints_def newObject_def setDrawRange_def Let_def)

lemma createLine_eq:
  "createLine n s =
     (Obj (nextId s) OBJ_NAME,
      s\<lparr>position := (position s)(Obj (nextId s) OBJ_NAME := replicate (n * 3) 0),
        drawCount := (drawCount s)(Obj (nextId s) OBJ_NAME := None),
        nextId := Suc (nextId s)\<rparr>)"
  by (simp add: createLine_def newObject_def Let_def)

lemma createFaces_eq:
  "createFaces s =
     (Obj (nextId s) OBJ_NAME,
      s\<lparr>position := (position s)(Obj (nextId s) OBJ_NAME := []),
        drawCount := (drawCount s)(Obj (nextId s) OBJ_NAME := None),
        nextId := Suc (nextId s)\<rparr>)"
  by (simp add: createFaces_def newObject_def Let_def)

lemma createHelper_eq:
  "createHelper s = (Obj (nextId s) LABEL_NAME, s\<lparr>nextId := Suc (nextId s)\<rparr>)"
  by (simp add: createHelper_def newObject_def)

lemma createCurve_eq:
  "createCurve p0 p1 p2 s =
     (Obj (nextId s) LABEL_NAME,
      s\<lparr>drawCount := (drawCount s)(Obj (nextId s) LABEL_NAME := None),
        position := (position s)(Obj (nextId s) LABEL_NAME :=
           flatten (map (bezierPoint p0 p1 p2) [0, 1 / 4, 2 / 4, 3 / 4, 1])),
        nextId := Suc (nextId s)\<rparr>)"
  by (simp add: createCurve_def newObject_def setFromPoints_def Let_def)

lemma open_mode_eq:
  "open_mode m s = s\<lparr>mode := (case m of None \<Rightarrow> mode s | Some md \<Rightarrow> md)\<rparr>"
  by (cases m) (simp_all add: open_mode_def)

lemma open_points_eq:
  "open_points s =
     s\<lparr>sceneChildren := removeAll (Obj (nextId s) OBJ_NAME) (sceneChildren s) @ [Obj (nextId s) OBJ_NAME],
       childrenOf := detach (Obj (nextId s) OBJ_NAME) (childrenOf s),
       position := (position s)(Obj (nextId s) OBJ_NAME := replicate (MAX_POINTS * 3) 0),
       drawCount := (drawCount s)(Obj (nextId s) OBJ_NAME := Some 0),
       nextId := Suc (nextId s),
       points := Some (Obj (nextId s) OBJ_NAME)\<rparr>"
  by (simp add: open_points_def createPoints_eq scene_add_eq Let_def)

lemma open_polyline_eq:
  "open_polyline s =
     s\<lparr>sceneChildren := removeAll (Obj (nextId s) OBJ_NAME) (sceneChildren s) @ [Obj (nextId s) OBJ_NAME],
       childrenOf := detach (Obj (nextId s) OBJ_NAME) (childrenOf s),
       position := (position s)(Obj (nextId s) OBJ_NAME := replicate (MAX_POINTS * 3) 0),
       drawCount := (drawCount s)(Obj (nextId s) OBJ_NAME := None),
       nextId := Suc (nextId s),
       polyline := Some (Obj (nextId s) OBJ_NAME)\<rparr>"
  by (simp add: open_polyline_def createLine_eq scene_add_eq Let_def)

lemma drop_children_Nil: "drop_children pl [] ch = ch"
  by (cases pl) (simp_all add: drop_children_def)

lemma drop_children_Cons:
  "drop_children pl xs (drop_children pl [a] ch) = drop_children pl (a # xs) ch"
  by (cases pl) (auto simp: drop_children_def fun_eq_iff)

lemma fold_object_remove:
  "fold (\<lambda>item s. case polyline s of None \<Rightarrow> s | Some l \<Rightarrow> object_remove l item s) xs s =
   s\<lparr>childrenOf := drop_children (polyline s) xs (childrenOf s)\<rparr>"
proof (induction xs arbitrary: s)
  case Nil
  then show ?case by (simp add: drop_children_Nil)
next
  case (Cons a xs)
  have one: "(case polyline s of None \<Rightarrow> s | Some l \<Rightarrow> object_remove l a s) =
     s\<lparr>childrenOf := drop_children (polyline s) [a] (childrenOf s)\<rparr>"
    by (cases "polyline s") (simp_all add: drop_children_def object_remove_def removeAll_as_filter)
  have "fold (\<lambda>item s. case polyline s of None \<Rightarrow> s | Some l \<Rightarrow> object_remove l item s) (a # xs) s =
     fold (\<lambda>item s. case polyline s of None \<Rightarrow> s | Some l \<Rightarrow> object_remove l item s) xs
       (s\<lparr>childrenOf := drop_children (polyline s) [a] (childrenOf s)\<rparr>)"
    by (simp only: fold_simps one)
  also have "\<dots> = s\<lparr>childrenOf := drop_children (polyline s) (a # xs) (childrenOf s)\<rparr>"
    by (simp add: Cons.IH drop_children_Cons)
  finally show ?case .
qed

lemma close_labels_eq:
  "close_labels s =
     s\<lparr>childrenOf := drop_children (polyline s) (tempLineLabelArr s) (childrenOf s)\<rparr>"
  by (simp add: close_labels_def fold_object_remove drop_children_Nil)

lemma fold_addDraggable:
  "fold (\<lambda>object s. if P object then addDraggableObjects object s else s) xs s =
     s\<lparr>dragObjects := dragObjects s @ filter P xs\<rparr>"
  by (induction xs arbitrary: s) (simp_all add: addDraggableObjects_def)

lemma complete_draggable_eq:
  "complete_draggable s =
     s\<lparr>dragObjects := dragObjects s @ drag_labels (polyline s) (childrenOf s)\<rparr>"
  by (cases "polyline s") (simp_all add: complete_draggable_def fold_addDraggable drag_labels_def traverse_def addDraggableObjects_def)

lemmas upd_forms =
  addCanvasListener_def removeCanvasListener_def addWindowListener_def removeWindowListener_def
  scene_remove_field_eq scene_add_eq object_add_eq object_remove_def writeVertex_def
  setDrawRange_def setFromPoints_def addDraggableObjects_def clearDraggableObjects_def
  close_labels_eq close_reset_def open_mode_eq open_reset_def open_points_eq open_polyline_eq
  open_finish_def click_push_def complete_draggable_eq

subsection \<open>close as one record update\<close>

lemma close_eq:
  "close s =
     s\<lparr>canvasListeners := close_listeners (canvasListeners s),
       windowListeners := filter (\<lambda>l. l \<noteq> (Keydown, H_keydown)) (windowListeners s),
       sceneChildren := close_scene s,
       childrenOf := drop_children (polyline s) (tempLineLabelArr s) (childrenOf s),
       tempLabel := None, helpLabel := None, pointArray := [], pointsArray := [],
       tempLineLabelArr := [], raycaster := False, tempPoints := None,
       tempLine := None, tempLineForArea := None, points := None, polyline := None,
       fontSize := 0, cursor := '''', dragObjects := []\<rparr>"
  by (simp add: close_def close_scene_def close_listeners_def Let_def upd_forms
      removeListener_def removeAll_as_filter)

subsection \<open>Fields that the conditional steps leave alone\<close>

lemma open_faces_frame [simp]:
  "mode (open_faces s) = mode s"
  "font (open_faces s) = font s"
  "helpLabel (open_faces s) = helpLabel s"
  "mouseMoved (open_faces s) = mouseMoved s"
  "isCompleted (open_faces s) = isCompleted s"
  "points (open_faces s) = points s"
  "polyline (open_faces s) = polyline s"
  "curve (open_faces s) = curve s"
  "tempPoints (open_faces s) = tempPoints s"
  "tempLine (open_faces s) = tempLine s"
  "tempLineForArea (open_faces s) = tempLineForArea s"
  "tempLabel (open_faces s) = tempLabel s"
  "tempLineLabelArr (open_faces s) = tempLineLabelArr s"
  "pointArray (open_faces s) = pointArray s"
  "pointsArray (open_faces s) = pointsArray s"
  "fontSize (open_faces s) = fontSize s"
  "tempFontSize (open_faces s) = tempFontSize s"
  "lastClickTime (open_faces s) = lastClickTime s"
  "raycaster (open_faces s) = raycaster s"
  "canvasListeners (open_faces s) = canvasListeners s"
  "windowListeners (open_faces s) = windowListeners s"
  "dragObjects (open_faces s) = dragObjects s"
  "cursor (open_faces s) = cursor s"
  "console (open_faces s) = console s"
  by (simp_all add: open_faces_def createFaces_eq upd_forms Let_def)

lemma addHelpLabel_frame [simp]:
  "mode (addHelpLabel s) = mode s"
  "font (addHelpLabel s) = font s"
  "mouseMoved (addHelpLabel s) = mouseMoved s"
  "isCompleted (addHelpLabel s) = isCompleted s"
  "points (addHelpLabel s) = points s"
  "polyline (addHelpLabel s) = polyline s"
  "faces (addHelpLabel s) = faces s"
  "curve (addHelpLabel s) = curve s"
  "tempPoints (addHelpLabel s) = tempPoints s"
  "tempLine (addHelpLabel s) = tempLine s"
  "tempLineForArea (addHelpLabel s) = tempLineForArea s"
  "tempLabel (addHelpLabel s) = tempLabel s"
  "tempLineLabelArr (addHelpLabel s) = tempLineLabelArr s"
  "pointArray (addHelpLabel s) = pointArray s"
  "pointsArray (addHelpLabel s) = pointsArray s"
  "fontSize (addHelpLabel s) = fontSize s"
  "tempFontSize (addHelpLabel s) = tempFontSize s"
  "lastClickTime (addHelpLabel s) = lastClickTime s"
  "raycaster (addHelpLabel s) = raycaster s"
  "canvasListeners (addHelpLabel s) = canvasListeners s"
  "windowListeners (addHelpLabel s) = windowListeners s"
  "position (addHelpLabel s) = position s"
  "drawCount (addHelpLabel s) = drawCount s"
  "dragObjects (addHelpLabel s) = dragObjects s"
  "cursor (addHelpLabel s) = cursor s"
  "console (addHelpLabel s) = console s"
  by (simp_all add: addHelpLabel_def createHelper_eq upd_forms Let_def)

lemma addOrUpdateLabel_frame [simp]:
  "mode (addOrUpdateLabel s) = mode s"
  "font (addOrUpdateLabel s) = font s"
  "helpLabel (addOrUpdateLabel s) = helpLabel s"
  "mouseMoved (addOrUpdateLabel s) = mouseMoved s"
  "isCompleted (addOrUpdateLabel s) = isCompleted s"
  "points (addOrUpdateLabel s) = points s"
  "polyline (addOrUpdateLabel s) = polyline s"
  "faces (addOrUpdateLabel s) = faces s"
  "curve (addOrUpdateLabel s) = curve s"
  "tempPoints (addOrUpdateLabel s) = tempPoints s"
  "tempLine (addOrUpdateLabel s) = tempLine s"
  "tempLineForArea (addOrUpdateLabel s) = tempLineForArea s"
  "tempLineLabelArr (addOrUpdateLabel s) = tempLineLabelArr s"
  "pointArray (addOrUpdateLabel s) = pointArray s"
  "pointsArray (addOrUpdateLabel s) = pointsArray s"
  "fontSize (addOrUpdateLabel s) = fontSize s"
  "tempFontSize (addOrUpdateLabel s) = tempFontSize s"
  "lastClickTime (addOrUpdateLabel s) = lastClickTime s"
  "raycaster (addOrUpdateLabel s) = raycaster s"
  "canvasListeners (addOrUpdateLabel s) = canvasListeners s"
  "windowListeners (addOrUpdateLabel s) = windowListeners s"
  "position (addOrUpdateLabel s) = position s"
  "drawCount (addOrUpdateLabel s) = drawCount s"
  "dragObjects (addOrUpdateLabel s) = dragObjects s"
  "cursor (addOrUpdateLabel s) = cursor s"
  by (simp_all add: addOrUpdateLabel_def createHelper_eq upd_forms Let_def)

lemma complete_area_frame [simp]:
  "mode (snd (snd (complete_area c st))) = mode (snd (snd st))"
  "font (snd (snd (complete_area c st))) = font (snd (snd st))"
  "helpLabel (snd (snd (complete_area c st))) = helpLabel (snd (snd st))"
  "mouseMoved (snd (snd (complete_area c st))) = mouseMoved (snd (snd st))"
  "isCompleted (snd (snd (complete_area c st))) = isCompleted (snd (snd st))"
  "points (snd (snd (complete_area c st))) = points (snd (snd st))"
  "polyline (snd (snd (complete_area c st))) = polyline (snd (snd st))"
  "faces (snd (snd (complete_area c st))) = faces (snd (snd st))"
  "curve (snd (snd (complete_area c st))) = curve (snd (snd st))"
  "tempPoints (snd (snd (complete_area c st))) = tempPoints (snd (snd st))"
  "tempLine (snd (snd (complete_area c st))) = tempLine (snd (snd st))"
  "tempLineForArea (snd (snd (complete_area c st))) = tempLineForArea (snd (snd st))"
  "tempLineLabelArr (snd (snd (complete_area c st))) = tempLineLabelArr (snd (snd st))"
  "pointArray (snd (snd (complete_area c st))) = pointArray (snd (snd st))"
  "pointsArray (snd (snd (complete_area c st))) = pointsArray (snd (snd st))"
  "fontSize (snd (snd (complete_area c st))) = fontSize (snd (snd st))"
  "tempFontSize (snd (snd (complete_area c st))) = tempFontSize (snd (snd st))"
  "lastClickTime (snd (snd (complete_area c st))) = lastClickTime (snd (snd st))"
  "raycaster (snd (snd (complete_area c st))) = raycaster (snd (snd st))"
  "canvasListeners (snd (snd (complete_area c st))) = canvasListeners (snd (snd st))"
  "windowListeners (snd (snd (complete_area c st))) = windowListeners (snd (snd st))"
  "dragObjects (snd (snd (complete_area c st))) = dragObjects (snd (snd st))"
  "cursor (snd (snd (complete_area c st))) = cursor (snd (snd st))"
  by (simp_all add: complete_area_def upd_forms Let_def split_beta split: option.splits)

lemma complete_distance_frame [simp]:
  "mode (snd (snd (complete_distance c st))) = mode (snd (snd st))"
  "font (snd (snd (complete_distance c st))) = font (snd (snd st))"
  "helpLabel (snd (snd (complete_distance c st))) = helpLabel (snd (snd st))"
  "mouseMoved (snd (snd (complete_distance c st))) = mouseMoved (snd (snd st))"
  "isCompleted (snd (snd (complete_distance c st))) = isCompleted (snd (snd st))"
  "points (snd (snd (complete_distance c st))) = points (snd (snd st))"
  "polyline (snd (snd (complete_distance c st))) = polyline (snd (snd st))"
  "faces (snd (snd (complete_distance c st))) = faces (snd (snd st))"
  "curve (snd (snd (complete_distance c st))) = curve (snd (snd st))"
  "tempPoints (snd (snd (complete_distance c st))) = tempPoints (snd (snd st))"
  "tempLine (snd (snd (complete_distance c st))) = tempLine (snd (snd st))"
  "tempLineForArea (snd (snd (complete_distance c st))) = tempLineForArea (snd (snd st))"
  "tempLabel (snd (snd (complete_distance c st))) = tempLabel (snd (snd st))"
  "tempLineLabelArr (snd (snd (complete_distance c st))) = tempLineLabelArr (snd (snd st))"
  "pointArray (snd (snd (complete_distance c st))) = pointArray (snd (snd st))"
  "pointsArray (snd (snd (complete_distance c st))) = pointsArray (snd (snd st))"
  "fontSize (snd (snd (complete_distance c st))) = fontSize (snd (snd st))"
  "tempFontSize (snd (snd (complete_distance c st))) = tempFontSize (snd (snd st))"
  "lastClickTime (snd (snd (complete_distance c st))) = lastClickTime (snd (snd st))"
  "raycaster (snd (snd (complete_distance c st))) = raycaster (snd (snd st))"
  "canvasListeners (snd (snd (complete_distance c st))) = canvasListeners (snd (snd st))"
  "windowListeners (snd (snd (complete_distance c st))) = windowListeners (snd (snd st))"
  "sceneChildren (snd (snd (complete_distance c st))) = sceneChildren (snd (snd st))"
  "childrenOf (snd (snd (complete_distance c st))) = childrenOf (snd (snd st))"
  "position (snd (snd (complete_distance c st))) = position (snd (snd st))"
  "drawCount (snd (snd (complete_distance c st))) = drawCount (snd (snd st))"
  "dragObjects (snd (snd (complete_distance c st))) = dragObjects (snd (snd st))"
  "cursor (snd (snd (complete_distance c st))) = cursor (snd (snd st))"
  "console (snd (snd (complete_distance c st))) = console (snd (snd st))"
  "nextId (snd (snd (complete_distance c st))) = nextId (snd (snd st))"
  by (simp_all add: complete_distance_def Let_def split_beta)

lemma complete_angle_frame [simp]:
  "mode (snd (snd (complete_angle c st))) = mode (snd (snd st))"
  "font (snd (snd (complete_angle c st))) = font (snd (snd st))"
  "helpLabel (snd (snd (complete_angle c st))) = helpLabel (snd (snd st))"
  "mouseMoved (snd (snd (complete_angle c st))) = mouseMoved (snd (snd st))"
  "isCompleted (snd (snd (complete_angle c st))) = isCompleted (snd (snd st))"
  "points (snd (snd (complete_angle c st))) = points (snd (snd st))"
  "polyline (snd (snd (complete_angle c st))) = polyline (snd (snd st))"
  "faces (snd (snd (complete_angle c st))) = faces (snd (snd st))"
  "tempPoints (snd (snd (complete_angle c st))) = tempPoints (snd (snd st))"
  "tempLine (snd (snd (complete_angle c st))) = tempLine (snd (snd st))"
  "tempLineForArea (snd (snd (complete_angle c st))) = tempLineForArea (snd (snd st))"
  "tempLineLabelArr (snd (snd (complete_angle c st))) = tempLineLabelArr (snd (snd st))"
  "pointArray (snd (snd (complete_angle c st))) = pointArray (snd (snd st))"
  "pointsArray (snd (snd (complete_angle c st))) = pointsArray (snd (snd st))"
  "fontSize (snd (snd (complete_angle c st))) = fontSize (snd (snd st))"
  "tempFontSize (snd (snd (complete_angle c st))) = tempFontSize (snd (snd st))"
  "lastClickTime (snd (snd (complete_angle c st))) = lastClickTime (snd (snd st))"
  "raycaster (snd (snd (complete_angle c st))) = raycaster (snd (snd st))"
  "canvasListeners (snd (snd (complete_angle c st))) = canvasListeners (snd (snd st))"
  "windowListeners (snd (snd (complete_angle c st))) = windowListeners (snd (snd st))"
  "dragObjects (snd (snd (complete_angle c st))) = dragObjects (snd (snd st))"
  "cursor (snd (snd (complete_angle c st))) = cursor (snd (snd st))"
  by (simp_all add: complete_angle_def createCurve_eq upd_forms Let_def split_beta split: option.splits)

lemma complete_clear_frame [simp]:
  "mode (complete_clear a b s) = mode s"
  "font (complete_clear a b s) = font s"
  "helpLabel (complete_clear a b s) = helpLabel s"
  "mouseMoved (complete_clear a b s) = mouseMoved s"
  "isCompleted (complete_clear a b s) = isCompleted s"
  "faces (complete_clear a b s) = faces s"
  "curve (complete_clear a b s) = curve s"
  "tempPoints (complete_clear a b s) = tempPoints s"
  "tempLine (complete_clear a b s) = tempLine s"
  "tempLineForArea (complete_clear a b s) = tempLineForArea s"
  "tempLabel (complete_clear a b s) = tempLabel s"
  "tempLineLabelArr (complete_clear a b s) = tempLineLabelArr s"
  "pointArray (complete_clear a b s) = pointArray s"
  "pointsArray (complete_clear a b s) = pointsArray s"
  "fontSize (complete_clear a b s) = fontSize s"
  "tempFontSize (complete_clear a b s) = tempFontSize s"
  "lastClickTime (complete_clear a b s) = lastClickTime s"
  "raycaster (complete_clear a b s) = raycaster s"
  "canvasListeners (complete_clear a b s) = canvasListeners s"
  "windowListeners (complete_clear a b s) = windowListeners s"
  "childrenOf (complete_clear a b s) = childrenOf s"
  "position (complete_clear a b s) = position s"
  "drawCount (complete_clear a b s) = drawCount s"
  "dragObjects (complete_clear a b s) = dragObjects s"
  "cursor (complete_clear a b s) = cursor s"
  "console (complete_clear a b s) = console s"
  "nextId (complete_clear a b s) = nextId s"
  by (simp_all add: complete_clear_def upd_forms Let_def)

lemma complete_draggable_frame [simp]:
  "mode (complete_draggable s) = mode s"
  "font (complete_draggable s) = font s"
  "helpLabel (complete_draggable s) = helpLabel s"
  "mouseMoved (complete_draggable s) = mouseMoved s"
  "isCompleted (complete_draggable s) = isCompleted s"
  "points (complete_draggable s) = points s"
  "polyline (complete_draggable s) = polyline s"
  "faces (complete_draggable s) = faces s"
  "curve (complete_draggable s) = curve s"
  "tempPoints (complete_draggable s) = tempPoints s"
  "tempLine (complete_draggable s) = tempLine s"
  "tempLineForArea (complete_draggable s) = tempLineForArea s"
  "tempLabel (complete_draggable s) = tempLabel s"
  "tempLineLabelArr (complete_draggable s) = tempLineLabelArr s"
  "pointArray (complete_draggable s) = pointArray s"
  "pointsArray (complete_draggable s) = pointsArray s"
  "fontSize (complete_draggable s) = fontSize s"
  "tempFontSize (complete_draggable s) = tempFontSize s"
  "lastClickTime (complete_draggable s) = lastClickTime s"
  "raycaster (complete_draggable s) = raycaster s"
  "canvasListeners (complete_draggable s) = canvasListeners s"
  "windowListeners (complete_draggable s) = windowListeners s"
  "sceneChildren (complete_draggable s) = sceneChildren s"
  "childrenOf (complete_draggable s) = childrenOf s"
  "position (complete_draggable s) = position s"
  "drawCount (complete_draggable s) = drawCount s"
  "cursor (complete_draggable s) = cursor s"
  "console (complete_draggable s) = console s"
  "nextId (complete_draggable s) = nextId s"
  by (simp_all add: complete_draggable_eq)

lemma complete_tempLine_frame [simp]:
  "mode (complete_tempLine s) = mode s"
  "font (complete_tempLine s) = font s"
  "helpLabel (complete_tempLine s) = helpLabel s"
  "mouseMoved (complete_tempLine s) = mouseMoved s"
  "isCompleted (complete_tempLine s) = isCompleted s"
  "points (complete_tempLine s) = points s"
  "polyline (complete_tempLine s) = polyline s"
  "faces (complete_tempLine s) = faces s"
  "curve (complete_tempLine s) = curve s"
  "tempPoints (complete_tempLine s) = tempPoints s"
  "tempLine (complete_tempLine s) = tempLine s"
  "tempLineForArea (complete_tempLine s) = tempLineForArea s"
  "tempLabel (complete_tempLine s) = tempLabel s"
  "tempLineLabelArr (complete_tempLine s) = tempLineLabelArr s"
  "pointArray (complete_tempLine s) = pointArray s"
  "pointsArray (complete_tempLine s) = pointsArray s"
  "fontSize (complete_tempLine s) = fontSize s"
  "tempFontSize (complete_tempLine s) = tempFontSize s"
  "lastClickTime (complete_tempLine s) = lastClickTime s"
  "raycaster (complete_tempLine s) = raycaster s"
  "canvasListeners (complete_tempLine s) = canvasListeners s"
  "windowListeners (complete_tempLine s) = windowListeners s"
  "childrenOf (complete_tempLine s) = childrenOf s"
  "position (complete_tempLine s) = position s"
  "drawCount (complete_tempLine s) = drawCount s"
  "dragObjects (complete_tempLine s) = dragObjects s"
  "cursor (complete_tempLine s) = cursor s"
  "console (complete_tempLine s) = console s"
  "nextId (complete_tempLine s) = nextId s"
  by (simp_all add: complete_tempLine_def upd_forms Let_def)

lemma move_tempPoints_frame [simp]:
  "mode (move_tempPoints s) = mode s"
  "font (move_tempPoints s) = font s"
  "helpLabel (move_tempPoints s) = helpLabel s"
  "mouseMoved (move_tempPoints s) = mouseMoved s"
  "isCompleted (move_tempPoints s) = isCompleted s"
  "points (move_tempPoints s) = points s"
  "polyline (move_tempPoints s) = polyline s"
  "faces (move_tempPoints s) = faces s"
  "curve (move_tempPoints s) = curve s"
  "tempLine (move_tempPoints s) = tempLine s"
  "tempLineForArea (move_tempPoints s) = tempLineForArea s"
  "tempLabel (move_tempPoints s) = tempLabel s"
  "tempLineLabelArr (move_tempPoints s) = tempLineLabelArr s"
  "pointArray (move_tempPoints s) = pointArray s"
  "pointsArray (move_tempPoints s) = pointsArray s"
  "fontSize (move_tempPoints s) = fontSize s"
  "tempFontSize (move_tempPoints s) = tempFontSize s"
  "lastClickTime (move_tempPoints s) = lastClickTime s"
  "raycaster (move_tempPoints s) = raycaster s"
  "canvasListeners (move_tempPoints s) = canvasListeners s"
  "windowListeners (move_tempPoints s) = windowListeners s"
  "dragObjects (move_tempPoints s) = dragObjects s"
  "cursor (move_tempPoints s) = cursor s"
  "console (move_tempPoints s) = console s"
  by (simp_all add: move_tempPoints_def createPoints_eq upd_forms Let_def split: option.splits)

lemma move_area_first_frame [simp]:
  "mode (move_area_first s) = mode s"
  "font (move_area_first s) = font s"
  "helpLabel (move_area_first s) = helpLabel s"
  "mouseMoved (move_area_first s) = mouseMoved s"
  "isCompleted (move_area_first s) = isCompleted s"
  "points (move_area_first s) = points s"
  "polyline (move_area_first s) = polyline s"
  "faces (move_area_first s) = faces s"
  "curve (move_area_first s) = curve s"
  "tempPoints (move_area_first s) = tempPoints s"
  "tempLine (move_area_first s) = tempLine s"
  "tempLineForArea (move_area_first s) = tempLineForArea s"
  "tempLabel (move_area_first s) = tempLabel s"
  "tempLineLabelArr (move_area_first s) = tempLineLabelArr s"
  "pointArray (move_area_first s) = pointArray s"
  "pointsArray (move_area_first s) = pointsArray s"
  "fontSize (move_area_first s) = fontSize s"
  "tempFontSize (move_area_first s) = tempFontSize s"
  "lastClickTime (move_area_first s) = lastClickTime s"
  "raycaster (move_area_first s) = raycaster s"
  "canvasListeners (move_area_first s) = canvasListeners s"
  "windowListeners (move_area_first s) = windowListeners s"
  "sceneChildren (move_area_first s) = sceneChildren s"
  "childrenOf (move_area_first s) = childrenOf s"
  "dragObjects (move_area_first s) = dragObjects s"
  "cursor (move_area_first s) = cursor s"
  "console (move_area_first s) = console s"
  by (simp_all add: move_area_first_def createLine_eq upd_forms Let_def split: option.splits)

lemma move_line_frame [simp]:
  "mode (move_line p s) = mode s"
  "font (move_line p s) = font s"
  "mouseMoved (move_line p s) = mouseMoved s"
  "isCompleted (move_line p s) = isCompleted s"
  "points (move_line p s) = points s"
  "polyline (move_line p s) = polyline s"
  "faces (move_line p s) = faces s"
  "curve (move_line p s) = curve s"
  "tempPoints (move_line p s) = tempPoints s"
  "tempLineForArea (move_line p s) = tempLineForArea s"
  "tempLineLabelArr (move_line p s) = tempLineLabelArr s"
  "pointArray (move_line p s) = pointArray s"
  "pointsArray (move_line p s) = pointsArray s"
  "fontSize (move_line p s) = fontSize s"
  "tempFontSize (move_line p s) = tempFontSize s"
  "lastClickTime (move_line p s) = lastClickTime s"
  "raycaster (move_line p s) = raycaster s"
  "canvasListeners (move_line p s) = canvasListeners s"
  "windowListeners (move_line p s) = windowListeners s"
  "dragObjects (move_line p s) = dragObjects s"
  "cursor (move_line p s) = cursor s"
  by (simp_all add: move_line_def createLine_eq upd_forms Let_def split: option.splits)

lemma click_polyline_frame [simp]:
  "mode (click_polyline p c s) = mode s"
  "font (click_polyline p c s) = font s"
  "helpLabel (click_polyline p c s) = helpLabel s"
  "mouseMoved (click_polyline p c s) = mouseMoved s"
  "isCompleted (click_polyline p c s) = isCompleted s"
  "points (click_polyline p c s) = points s"
  "polyline (click_polyline p c s) = polyline s"
  "faces (click_polyline p c s) = faces s"
  "curve (click_polyline p c s) = curve s"
  "tempPoints (click_polyline p c s) = tempPoints s"
  "tempLine (click_polyline p c s) = tempLine s"
  "tempLineForArea (click_polyline p c s) = tempLineForArea s"
  "tempLabel (click_polyline p c s) = tempLabel s"
  "pointArray (click_polyline p c s) = pointArray s"
  "pointsArray (click_polyline p c s) = pointsArray s"
  "tempFontSize (click_polyline p c s) = tempFontSize s"
  "lastClickTime (click_polyline p c s) = lastClickTime s"
  "raycaster (click_polyline p c s) = raycaster s"
  "canvasListeners (click_polyline p c s) = canvasListeners s"
  "windowListeners (click_polyline p c s) = windowListeners s"
  "dragObjects (click_polyline p c s) = dragObjects s"
  "cursor (click_polyline p c s) = cursor s"
  "nextId (click_polyline p c s) = nextId s"
  by (simp_all add: click_polyline_def upd_forms Let_def split: option.splits)

lemma click_faces_frame [simp]:
  "mode (click_faces p s) = mode s"
  "font (click_faces p s) = font s"
  "helpLabel (click_faces p s) = helpLabel s"
  "mouseMoved (click_faces p s) = mouseMoved s"
  "isCompleted (click_faces p s) = isCompleted s"
  "points (click_faces p s) = points s"
  "polyline (click_faces p s) = polyline s"
  "faces (click_faces p s) = faces s"
  "curve (click_faces p s) = curve s"
  "tempPoints (click_faces p s) = tempPoints s"
  "tempLine (click_faces p s) = tempLine s"
  "tempLineForArea (click_faces p s) = tempLineForArea s"
  "tempLabel (click_faces p s) = tempLabel s"
  "tempLineLabelArr (click_faces p s) = tempLineLabelArr s"
  "pointArray (click_faces p s) = pointArray s"
  "fontSize (click_faces p s) = fontSize s"
  "tempFontSize (click_faces p s) = tempFontSize s"
  "lastClickTime (click_faces p s) = lastClickTime s"
  "raycaster (click_faces p s) = raycaster s"
  "canvasListeners (click_faces p s) = canvasListeners s"
  "windowListeners (click_faces p s) = windowListeners s"
  "sceneChildren (click_faces p s) = sceneChildren s"
  "childrenOf (click_faces p s) = childrenOf s"
  "drawCount (click_faces p s) = drawCount s"
  "dragObjects (click_faces p s) = dragObjects s"
  "cursor (click_faces p s) = cursor s"
  "console (click_faces p s) = console s"
  "nextId (click_faces p s) = nextId s"
  by (simp_all add: click_faces_def upd_forms Let_def split: option.splits)

subsection \<open>Fields that the methods and handlers leave alone\<close>

lemma close_frame [simp]:
  "mode (close s) = mode s"
  "font (close s) = font s"
  "mouseMoved (close s) = mouseMoved s"
  "isCompleted (close s) = isCompleted s"
  "faces (close s) = faces s"
  "curve (close s) = curve s"
  "tempFontSize (close s) = tempFontSize s"
  "lastClickTime (close s) = lastClickTime s"
  "position (close s) = position s"
  "drawCount (close s) = drawCount s"
  "console (close s) = console s"
  "nextId (close s) = nextId s"
  by (simp_all add: close_eq)

lemma open_measure_frame [simp]:
  "font (open_measure m s) = font s"
  "mouseMoved (open_measure m s) = mouseMoved s"
  "curve (open_measure m s) = curve s"
  "tempFontSize (open_measure m s) = tempFontSize s"
  "lastClickTime (open_measure m s) = lastClickTime s"
  "console (open_measure m s) = console s"
  by (simp_all add: open_measure_def upd_forms Let_def)

lemma complete_measure_frame [simp]:
  "mode (complete_measure s) = mode s"
  "font (complete_measure s) = font s"
  "helpLabel (complete_measure s) = helpLabel s"
  "mouseMoved (complete_measure s) = mouseMoved s"
  "faces (complete_measure s) = faces s"
  "tempPoints (complete_measure s) = tempPoints s"
  "tempLine (complete_measure s) = tempLine s"
  "tempLineForArea (complete_measure s) = tempLineForArea s"
  "tempLineLabelArr (complete_measure s) = tempLineLabelArr s"
  "pointArray (complete_measure s) = pointArray s"
  "pointsArray (complete_measure s) = pointsArray s"
  "tempFontSize (complete_measure s) = tempFontSize s"
  "lastClickTime (complete_measure s) = lastClickTime s"
  "raycaster (complete_measure s) = raycaster s"
  "canvasListeners (complete_measure s) = canvasListeners s"
  "windowListeners (complete_measure s) = windowListeners s"
  by (simp_all add: complete_measure_def upd_forms Let_def split_beta)

lemma mousemove_frame [simp]:
  "mode (mousemove e s) = mode s"
  "font (mousemove e s) = font s"
  "isCompleted (mousemove e s) = isCompleted s"
  "points (mousemove e s) = points s"
  "polyline (mousemove e s) = polyline s"
  "faces (mousemove e s) = faces s"
  "curve (mousemove e s) = curve s"
  "tempLineForArea (mousemove e s) = tempLineForArea s"
  "tempLineLabelArr (mousemove e s) = tempLineLabelArr s"
  "pointArray (mousemove e s) = pointArray s"
  "pointsArray (mousemove e s) = pointsArray s"
  "fontSize (mousemove e s) = fontSize s"
  "tempFontSize (mousemove e s) = tempFontSize s"
  "lastClickTime (mousemove e s) = lastClickTime s"
  "raycaster (mousemove e s) = raycaster s"
  "canvasListeners (mousemove e s) = canvasListeners s"
  "windowListeners (mousemove e s) = windowListeners s"
  "dragObjects (mousemove e s) = dragObjects s"
  "cursor (mousemove e s) = cursor s"
  by (simp_all add: mousemove_def Let_def split: option.splits)

lemma onMouseClicked_frame [simp]:
  "mode (onMouseClicked e s) = mode s"
  "font (onMouseClicked e s) = font s"
  "helpLabel (onMouseClicked e s) = helpLabel s"
  "mouseMoved (onMouseClicked e s) = mouseMoved s"
  "faces (onMouseClicked e s) = faces s"
  "tempPoints (onMouseClicked e s) = tempPoints s"
  "tempLine (onMouseClicked e s) = tempLine s"
  "tempLineForArea (onMouseClicked e s) = tempLineForArea s"
  "tempFontSize (onMouseClicked e s) = tempFontSize s"
  "raycaster (onMouseClicked e s) = raycaster s"
  "canvasListeners (onMouseClicked e s) = canvasListeners s"
  "windowListeners (onMouseClicked e s) = windowListeners s"
  by (simp_all add: onMouseClicked_def click_auto_def upd_forms Let_def split: option.splits)


subsection \<open>close is idempotent, open closes first\<close>

lemma close_listeners_idem: "close_listeners (close_listeners ls) = close_listeners ls"
  by (simp add: close_listeners_def cong: conj_cong)

lemma close_scene_close: "close_scene (close s) = close_scene s"
  by (simp add: close_eq) (simp add: close_scene_def cong: conj_cong)

lemma close_idem: "close (close s) = close s"
  apply (subst close_eq[of "close s"])
  apply (simp add: close_scene_close)
  apply (simp add: close_eq close_listeners_idem drop_children_def cong: conj_cong)
  done

lemma close_open_mode: "close (open_mode m s) = open_mode m (close s)"
  by (cases m) (simp_all add: close_eq open_mode_def close_scene_def)

lemma open_after_close: "open_measure m (close s) = open_measure m s"
proof -
  have "close (open_mode m (close s)) = close (open_mode m s)"
    by (simp add: close_open_mode close_idem)
  then show ?thesis
    by (simp add: open_measure_def Let_def)
qed

lemma canvasListeners_open:
  "canvasListeners (open_measure m s) =
     addListener (Contextmenu, H_dblclick) (addListener (Mouseup, H_mouseup)
       (addListener (Mousemove, H_mousemove) (addListener (Mousedown, H_mousedown)
         (close_listeners (canvasListeners s)))))"
  by (simp add: open_measure_def Let_def upd_forms close_eq)

lemma windowListeners_open:
  "windowListeners (open_measure m s) =
     addListener (Keydown, H_keydown) (filter (\<lambda>l. l \<noteq> (Keydown, H_keydown)) (windowListeners s))"
  by (simp add: open_measure_def Let_def upd_forms close_eq)

subsection \<open>The state after open\<close>

lemma open_faces_Area:
  "mode s = Area \<Longrightarrow>
   open_faces s =
     s\<lparr>sceneChildren := removeAll (Obj (nextId s) OBJ_NAME) (sceneChildren s) @ [Obj (nextId s) OBJ_NAME],
       childrenOf := detach (Obj (nextId s) OBJ_NAME) (childrenOf s),
       position := (position s)(Obj (nextId s) OBJ_NAME := []),
       drawCount := (drawCount s)(Obj (nextId s) OBJ_NAME := None),
       nextId := Suc (nextId s),
       faces := Some (Obj (nextId s) OBJ_NAME)\<rparr>"
  by (simp add: open_faces_def createFaces_eq scene_add_eq Let_def)

lemma open_faces_other: "mode s \<noteq> Area \<Longrightarrow> open_faces s = s"
  by (simp add: open_faces_def)


lemma open_fields:
  "mode (open_measure m s) = open_mode_of m s"
  "isCompleted (open_measure m s) = False"
  "raycaster (open_measure m s) = True"
  "pointArray (open_measure m s) = []"
  "pointsArray (open_measure m s) = []"
  "helpLabel (open_measure m s) = None"
  "tempLabel (open_measure m s) = None"
  "tempLineLabelArr (open_measure m s) = []"
  "tempPoints (open_measure m s) = None"
  "tempLine (open_measure m s) = None"
  "tempLineForArea (open_measure m s) = None"
  "points (open_measure m s) = Some (Obj (nextId s) OBJ_NAME)"
  "polyline (open_measure m s) = Some (Obj (Suc (nextId s)) OBJ_NAME)"
  by (simp_all add: open_measure_def Let_def upd_forms close_eq open_mode_of_def)

lemma open_faces_field:
  "faces (open_measure m s) =
     (if open_mode_of m s = Area then Some (Obj (Suc (Suc (nextId s))) OBJ_NAME) else faces s)"
  by (cases "open_mode_of m s = Area")
     (simp_all add: open_measure_def Let_def upd_forms close_eq open_mode_of_def
        open_faces_Area open_faces_other)

lemma open_nextId:
  "nextId (open_measure m s) =
     (if open_mode_of m s = Area then nextId s + 3 else nextId s + 2)"
  by (cases "open_mode_of m s = Area")
     (simp_all add: open_measure_def Let_def upd_forms close_eq open_mode_of_def
        open_faces_Area open_faces_other)

lemma open_scene:
  "sceneChildren (open_measure m s) =
     (if open_mode_of m s = Area then
        removeAll (Obj (Suc (Suc (nextId s))) OBJ_NAME)
          (removeAll (Obj (Suc (nextId s)) OBJ_NAME)
            (removeAll (Obj (nextId s) OBJ_NAME) (close_scene s))) @
        [Obj (nextId s) OBJ_NAME, Obj (Suc (nextId s)) OBJ_NAME, Obj (Suc (Suc (nextId s))) OBJ_NAME]
      else
        removeAll (Obj (Suc (nextId s)) OBJ_NAME)
          (removeAll (Obj (nextId s) OBJ_NAME) (close_scene s)) @
        [Obj (nextId s) OBJ_NAME, Obj (Suc (nextId s)) OBJ_NAME])"
  by (cases "open_mode_of m s = Area"; cases m)
     (simp_all add: open_measure_def Let_def upd_forms close_eq open_mode_of_def
        open_faces_Area open_faces_other close_scene_def)


subsection \<open>Opening twice\<close>




lemma removeAll_fresh:
  "list_all (\<lambda>x. oid x < n) xs \<Longrightarrow> n \<le> k \<Longrightarrow> removeAll (Obj k nm) xs = xs"
  by (rule removeAll_id) (auto simp: list_all_iff)

lemma close_scene_fresh:
  "list_all (\<lambda>x. oid x < n) (sceneChildren s) \<Longrightarrow> list_all (\<lambda>x. oid x < n) (close_scene s)"
  by (simp add: close_scene_def list_all_iff)

lemma open_scene_fresh:
  assumes "fresh_ids s"
  shows "sceneChildren (open_measure m s) = close_scene s @ session_geometry (open_measure m s)"
proof -
  have f: "list_all (\<lambda>x. oid x < nextId s) (close_scene s)"
    using assms by (simp add: fresh_ids_def close_scene_fresh)
  show ?thesis
    by (simp add: open_scene session_geometry_def option_list_def open_fields open_faces_field
        removeAll_fresh[OF f])
qed

lemma open_fresh:
  assumes "fresh_ids s"
  shows "fresh_ids (open_measure m s)"
proof -
  have f: "list_all (\<lambda>x. oid x < nextId s) (close_scene s)"
    using assms by (simp add: fresh_ids_def close_scene_fresh)
  have "list_all (\<lambda>x. oid x < nextId s + 2) (close_scene s)"
       "list_all (\<lambda>x. oid x < nextId s + 3) (close_scene s)"
    using f by (auto simp: list_all_iff)
  then show ?thesis
    by (simp add: fresh_ids_def open_scene_fresh[OF assms] session_geometry_def option_list_def
        open_fields open_faces_field open_nextId)
qed

lemma close_scene_filter:
  "close_scene s = filter (\<lambda>y. Some y \<noteq> tempPoints s \<and> Some y \<noteq> tempLine s \<and>
        Some y \<noteq> tempLineForArea s \<and> Some y \<noteq> points s \<and> Some y \<noteq> polyline s \<and>
        Some y \<noteq> faces s \<and> Some y \<noteq> curve s \<and> Some y \<noteq> helpLabel s \<and>
        Some y \<noteq> tempLabel s) (close_scene s)"
  by (simp add: close_scene_def cong: conj_cong)

lemma close_scene_open:
  assumes "fresh_ids s"
  shows "close_scene (open_measure m s) = close_scene s"
proof -
  have f: "list_all (\<lambda>x. oid x < nextId s) (close_scene s)"
    using assms by (simp add: fresh_ids_def close_scene_fresh)
  have a: "filter (\<lambda>y. y \<noteq> Obj (nextId s) OBJ_NAME \<and> y \<noteq> Obj (Suc (nextId s)) OBJ_NAME \<and>
        y \<noteq> Obj (Suc (Suc (nextId s))) OBJ_NAME \<and> Some y \<noteq> curve s) (close_scene s) = close_scene s"
    unfolding filter_id_conv
    using f by (auto simp: list_all_iff close_scene_def)
  have b: "filter (\<lambda>y. y \<noteq> Obj (nextId s) OBJ_NAME \<and> y \<noteq> Obj (Suc (nextId s)) OBJ_NAME \<and>
        Some y \<noteq> faces s \<and> Some y \<noteq> curve s) (close_scene s) = close_scene s"
    unfolding filter_id_conv
    using f by (auto simp: list_all_iff close_scene_def)
  show ?thesis
    apply (subst close_scene_def)
    apply (simp add: open_scene_fresh[OF assms] open_fields)
    apply (simp add: session_geometry_def option_list_def open_fields open_faces_field a b)
    done
qed

lemma open_twice_scene:
  assumes "fresh_ids s"
  shows "sceneChildren (open_measure m2 (open_measure m1 s)) =
           close_scene s @ session_geometry (open_measure m2 (open_measure m1 s))"
  using open_scene_fresh[OF open_fresh[OF assms], of m2 m1] close_scene_open[OF assms, of m1]
  by simp

lemma open_twice_no_leak:
  assumes "fresh_ids s"
  shows "set (session_geometry (open_measure m1 s)) \<inter>
         set (sceneChildren (open_measure m2 (open_measure m1 s))) = {}"
proof -
  have f: "list_all (\<lambda>x. oid x < nextId s) (close_scene s)"
    using assms by (simp add: fresh_ids_def close_scene_fresh)
  show ?thesis
    using f
    by (auto simp: open_twice_scene[OF assms] session_geometry_def option_list_def open_fields
        open_faces_field open_nextId list_all_iff split: if_splits)
qed


subsection \<open>complete without a measurement\<close>

lemma complete_clear_eq:
  "complete_clear a b s =
     s\<lparr>sceneChildren := filter (\<lambda>y. (a \<longrightarrow> Some y \<noteq> points s) \<and> (b \<longrightarrow> Some y \<noteq> polyline s))
          (sceneChildren s),
       points := (if a then None else points s),
       polyline := (if b then None else polyline s)\<rparr>"
  by (cases a; cases b; cases "points s"; cases "polyline s")
     (simp_all add: complete_clear_def scene_remove_field_eq Let_def)

lemma complete_tempLine_eq:
  "complete_tempLine s =
     s\<lparr>sceneChildren :=
         filter (\<lambda>y. Some y \<noteq> tempLine s \<and> (tempLine s \<noteq> None \<and> mode s = Distance \<longrightarrow> Some y \<noteq> tempLabel s))
           (sceneChildren s)\<rparr>"
  by (cases "tempLine s"; cases "mode s = Distance")
     (simp_all add: complete_tempLine_def scene_remove_field_eq Let_def)

text \<open>The flags and the state after the three blocks, when no measurement is produced.\<close>

lemma complete_blocks_Distance:
  "mode s = Distance \<Longrightarrow>
   complete_angle c (complete_distance c (complete_area c (False, False, s))) = (c < 2, False, s)"
  by (cases "polyline s") (simp_all add: complete_area_def complete_distance_def complete_angle_def)

lemma complete_blocks_Area_invalid:
  "mode s = Area \<Longrightarrow> \<not> 2 < c \<Longrightarrow>
   complete_angle c (complete_distance c (complete_area c (False, False, s))) =
     (polyline s \<noteq> None, polyline s \<noteq> None, s)"
  by (cases "polyline s") (simp_all add: complete_area_def complete_distance_def complete_angle_def)

lemma complete_blocks_Angle_invalid:
  "mode s = Angle \<Longrightarrow> \<not> 3 \<le> c \<Longrightarrow>
   complete_angle c (complete_distance c (complete_area c (False, False, s))) =
     (polyline s \<noteq> None, polyline s \<noteq> None, s)"
  by (cases "polyline s") (simp_all add: complete_area_def complete_distance_def complete_angle_def)

lemma isCompleted_complete [simp]: "isCompleted (complete_measure s)"
  by (simp add: complete_measure_def Let_def split_beta upd_forms complete_tempLine_eq)

lemma complete_when_completed: "isCompleted s \<Longrightarrow> complete_measure s = s"
  by (simp add: complete_measure_def)

lemma complete_Distance:
  assumes "mode s = Distance" "\<not> isCompleted s"
  shows "complete_measure s =
     s\<lparr>sceneChildren :=
         filter (\<lambda>y. (length (pointArray s) < 2 \<longrightarrow> Some y \<noteq> points s) \<and> Some y \<noteq> tempPoints s \<and>
              Some y \<noteq> tempLine s \<and> (tempLine s \<noteq> None \<longrightarrow> Some y \<noteq> tempLabel s) \<and>
              Some y \<noteq> tempLineForArea s \<and> Some y \<noteq> helpLabel s) (sceneChildren s),
       points := (if length (pointArray s) < 2 then None else points s),
       dragObjects := dragObjects s @ drag_labels (polyline s) (childrenOf s),
       isCompleted := True, cursor := '''', fontSize := 0\<rparr>"
  using assms
  by (simp add: complete_measure_def complete_blocks_Distance Let_def complete_clear_eq
      complete_tempLine_eq upd_forms split del: if_split cong: conj_cong)

lemma complete_Area_invalid:
  assumes "mode s = Area" "\<not> isCompleted s" "length (pointArray s) < 3"
  shows "complete_measure s =
     s\<lparr>sceneChildren :=
         filter (\<lambda>y. (polyline s \<noteq> None \<longrightarrow> Some y \<noteq> points s \<and> Some y \<noteq> polyline s) \<and>
              Some y \<noteq> tempPoints s \<and> Some y \<noteq> tempLine s \<and>
              Some y \<noteq> tempLineForArea s \<and> Some y \<noteq> helpLabel s) (sceneChildren s),
       points := (if polyline s \<noteq> None then None else points s),
       polyline := None,
       isCompleted := True, cursor := '''', fontSize := 0\<rparr>"
proof -
  have c: "\<not> 2 < length (pointArray s)" using assms(3) by simp
  show ?thesis
    using assms(1,2)
    by (cases "polyline s")
       (simp_all add: complete_measure_def complete_blocks_Area_invalid[OF assms(1) c] Let_def
      complete_clear_eq complete_tempLine_eq upd_forms drag_labels_def split del: if_split cong: conj_cong)
qed



subsection \<open>Clicks\<close>


lemma click_rejected: "\<not> accepted e s \<Longrightarrow> onMouseClicked e s = s"
  by (auto simp: accepted_def onMouseClicked_def split: option.splits)

lemma click_auto_fields:
  "pointArray (click_auto s) = pointArray s"
  "mode (click_auto s) = mode s"
  "lastClickTime (click_auto s) = lastClickTime s"
  "isCompleted (click_auto s) \<longleftrightarrow> isCompleted s \<or> mode s = Angle \<and> 3 \<le> length (pointArray s)"
  by (auto simp: click_auto_def)

lemma click_accepted_eq:
  assumes "accepted e s" "getClosestIntersection e s = Some p"
  shows "onMouseClicked e s =
     click_auto (click_push p (click_faces p (click_polyline p (length (pointArray s))
       (s\<lparr>lastClickTime := Some (ev_now e)\<rparr>))))"
  using assms by (simp add: accepted_def onMouseClicked_def Let_def)

lemma click_accepted:
  assumes "accepted e s"
  shows "pointArray (onMouseClicked e s) = pointArray s @ [the (getClosestIntersection e s)]"
    and "lastClickTime (onMouseClicked e s) = Some (ev_now e)"
    and "isCompleted (onMouseClicked e s) \<longleftrightarrow> mode s = Angle \<and> 3 \<le> length (pointArray s) + 1"
proof -
  obtain p where p: "getClosestIntersection e s = Some p"
    using assms by (auto simp: accepted_def)
  have nc: "\<not> isCompleted s" using assms by (simp add: accepted_def)
  note eq = click_accepted_eq[OF assms p]
  show "pointArray (onMouseClicked e s) = pointArray s @ [the (getClosestIntersection e s)]"
    by (simp add: eq p click_auto_fields click_push_def)
  show "lastClickTime (onMouseClicked e s) = Some (ev_now e)"
    by (simp add: eq click_auto_fields click_push_def)
  show "isCompleted (onMouseClicked e s) \<longleftrightarrow> mode s = Angle \<and> 3 \<le> length (pointArray s) + 1"
    using nc by (simp add: eq click_auto_fields click_push_def)
qed

lemma click_not_Angle:
  assumes "mode s \<noteq> Angle"
  shows "isCompleted (onMouseClicked e s) = isCompleted s"
    and "points (onMouseClicked e s) = points s"
    and "polyline (onMouseClicked e s) = polyline s"
    and "tempLabel (onMouseClicked e s) = tempLabel s"
  using assms
  by (auto simp: onMouseClicked_def click_auto_def click_push_def Let_def split: option.splits)

lemma click_length:
  "length (pointArray (onMouseClicked e s)) =
     (if accepted e s then length (pointArray s) + 1 else length (pointArray s))"
  by (simp add: click_accepted click_rejected)

lemma click_console_Distance:
  assumes "accepted e s" "mode s \<noteq> Angle" "polyline s \<noteq> None"
  shows "console (onMouseClicked e s) =
     (if length (pointArray s) * 3 + 3 < MAX_POINTS then console s
      else console s @ [(Error, ''Failed to get attributes.position, or number of points exceeded MAX_POINTS!'')])"
  using assms
  by (auto simp: accepted_def onMouseClicked_def click_auto_def click_push_def click_polyline_def
      upd_forms Let_def split: option.splits)

subsection \<open>Moves\<close>

lemma mousemove_not_Distance:
  "mode s \<noteq> Distance \<Longrightarrow> tempLabel (mousemove e s) = tempLabel s"
  by (simp add: mousemove_def move_line_def createLine_eq upd_forms Let_def split_beta
      split: option.splits)

lemma mousemove_completed: "isCompleted s \<Longrightarrow> mousemove e s = s\<lparr>mouseMoved := True\<rparr>"
  by (simp add: mousemove_def getClosestIntersection_def)

lemma hit_completed: "isCompleted s \<Longrightarrow> getClosestIntersection e s = None"
  by (simp add: getClosestIntersection_def)







subsection \<open>Invariants along events\<close>

lemma dispatch_preserves:
  assumes "P s" and "\<And>h s. P s \<Longrightarrow> P (handle h e s)"
  shows "P (dispatch ls ty e s)"
proof -
  have "P (fold (\<lambda>h. handle h e) hs s)" for hs
    using assms(1) by (induction hs arbitrary: s) (simp_all add: assms(2))
  then show ?thesis by (simp add: dispatch_def)
qed

lemma step_preserves:
  assumes "P s" "\<not> is_open a"
    and "\<And>h e s. P s \<Longrightarrow> P (handle h e s)"
    and "\<And>s. P s \<Longrightarrow> P (close s)"
    and "\<And>s. P s \<Longrightarrow> P (complete_measure s)"
    and "\<And>s. P s \<Longrightarrow> P (s\<lparr>font := True\<rparr>)"
  shows "P (step a s)"
  using assms(1,2)
  by (cases a) (simp_all add: assms(3-6) cancel_def dispatch_preserves[where P = P])

lemma run_preserves:
  assumes "P s" "no_open acts"
    and "\<And>h e s. P s \<Longrightarrow> P (handle h e s)"
    and "\<And>s. P s \<Longrightarrow> P (close s)"
    and "\<And>s. P s \<Longrightarrow> P (complete_measure s)"
    and "\<And>s. P s \<Longrightarrow> P (s\<lparr>font := True\<rparr>)"
  shows "P (run acts s)"
  using assms(1,2)
proof (induction acts arbitrary: s)
  case Nil
  then show ?case by (simp add: run_def)
next
  case (Cons a acts)
  have "P (step a s)"
    using Cons.prems by (intro step_preserves[where P = P] assms(3-6)) (simp_all add: no_open_def)
  moreover have "no_open acts" using Cons.prems by (simp add: no_open_def)
  ultimately have "P (run acts (step a s))" by (rule Cons.IH)
  then show ?case by (simp add: run_def)
qed

lemma handle_cases:
  assumes "P (mousedown e s)" "P (mousemove e s)" "P (mouseup e s)" "P (dblclick e s)" "P (keydown e s)"
  shows "P (handle h e s)"
  using assms by (cases h) simp_all


subsection \<open>Clicks on a listening canvas\<close>






lemma run_append: "run (xs @ ys) s = run ys (run xs s)"
  by (simp add: run_def)

lemma run_Nil: "run [] s = s"
  by (simp add: run_def)

lemma run_Cons: "run (a # as) s = run as (step a s)"
  by (simp add: run_def)

lemma canvasListeners_new_open:
  "canvasListeners (open_measure m (new_Measure sc md)) = tool_listeners"
  by (simp add: canvasListeners_open new_Measure_def close_listeners_def addListener_def
      tool_listeners_def)

lemma run_click_at:
  assumes "canvasListeners s = tool_listeners"
  shows "run (click_at p t) s = onMouseClicked (hit_event p t) (s\<lparr>mouseMoved := False\<rparr>)"
  using assms
  by (simp add: click_at_def run_Cons run_Nil dispatch_def tool_listeners_def mousedown_def
      mouseup_def)

lemma hit_event_found:
  "raycaster s \<Longrightarrow> \<not> isCompleted s \<Longrightarrow> getClosestIntersection (hit_event p t) s = Some p"
  by (simp add: getClosestIntersection_def hit_event_def OBJ_NAME_def MAX_DISTANCE_def)

lemma accepted_hit_event:
  "accepted (hit_event p t) s \<longleftrightarrow> raycaster s \<and> \<not> isCompleted s \<and> \<not> debounced t s"
proof -
  have "ev_now (hit_event p t) = t" by (simp add: hit_event_def)
  then show ?thesis by (auto simp: accepted_def hit_event_found)
qed

lemma accepted_mouseMoved [simp]: "accepted e (s\<lparr>mouseMoved := b\<rparr>) = accepted e s"
  by (simp add: accepted_def debounced_def getClosestIntersection_def)



lemma clicks_Suc: "clicks (Suc n) = clicks n @ click_at (Vector3 0 0 0) (1000 * (int n + 1))"
  by (simp add: clicks_def)

lemma distance_clicks_Suc:
  "distance_clicks (Suc n) = run (click_at (Vector3 0 0 0) (1000 * (int n + 1))) (distance_clicks n)"
  by (simp add: distance_clicks_def clicks_Suc run_append)

lemma distance_clicks_state:
  "canvasListeners (distance_clicks n) = tool_listeners \<and>
   raycaster (distance_clicks n) \<and> \<not> isCompleted (distance_clicks n) \<and>
   mode (distance_clicks n) = Distance \<and> polyline (distance_clicks n) \<noteq> None \<and>
   length (pointArray (distance_clicks n)) = n \<and>
   lastClickTime (distance_clicks n) = (if n = 0 then None else Some (1000 * int n)) \<and>
   console (distance_clicks n) = replicate (n - 33) capacity_error"
proof (induction n)
  case 0
  show ?case
    by (simp add: distance_clicks_def clicks_def run_Nil canvasListeners_new_open open_fields
        open_mode_of_def) (simp add: new_Measure_def)
next
  case (Suc n)
  let ?s = "distance_clicks n"
  define t where "t = 1000 * (int n + 1)"
  let ?e = "hit_event (Vector3 0 0 0) t"
  have eq: "distance_clicks (Suc n) = onMouseClicked ?e (?s\<lparr>mouseMoved := False\<rparr>)"
    using Suc.IH by (simp add: distance_clicks_Suc run_click_at t_def)
  have deb: "\<not> debounced t ?s"
    using Suc.IH by (simp add: debounced_def t_def)
  have acc: "accepted ?e (?s\<lparr>mouseMoved := False\<rparr>)"
    using Suc.IH deb by (simp add: accepted_hit_event)
  have m: "mode (?s\<lparr>mouseMoved := False\<rparr>) \<noteq> Angle"
    using Suc.IH by simp
  have pl: "polyline (?s\<lparr>mouseMoved := False\<rparr>) \<noteq> None"
    using Suc.IH by simp
  have now: "ev_now ?e = t" by (simp add: hit_event_def)
  have cons: "console (distance_clicks (Suc n)) = replicate (Suc n - 33) capacity_error"
  proof (cases "n * 3 + 3 < MAX_POINTS")
    case True
    then have "n < 33" by (simp add: MAX_POINTS_def)
    then show ?thesis
      using Suc.IH True by (simp add: eq click_console_Distance[OF acc m pl])
  next
    case False
    then have "33 \<le> n" by (simp add: MAX_POINTS_def)
    then have "Suc n - 33 = Suc (n - 33)" by simp
    then show ?thesis
      using Suc.IH False
      by (simp add: eq click_console_Distance[OF acc m pl] capacity_error_def
          replicate_append_same)
  qed
  have len: "length (pointArray (distance_clicks (Suc n))) = Suc n"
    using Suc.IH by (simp add: eq click_accepted(1)[OF acc])
  have lct: "lastClickTime (distance_clicks (Suc n)) = Some (1000 * int (Suc n))"
    by (simp add: eq click_accepted(2)[OF acc] now) (simp add: t_def)
  have rest: "canvasListeners (distance_clicks (Suc n)) = tool_listeners \<and>
      raycaster (distance_clicks (Suc n)) \<and> \<not> isCompleted (distance_clicks (Suc n)) \<and>
      mode (distance_clicks (Suc n)) = Distance \<and> polyline (distance_clicks (Suc n)) \<noteq> None"
    using Suc.IH by (simp add: eq click_accepted(3)[OF acc] click_not_Angle[OF m])
  show ?case
    using len lct rest cons by simp
qed


subsection \<open>Angle sessions and completed sessions\<close>



lemma angle_session_handle: "angle_session s \<Longrightarrow> angle_session (handle h e s)"
proof (rule handle_cases)
  assume a: "angle_session s"
  show "angle_session (mousedown e s)"
    using a by (simp add: angle_session_def mousedown_def)
  show "angle_session (mousemove e s)"
    using a by (simp add: angle_session_def)
  show "angle_session (mouseup e s)"
  proof (cases "accepted e s")
    case True
    then have "\<not> isCompleted s" by (simp add: accepted_def)
    then show ?thesis
      using a by (auto simp: angle_session_def mouseup_def click_accepted[OF True])
  next
    case False
    then show ?thesis using a by (simp add: mouseup_def click_rejected)
  qed
  show "angle_session (dblclick e s)"
    using a by (auto simp: dblclick_def angle_session_def)
  show "angle_session (keydown e s)"
    using a by (auto simp: keydown_def cancel_def angle_session_def close_eq)
qed

lemma angle_session_run:
  assumes "no_open acts"
  shows "angle_session (run acts (open_measure (Some Angle) s0))"
proof (rule run_preserves[where P = angle_session, OF _ assms])
  show "angle_session (open_measure (Some Angle) s0)"
    by (simp add: angle_session_def open_fields open_mode_of_def)
qed (simp_all add: angle_session_handle, auto simp: angle_session_def close_eq)

lemma completed_with_handle: "completed_with pa s \<Longrightarrow> completed_with pa (handle h e s)"
proof (rule handle_cases)
  assume a: "completed_with pa s"
  then have c: "isCompleted s" by (simp add: completed_with_def)
  then have na: "\<not> accepted e s" by (simp add: accepted_def)
  show "completed_with pa (mousedown e s)"
    using a by (simp add: completed_with_def mousedown_def)
  show "completed_with pa (mousemove e s)"
    using a by (simp add: completed_with_def)
  show "completed_with pa (mouseup e s)"
    using a by (simp add: mouseup_def click_rejected[OF na])
  show "completed_with pa (dblclick e s)"
    using a by (simp add: dblclick_def complete_when_completed[OF c])
  show "completed_with pa (keydown e s)"
    using a by (simp add: keydown_def cancel_def complete_when_completed[OF c])
       (simp add: completed_with_def close_eq)
qed

lemma completed_with_run:
  assumes "isCompleted s" "no_open acts"
  shows "completed_with (pointArray s) (run acts s)"
proof (rule run_preserves[where P = "completed_with (pointArray s)", OF _ assms(2)])
  show "completed_with (pointArray s) s"
    using assms(1) by (simp add: completed_with_def)
qed (simp_all add: completed_with_handle, simp_all add: completed_with_def close_eq)

text \<open>
  Once a click has passed the guards at a positive time \<open>t\<close>, \<open>lastClickTime\<close> stays at
  \<open>t\<close> or later whatever happens: only an accepted click changes it, and that click comes
  500 ms or more after the last one. A click less than 500 ms after \<open>t\<close> is then rejected.
\<close>

lemma clicked_since_click:
  assumes "0 < t" "clicked_since t s"
  shows "clicked_since t (onMouseClicked e s)"
proof (cases "accepted e s")
  case True
  obtain u where u: "lastClickTime s = Some u" "t \<le> u"
    using assms(2) by (auto simp: clicked_since_def split: option.splits)
  have "\<not> debounced (ev_now e) s" using True by (simp add: accepted_def)
  then have "500 \<le> ev_now e - u" using u assms(1) by (simp add: debounced_def)
  then have "t \<le> ev_now e" using u(2) by simp
  then show ?thesis by (simp add: clicked_since_def click_accepted(2)[OF True])
next
  case False
  then show ?thesis using assms(2) by (simp add: click_rejected)
qed

lemma clicked_since_handle:
  assumes "0 < t" "clicked_since t s"
  shows "clicked_since t (handle h e s)"
proof (rule handle_cases)
  show "clicked_since t (mousedown e s)"
    using assms(2) by (simp add: clicked_since_def mousedown_def)
  show "clicked_since t (mousemove e s)"
    using assms(2) by (simp add: clicked_since_def)
  show "clicked_since t (mouseup e s)"
    using assms by (simp add: mouseup_def clicked_since_click)
  show "clicked_since t (dblclick e s)"
    using assms(2) by (simp add: clicked_since_def dblclick_def)
  show "clicked_since t (keydown e s)"
    using assms(2) by (simp add: clicked_since_def keydown_def cancel_def)
qed

lemma clicked_since_step:
  assumes "0 < t" "clicked_since t s"
  shows "clicked_since t (step a s)"
proof (cases a)
  case (CanvasEvent ty e)
  then show ?thesis
    using assms by (simp add: dispatch_preserves[where P = "clicked_since t"] clicked_since_handle)
next
  case (WindowEvent ty e)
  then show ?thesis
    using assms by (simp add: dispatch_preserves[where P = "clicked_since t"] clicked_since_handle)
qed (use assms(2) in \<open>simp_all add: clicked_since_def cancel_def\<close>)

lemma clicked_since_run:
  assumes "0 < t" "clicked_since t s"
  shows "clicked_since t (run acts s)"
  using assms(2)
proof (induction acts arbitrary: s)
  case Nil
  then show ?case by (simp add: run_Nil)
next
  case (Cons a acts)
  show ?case
    unfolding run_Cons by (rule Cons.IH) (rule clicked_since_step[OF assms(1) Cons.prems])
qed

lemma suppressed_since:
  assumes "0 < t" "clicked_since t s" "ev_now e - t < 500"
  shows "onMouseClicked e s = s"
proof -
  obtain u where u: "lastClickTime s = Some u" "t \<le> u"
    using assms(2) by (auto simp: clicked_since_def split: option.splits)
  have "debounced (ev_now e) s" using u assms(1,3) by (simp add: debounced_def)
  then have "\<not> accepted e s" by (simp add: accepted_def)
  then show ?thesis by (rule click_rejected)
qed


lemma click_at_accepted:
  assumes "canvasListeners s = tool_listeners" "raycaster s" "\<not> isCompleted s" "\<not> debounced t s"
  shows "pointArray (run (click_at p t) s) = pointArray s @ [p]"
    and "lastClickTime (run (click_at p t) s) = Some t"
    and "canvasListeners (run (click_at p t) s) = tool_listeners"
    and "raycaster (run (click_at p t) s)"
    and "mode (run (click_at p t) s) = mode s"
    and "isCompleted (run (click_at p t) s) \<longleftrightarrow> mode s = Angle \<and> 3 \<le> length (pointArray s) + 1"
proof -
  let ?s = "s\<lparr>mouseMoved := False\<rparr>"
  have eq: "run (click_at p t) s = onMouseClicked (hit_event p t) ?s"
    using assms(1) by (rule run_click_at)
  have acc: "accepted (hit_event p t) ?s"
    using assms(2-4) by (simp add: accepted_hit_event)
  have hit: "getClosestIntersection (hit_event p t) ?s = Some p"
    using assms(2,3) by (simp add: hit_event_found)
  have now: "ev_now (hit_event p t) = t" by (simp add: hit_event_def)
  show "pointArray (run (click_at p t) s) = pointArray s @ [p]"
    by (simp add: eq click_accepted(1)[OF acc] hit)
  show "lastClickTime (run (click_at p t) s) = Some t"
    by (simp add: eq click_accepted(2)[OF acc] now)
  show "canvasListeners (run (click_at p t) s) = tool_listeners"
    using assms(1) by (simp add: eq)
  show "raycaster (run (click_at p t) s)"
    using assms(2) by (simp add: eq)
  show "mode (run (click_at p t) s) = mode s"
    by (simp add: eq)
  show "isCompleted (run (click_at p t) s) \<longleftrightarrow> mode s = Angle \<and> 3 \<le> length (pointArray s) + 1"
    by (simp add: eq click_accepted(3)[OF acc])
qed

lemma click_at_suppressed:
  assumes "canvasListeners s = tool_listeners" "debounced t s"
  shows "run (click_at p t) s = s\<lparr>mouseMoved := False\<rparr>"
proof -
  have "\<not> accepted (hit_event p t) (s\<lparr>mouseMoved := False\<rparr>)"
    using assms(2) by (simp add: accepted_hit_event)
  then show ?thesis
    by (simp add: run_click_at[OF assms(1)] click_rejected)
qed

lemma new_open_fields:
  "canvasListeners (open_measure m (new_Measure sc md)) = tool_listeners"
  "raycaster (open_measure m (new_Measure sc md))"
  "\<not> isCompleted (open_measure m (new_Measure sc md))"
  "\<not> debounced t (open_measure m (new_Measure sc md))"
  "pointArray (open_measure m (new_Measure sc md)) = []"
  "mode (open_measure (Some md') (new_Measure sc md)) = md'"
  by (simp_all add: canvasListeners_new_open open_fields open_mode_of_def debounced_def)
     (simp add: new_Measure_def)


lemma no_open_click_at: "no_open (click_at p t)"
  by (simp add: no_open_def click_at_def)

lemma no_open_append: "no_open (xs @ ys) \<longleftrightarrow> no_open xs \<and> no_open ys"
  by (simp add: no_open_def)

lemma angle_three_clicks:
  "pointArray (run three_clicks (open_measure (Some Angle) (new_Measure [] Angle))) =
     [Vector3 1 0 0, Vector3 0 0 0, Vector3 0 1 0]"
  "pointArray (run (click_at (Vector3 1 0 0) 1000 @ click_at (Vector3 0 0 0) 2000)
      (open_measure (Some Angle) (new_Measure [] Angle))) = [Vector3 1 0 0, Vector3 0 0 0]"
  "\<not> isCompleted (run (click_at (Vector3 1 0 0) 1000 @ click_at (Vector3 0 0 0) 2000)
      (open_measure (Some Angle) (new_Measure [] Angle)))"
proof -
  let ?s0 = "open_measure (Some Angle) (new_Measure [] Angle)"
  let ?s1 = "run (click_at (Vector3 1 0 0) 1000) ?s0"
  let ?s2 = "run (click_at (Vector3 0 0 0) 2000) ?s1"
  let ?s3 = "run (click_at (Vector3 0 1 0) 3000) ?s2"
  note c1 = click_at_accepted[of ?s0 1000 "Vector3 1 0 0", OF new_open_fields(1-4)]
  have nc1: "\<not> isCompleted ?s1" by (simp add: c1(6) new_open_fields)
  have d2: "\<not> debounced 2000 ?s1" by (simp add: debounced_def c1(2))
  note c2 = click_at_accepted[of ?s1 2000 "Vector3 0 0 0", OF c1(3) c1(4) nc1 d2]
  have p2: "pointArray ?s2 = [Vector3 1 0 0, Vector3 0 0 0]"
    by (simp add: c2(1) c1(1) new_open_fields)
  have nc2: "\<not> isCompleted ?s2" by (simp add: c2(6) c1(1) new_open_fields)
  have d3: "\<not> debounced 3000 ?s2" by (simp add: debounced_def c2(2))
  note c3 = click_at_accepted[of ?s2 3000 "Vector3 0 1 0", OF c2(3) c2(4) nc2 d3]
  show "pointArray (run three_clicks ?s0) = [Vector3 1 0 0, Vector3 0 0 0, Vector3 0 1 0]"
    by (simp add: three_clicks_def run_append c3(1) p2)
  show "pointArray (run (click_at (Vector3 1 0 0) 1000 @ click_at (Vector3 0 0 0) 2000) ?s0) =
      [Vector3 1 0 0, Vector3 0 0 0]"
    by (simp add: run_append p2)
  show "\<not> isCompleted (run (click_at (Vector3 1 0 0) 1000 @ click_at (Vector3 0 0 0) 2000) ?s0)"
    by (simp add: run_append nc2)
qed

section \<open>The session: completion, capacity, listeners, re-entry, click suppression\<close>

text \<open>
  C1 (the code departs from this). The claim: the committed point list never exceeds
  \<open>MAX_POINTS\<close>, the click beyond the capacity being rejected. In the code \<open>MAX_POINTS\<close> is
  100, and after 101 accepted clicks in a Distance session \<open>pointArray\<close> holds 101 points:
  the last click logs the capacity error and writes no vertex, but the point is pushed all
  the same. The error is logged from the 34th click on (none after 33 clicks, one after
  34), because the guard compares the component offset \<open>count * 3 + 3\<close> with \<open>MAX_POINTS\<close>.
\<close>

theorem capacity_not_enforced:
  "MAX_POINTS = 100 \<and>
   length (pointArray (distance_clicks 101)) = 101 \<and>
   last (console (distance_clicks 101)) = capacity_error \<and>
   console (distance_clicks 33) = [] \<and>
   console (distance_clicks 34) = [capacity_error]"
  using distance_clicks_state[of 101] distance_clicks_state[of 33] distance_clicks_state[of 34]
  by (simp add: MAX_POINTS_def)

text \<open>
  C2 (the code departs from this). The claim: in Distance mode with fewer than 2 points,
  \<open>complete()\<close> leaves no committed polyline in the scene. In the code, for a Distance
  session that was just opened (no point committed), \<open>complete()\<close> leaves the field
  \<open>polyline\<close> set and the polyline object among the children of the scene: the Distance
  block flags only the point cloud for removal.
\<close>

theorem complete_Distance_keeps_polyline:
  "pointArray (open_measure (Some Distance) s) = [] \<and>
   polyline (complete_measure (open_measure (Some Distance) s)) = Some (Obj (Suc (nextId s)) OBJ_NAME) \<and>
   Obj (Suc (nextId s)) OBJ_NAME \<in> set (sceneChildren (complete_measure (open_measure (Some Distance) s)))"
  by (simp add: complete_Distance open_fields open_mode_of_def open_scene)

text \<open>
  C3 (the code departs from this). The claim: in Area mode with fewer than 3 points,
  \<open>complete()\<close> leaves no committed filled-polygon object, no committed polyline and no
  measurement label in the scene. In the code, for an Area session that was just opened (no
  point committed), \<open>complete()\<close> unsets the polyline and the point cloud, but leaves the
  field \<open>faces\<close> set and the filled-polygon object that \<open>open()\<close> created among the
  children of the scene: the clean-up of the invalid case removes the point cloud and the
  polyline, and nothing in \<open>complete()\<close> removes \<open>faces\<close>.
\<close>

theorem complete_Area_keeps_faces:
  "pointArray (open_measure (Some Area) s) = [] \<and>
   polyline (complete_measure (open_measure (Some Area) s)) = None \<and>
   points (complete_measure (open_measure (Some Area) s)) = None \<and>
   faces (complete_measure (open_measure (Some Area) s)) = Some (Obj (Suc (Suc (nextId s))) OBJ_NAME) \<and>
   Obj (Suc (Suc (nextId s))) OBJ_NAME \<in> set (sceneChildren (complete_measure (open_measure (Some Area) s)))"
  by (simp add: complete_Area_invalid open_fields open_mode_of_def open_scene open_faces_field)

text \<open>
  C4 (the code departs from this). The claim: after \<open>close()\<close> every listener that
  \<open>open()\<close> attached is detached. In the code \<open>close()\<close> removes a listener of type
  \<open>'dblclick'\<close>, which \<open>open()\<close> never attached, so the \<open>'contextmenu'\<close> listener stays
  on the canvas after \<open>close()\<close>; a context-menu event on the closed session of a new
  \<open>Measure\<close> still runs the handler, which calls \<open>complete()\<close> and sets \<open>isCompleted\<close>.
\<close>

theorem close_keeps_contextmenu_listener:
  "(Contextmenu, H_dblclick) \<in> set (canvasListeners (close (open_measure m s))) \<and>
   \<not> isCompleted (close (open_measure m s)) \<and>
   isCompleted (step (CanvasEvent Contextmenu e) (close (open_measure m (new_Measure sc md))))"
  by (simp add: close_eq canvasListeners_open close_listeners_def addListener_def open_fields
      new_Measure_def dispatch_def dblclick_def)

text \<open>
  C5. In Angle mode an accepted click records its point, and completes the session exactly
  when the list then holds 3 points; so an Angle session never holds more than 3 points and
  is completed whenever it holds 3. Once \<open>isCompleted\<close> is set, the click handler and the hit
  test do nothing, a further \<open>complete()\<close> changes nothing, and along any actions other than
  \<open>open\<close> the session stays completed and no point is added.
\<close>

theorem angle_auto_complete:
  "(mode s = Angle \<and> accepted e s \<longrightarrow>
      pointArray (onMouseClicked e s) = pointArray s @ [the (getClosestIntersection e s)] \<and>
      (isCompleted (onMouseClicked e s) \<longleftrightarrow> 3 \<le> length (pointArray (onMouseClicked e s)))) \<and>
   (no_open acts \<longrightarrow>
      length (pointArray (run acts (open_measure (Some Angle) s0))) \<le> 3 \<and>
      (length (pointArray (run acts (open_measure (Some Angle) s0))) = 3 \<longrightarrow>
         isCompleted (run acts (open_measure (Some Angle) s0)))) \<and>
   (isCompleted s \<longrightarrow>
      onMouseClicked e s = s \<and> getClosestIntersection e s = None \<and> complete_measure s = s) \<and>
   (isCompleted s \<and> no_open acts \<longrightarrow>
      isCompleted (run acts s) \<and>
      (pointArray (run acts s) = pointArray s \<or> pointArray (run acts s) = []))"
proof (intro conjI impI)
  assume a: "mode s = Angle \<and> accepted e s"
  then have acc: "accepted e s" by simp
  show "pointArray (onMouseClicked e s) = pointArray s @ [the (getClosestIntersection e s)]"
    by (rule click_accepted(1)[OF acc])
  show "isCompleted (onMouseClicked e s) \<longleftrightarrow> 3 \<le> length (pointArray (onMouseClicked e s))"
    using a by (simp add: click_accepted[OF acc])
next
  assume n: "no_open acts"
  have k: "angle_session (run acts (open_measure (Some Angle) s0))"
    using n by (rule angle_session_run)
  show "length (pointArray (run acts (open_measure (Some Angle) s0))) \<le> 3"
    using k by (auto simp: angle_session_def)
  show "isCompleted (run acts (open_measure (Some Angle) s0))"
    if "length (pointArray (run acts (open_measure (Some Angle) s0))) = 3"
    using k that by (auto simp: angle_session_def)
next
  assume c: "isCompleted s"
  then have "\<not> accepted e s" by (simp add: accepted_def)
  then show "onMouseClicked e s = s" by (rule click_rejected)
  show "getClosestIntersection e s = None" using c by (rule hit_completed)
  show "complete_measure s = s" using c by (rule complete_when_completed)
next
  assume c: "isCompleted s \<and> no_open acts"
  then have "completed_with (pointArray s) (run acts s)"
    by (simp add: completed_with_run)
  then show "isCompleted (run acts s)"
    and "pointArray (run acts s) = pointArray s \<or> pointArray (run acts s) = []"
    by (simp_all add: completed_with_def)
qed

theorem angle_auto_complete_witness:
  "no_open three_clicks \<and>
   length (pointArray (run three_clicks (open_measure (Some Angle) (new_Measure [] Angle)))) = 3 \<and>
   isCompleted (run three_clicks (open_measure (Some Angle) (new_Measure [] Angle))) \<and>
   onMouseClicked (hit_event (Vector3 7 7 7) 9000)
       (run three_clicks (open_measure (Some Angle) (new_Measure [] Angle))) =
     run three_clicks (open_measure (Some Angle) (new_Measure [] Angle)) \<and>
   isCompleted (run (click_at (Vector3 7 7 7) 9000)
       (run three_clicks (open_measure (Some Angle) (new_Measure [] Angle)))) \<and>
   mode (open_measure (Some Angle) (new_Measure [] Angle)) = Angle \<and>
   accepted (hit_event (Vector3 1 0 0) 1000) (open_measure (Some Angle) (new_Measure [] Angle)) \<and>
   \<not> isCompleted (onMouseClicked (hit_event (Vector3 1 0 0) 1000)
       (open_measure (Some Angle) (new_Measure [] Angle)))"
proof -
  let ?s0 = "open_measure (Some Angle) (new_Measure [] Angle)"
  let ?s3 = "run three_clicks ?s0"
  have n: "no_open three_clicks"
    by (simp add: three_clicks_def no_open_append no_open_click_at)
  have l: "length (pointArray ?s3) = 3" by (simp add: angle_three_clicks(1))
  have c: "isCompleted ?s3"
    using angle_auto_complete[of ?s0 "hit_event (Vector3 1 0 0) 1000" three_clicks "new_Measure [] Angle"] n l
    by blast
  have g: "onMouseClicked (hit_event (Vector3 7 7 7) 9000) ?s3 = ?s3"
    using angle_auto_complete[of ?s3 "hit_event (Vector3 7 7 7) 9000" "[]" "new_Measure [] Angle"] c
    by blast
  have n': "no_open (click_at (Vector3 7 7 7) 9000)" by (rule no_open_click_at)
  have k: "isCompleted (run (click_at (Vector3 7 7 7) 9000) ?s3)"
    using angle_auto_complete[of ?s3 "hit_event (Vector3 7 7 7) 9000" "click_at (Vector3 7 7 7) 9000"
        "new_Measure [] Angle"] c n'
    by blast
  have m: "mode ?s0 = Angle" by (simp add: new_open_fields)
  have a: "accepted (hit_event (Vector3 1 0 0) 1000) ?s0"
    by (simp add: accepted_hit_event new_open_fields)
  have f: "\<not> isCompleted (onMouseClicked (hit_event (Vector3 1 0 0) 1000) ?s0)"
    using angle_auto_complete[of ?s0 "hit_event (Vector3 1 0 0) 1000" "[]" "new_Measure [] Angle"] m a
    by (simp add: new_open_fields)
  show ?thesis using n l c g k m a f by simp
qed

text \<open>
  C6. \<open>open(m)\<close> gives the same state whether or not \<open>close()\<close> was called just before;
  \<open>close()\<close> twice is \<open>close()\<close> once; and when new objects are not in the scene already,
  after two calls of \<open>open\<close> the scene holds what \<open>close()\<close> leaves of the original scene
  followed by the geometry of the second session only: no object of the first session is
  among its children.
\<close>

theorem open_close_reentrant:
  "open_measure m s = open_measure m (close s) \<and>
   close (close s) = close s \<and>
   (fresh_ids s \<longrightarrow>
      sceneChildren (open_measure m2 (open_measure m1 s)) =
        close_scene s @ session_geometry (open_measure m2 (open_measure m1 s)) \<and>
      set (session_geometry (open_measure m1 s)) \<inter>
        set (sceneChildren (open_measure m2 (open_measure m1 s))) = {})"
  using open_after_close[of m s] close_idem[of s] open_twice_scene[of s m2 m1]
    open_twice_no_leak[of s m1 m2]
  by simp

theorem open_close_reentrant_witness:
  "fresh_ids (new_Measure [Obj 0 ''model''] Distance) \<and>
   sceneChildren (open_measure (Some Distance) (open_measure (Some Area) (new_Measure [Obj 0 ''model''] Distance))) =
     [Obj 0 ''model'', Obj 4 OBJ_NAME, Obj 5 OBJ_NAME] \<and>
   set [Obj 1 OBJ_NAME, Obj 2 OBJ_NAME, Obj 3 OBJ_NAME] \<inter>
     set (sceneChildren (open_measure (Some Distance) (open_measure (Some Area) (new_Measure [Obj 0 ''model''] Distance)))) = {}"
proof -
  let ?s = "new_Measure [Obj 0 ''model''] Distance"
  have f: "fresh_ids ?s" by (simp add: fresh_ids_def new_Measure_def)
  have c: "close_scene ?s = [Obj 0 ''model'']" by (simp add: close_scene_def new_Measure_def)
  have n: "nextId ?s = 1" by (simp add: new_Measure_def)
  have g1: "session_geometry (open_measure (Some Area) ?s) = [Obj 1 OBJ_NAME, Obj 2 OBJ_NAME, Obj 3 OBJ_NAME]"
    by (simp add: session_geometry_def option_list_def open_fields open_faces_field open_mode_of_def n
        eval_nat_numeral)
  have g2: "session_geometry (open_measure (Some Distance) (open_measure (Some Area) ?s)) =
      [Obj 4 OBJ_NAME, Obj 5 OBJ_NAME]"
    by (simp add: session_geometry_def option_list_def open_fields open_faces_field open_mode_of_def
        open_nextId n eval_nat_numeral)
  show ?thesis
    using f open_close_reentrant[of "Some Distance" ?s "Some Distance" "Some Area"]
    by (simp add: c g1 g2)
qed

text \<open>
  C10, as stated, fails: of three clicks at 1000, 1300 and 1600 ms the second is
  suppressed and the third commits a point, although it comes 300 ms after the second. The
  guard compares with the last click that passed it, not with the previous click.
\<close>

theorem close_clicks_both_commit:
  "length (pointArray (run double_click (open_measure (Some Distance) (new_Measure [] Distance)))) = 1 \<and>
   length (pointArray (run triple_click (open_measure (Some Distance) (new_Measure [] Distance)))) = 2 \<and>
   (1600 :: int) - 1300 < 500"
proof -
  let ?o = "Vector3 0 0 0"
  let ?s0 = "open_measure (Some Distance) (new_Measure [] Distance)"
  let ?s1 = "run (click_at ?o 1000) ?s0"
  let ?s2 = "run (click_at ?o 1300) ?s1"
  let ?s3 = "run (click_at ?o 1600) ?s2"
  note c1 = click_at_accepted[of ?s0 1000 ?o, OF new_open_fields(1-4)]
  have l1: "length (pointArray ?s1) = 1" by (simp add: c1(1) new_open_fields)
  have nc1: "\<not> isCompleted ?s1" by (simp add: c1(6) new_open_fields)
  have d2: "debounced 1300 ?s1" by (simp add: debounced_def c1(2))
  have s2: "?s2 = ?s1\<lparr>mouseMoved := False\<rparr>"
    using c1(3) d2 by (rule click_at_suppressed)
  have d3: "\<not> debounced 1600 ?s2" by (simp add: s2 debounced_def c1(2))
  have "pointArray ?s3 = pointArray ?s2 @ [?o]"
    by (rule click_at_accepted(1)) (simp_all add: s2 c1 new_open_fields d3[unfolded s2])
  then have l3: "length (pointArray ?s3) = 2" by (simp add: s2 l1)
  have l2: "length (pointArray ?s2) = 1" by (simp add: s2 l1)
  show ?thesis
    using l2 l3 by (simp add: triple_click_def double_click_def run_append)
qed

text \<open>
  C10, as amended. \<open>lastClickTime\<close> is left alone by \<open>open()\<close>, \<open>close()\<close> and
  \<open>complete()\<close>. After a click that passed the guards of the click handler (at a positive
  time, as every value of \<open>Date.now()\<close> is), and whatever happens next (events on the
  canvas and the window, calls of \<open>open\<close>, \<open>close\<close>, \<open>cancel\<close> and \<open>complete\<close>), a click
  less than 500 ms after it changes nothing: it commits no point, wherever it is, also as
  the first click of a newly opened session.
\<close>

theorem click_suppression_persists:
  "lastClickTime (open_measure m s) = lastClickTime s \<and>
   lastClickTime (close s) = lastClickTime s \<and>
   lastClickTime (complete_measure s) = lastClickTime s \<and>
   (accepted e1 s \<and> 0 < ev_now e1 \<and> ev_now e2 - ev_now e1 < 500 \<longrightarrow>
      onMouseClicked e2 (run acts (onMouseClicked e1 s)) = run acts (onMouseClicked e1 s))"
proof -
  have "onMouseClicked e2 (run acts (onMouseClicked e1 s)) = run acts (onMouseClicked e1 s)"
    if a: "accepted e1 s" and z: "0 < ev_now e1" and d: "ev_now e2 - ev_now e1 < 500"
  proof -
    have "clicked_since (ev_now e1) (onMouseClicked e1 s)"
      by (simp add: clicked_since_def click_accepted(2)[OF a])
    then have "clicked_since (ev_now e1) (run acts (onMouseClicked e1 s))"
      using z by (intro clicked_since_run)
    then show ?thesis using z d by (intro suppressed_since)
  qed
  then show ?thesis by simp
qed

theorem click_suppression_persists_witness:
  "accepted (hit_event (Vector3 0 0 0) 1000) (open_measure (Some Distance) (new_Measure [] Distance)) \<and>
   0 < ev_now (hit_event (Vector3 0 0 0) 1000) \<and>
   ev_now (hit_event (Vector3 5 5 5) 1400) - ev_now (hit_event (Vector3 0 0 0) 1000) < 500 \<and>
   onMouseClicked (hit_event (Vector3 5 5 5) 1400)
     (run [CanvasEvent Mousemove (hit_event (Vector3 2 2 2) 1200), Close, Open (Some Area),
           CanvasEvent Mousedown (hit_event (Vector3 5 5 5) 1400)]
        (onMouseClicked (hit_event (Vector3 0 0 0) 1000)
           (open_measure (Some Distance) (new_Measure [] Distance)))) =
     run [CanvasEvent Mousemove (hit_event (Vector3 2 2 2) 1200), Close, Open (Some Area),
          CanvasEvent Mousedown (hit_event (Vector3 5 5 5) 1400)]
        (onMouseClicked (hit_event (Vector3 0 0 0) 1000)
           (open_measure (Some Distance) (new_Measure [] Distance))) \<and>
   pointArray (onMouseClicked (hit_event (Vector3 5 5 5) 1400)
     (run [Close, Open (Some Area)]
        (onMouseClicked (hit_event (Vector3 0 0 0) 1000)
           (open_measure (Some Distance) (new_Measure [] Distance))))) = []"
proof -
  let ?s0 = "open_measure (Some Distance) (new_Measure [] Distance)"
  let ?e1 = "hit_event (Vector3 0 0 0) 1000"
  let ?e2 = "hit_event (Vector3 5 5 5) 1400"
  let ?acts = "[CanvasEvent Mousemove (hit_event (Vector3 2 2 2) 1200), Close, Open (Some Area),
      CanvasEvent Mousedown (hit_event (Vector3 5 5 5) 1400)]"
  have a: "accepted ?e1 ?s0"
    by (simp add: accepted_hit_event new_open_fields)
  have t: "0 < ev_now ?e1" "ev_now ?e2 - ev_now ?e1 < 500" by (simp_all add: hit_event_def)
  have x: "onMouseClicked ?e2 (run ?acts (onMouseClicked ?e1 ?s0)) = run ?acts (onMouseClicked ?e1 ?s0)"
    using click_suppression_persists[of "Some Distance" ?s0 ?e1 ?e2 ?acts] a t by blast
  have "onMouseClicked ?e2 (run [Close, Open (Some Area)] (onMouseClicked ?e1 ?s0)) =
        run [Close, Open (Some Area)] (onMouseClicked ?e1 ?s0)"
    using click_suppression_persists[of "Some Distance" ?s0 ?e1 ?e2 "[Close, Open (Some Area)]"] a t
    by blast
  then have y: "pointArray (onMouseClicked ?e2 (run [Close, Open (Some Area)] (onMouseClicked ?e1 ?s0))) = []"
    by (simp add: run_Cons run_Nil open_fields)
  show ?thesis using a t x y by blast
qed
end
